(* ===== verification/Prelude.thy ===== *)
theory Prelude
  imports Main "HOL-Library.Word" "HOL-Library.Multiset"
begin

text \<open>
  Shared vocabulary of the development: the widths of the C integers, the PostgreSQL error
  values that \<open>ereport(ERROR, \<dots>)\<close> raises, the error-propagating sequencing of calls, the
  decimal printing of integers (\<open>%d\<close>, \<open>%lld\<close>), the C string routines the sources call
  (\<open>strncmp\<close>, \<open>strchr\<close>, \<open>strstr\<close>, the truncation of \<open>snprintf\<close>), and the byte layouts
  (host little-endian and network big-endian) with their round trips.
\<close>

section \<open>Collections of facts\<close>

named_theorems res_simps \<open>error propagation\<close>
named_theorems wire_simps \<open>byte layouts and their inverses\<close>
named_theorems cstr_simps \<open>C string routines\<close>

section \<open>Machine types\<close>

type_synonym byte = "8 word"
type_synonym bytes = "byte list"
type_synonym i32 = "32 word"
type_synonym i64 = "64 word"

section \<open>Errors\<close>

text \<open>
  The SQLSTATE classes the sources name in \<open>errcode(\<dots>)\<close>, and those the server raises for a NOT
  NULL column, a primary key and an exhausted sequence of the extension's tables. An
  \<open>ereport(ERROR, \<dots>)\<close> without an \<open>errcode\<close> reports \<open>ERRCODE_INTERNAL_ERROR\<close>.
\<close>

datatype errcode =
    ERRCODE_INTERNAL_ERROR
  | ERRCODE_INVALID_BINARY_REPRESENTATION
  | ERRCODE_INVALID_TEXT_REPRESENTATION
  | ERRCODE_INVALID_PARAMETER_VALUE
  | ERRCODE_DATA_EXCEPTION
  | ERRCODE_DATATYPE_MISMATCH
  | ERRCODE_NULL_VALUE_NOT_ALLOWED
  | ERRCODE_FEATURE_NOT_SUPPORTED
  | ERRCODE_INSUFFICIENT_PRIVILEGE
  | ERRCODE_NO_DATA_FOUND
  | ERRCODE_NOT_NULL_VIOLATION
  | ERRCODE_UNIQUE_VIOLATION
  | ERRCODE_SEQUENCE_GENERATOR_LIMIT_EXCEEDED

text \<open>
  \<open>OutOfBounds\<close> is not an error the server reports: the call has stored outside an allocation, and its
  behaviour from there on is undefined.
\<close>

datatype pg_error =
    Ereport errcode string
  | OutOfBounds

type_synonym 'a result = "pg_error + 'a"

definition andthen :: "'e + 'a \<Rightarrow> ('a \<Rightarrow> 'e + 'b) \<Rightarrow> 'e + 'b" where
  "andthen r f = (case r of Inl e \<Rightarrow> Inl e | Inr x \<Rightarrow> f x)"

lemma andthen_Inl [simp, res_simps]: "andthen (Inl e) f = Inl e"
  by (simp add: andthen_def)

lemma andthen_Inr [simp, res_simps]: "andthen (Inr x) f = f x"
  by (simp add: andthen_def)

lemma andthen_eq_Inr [res_simps]:
  "andthen r f = Inr y \<longleftrightarrow> (\<exists>x. r = Inr x \<and> f x = Inr y)"
  by (cases r) auto

lemma andthen_eq_Inl [res_simps]:
  "andthen r f = Inl e \<longleftrightarrow> r = Inl e \<or> (\<exists>x. r = Inr x \<and> f x = Inl e)"
  by (cases r) auto

text \<open>Status codes of the server programming interface (spi.h).\<close>

definition SPI_OK_CONNECT :: int where "SPI_OK_CONNECT = 1"
definition SPI_OK_SELECT :: int where "SPI_OK_SELECT = 5"

section \<open>Decimal printing\<close>

fun fmt_nat :: "nat \<Rightarrow> string" where
  "fmt_nat n = (if n < 10 then [char_of (48 + n)] else fmt_nat (n div 10) @ [char_of (48 + n mod 10)])"

declare fmt_nat.simps [simp del]

definition fmt_d :: "int \<Rightarrow> string" where
  "fmt_d i = (if i < 0 then CHR ''-'' # fmt_nat (nat (- i)) else fmt_nat (nat i))"

lemma fmt_nat_not_Nil [simp]: "fmt_nat n \<noteq> []"
  by (subst fmt_nat.simps) simp

lemma length_fmt_nat_le: "n < 10 ^ k \<Longrightarrow> 0 < k \<Longrightarrow> length (fmt_nat n) \<le> k"
proof (induction k arbitrary: n)
  case 0
  then show ?case by simp
next
  case (Suc k)
  show ?case
  proof (cases "n < 10")
    case True
    then show ?thesis by (subst fmt_nat.simps) simp
  next
    case False
    with Suc.prems have k: "0 < k" by (cases k) auto
    from Suc.prems have "n div 10 < 10 ^ k" by (simp add: less_mult_imp_div_less mult.commute)
    from Suc.IH [OF this k] False show ?thesis by (subst fmt_nat.simps) simp
  qed
qed

text \<open>A signed 64-bit value prints in at most 20 characters.\<close>

lemma length_fmt_d_int64:
  assumes "- (2 ^ 63) \<le> i" and "i < 2 ^ 63"
  shows "length (fmt_d i) \<le> 20"
proof (cases "i < 0")
  case True
  with assms have "nat (- i) < 10 ^ 19" by simp
  then have "length (fmt_nat (nat (- i))) \<le> 19" by (rule length_fmt_nat_le) simp
  with True show ?thesis by (simp add: fmt_d_def)
next
  case False
  with assms have "nat i < 10 ^ 19" by simp
  then have "length (fmt_nat (nat i)) \<le> 19" by (rule length_fmt_nat_le) simp
  with False show ?thesis by (simp add: fmt_d_def)
qed

section \<open>C strings\<close>

text \<open>
  A C string is the list of its characters before the terminating NUL. \<open>strcmp(a, b) == 0\<close> is
  equality. \<open>strncmp(a, p, strlen(p)) == 0\<close> is \<open>starts_with p a\<close>; \<open>strchr\<close> and \<open>strstr\<close> give the
  offset of the first hit.
\<close>

definition c_isspace :: "char \<Rightarrow> bool" where
  "c_isspace c \<longleftrightarrow> of_char c \<in> {32 :: nat, 9, 10, 11, 12, 13}"

definition starts_with :: "string \<Rightarrow> string \<Rightarrow> bool" where
  "starts_with p s \<longleftrightarrow> take (length p) s = p"

fun strchr :: "string \<Rightarrow> char \<Rightarrow> nat option" where
  "strchr [] c = None"
| "strchr (x # xs) c = (if x = c then Some 0 else map_option Suc (strchr xs c))"

fun strstr :: "string \<Rightarrow> string \<Rightarrow> nat option" where
  "strstr s p =
     (if starts_with p s then Some 0
      else case s of [] \<Rightarrow> None | _ # xs \<Rightarrow> map_option Suc (strstr xs p))"

declare strstr.simps [simp del]

definition snprintf_trunc :: "nat \<Rightarrow> string \<Rightarrow> string" where
  "snprintf_trunc cap s = take (cap - 1) s"

text \<open>What a C string routine sees of a buffer: the characters before the first NUL.\<close>

definition c_string :: "string \<Rightarrow> string" where
  "c_string s = takeWhile (\<lambda>c. c \<noteq> CHR 0x00) s"

text \<open>A format's \<open>'%s'\<close>, with its single quotes.\<close>

definition squoted :: "string \<Rightarrow> string" where
  "squoted s = CHR 0x27 # s @ [CHR 0x27]"

lemma starts_with_append [simp, cstr_simps]: "starts_with p (p @ s)"
  by (simp add: starts_with_def)

lemma starts_with_iff [cstr_simps]: "starts_with p s \<longleftrightarrow> (\<exists>t. s = p @ t)"
  by (metis append_eq_conv_conj append_take_drop_id starts_with_def)

lemma strchr_Some_iff: "strchr s c = Some i \<longleftrightarrow> i < length s \<and> s ! i = c \<and> c \<notin> set (take i s)"
proof (induction s arbitrary: i)
  case Nil
  then show ?case by simp
next
  case (Cons x xs)
  then show ?case by (cases i) auto
qed

lemma strchr_None_iff [cstr_simps]: "strchr s c = None \<longleftrightarrow> c \<notin> set s"
  by (induction s) auto

lemma strchr_SomeD: "strchr s c = Some i \<Longrightarrow> s = take i s @ c # drop (Suc i) s"
  by (metis id_take_nth_drop strchr_Some_iff)

lemma strstr_None_iff:
  "strstr s p = None \<longleftrightarrow> (\<nexists>u v. s = u @ p @ v)"
proof (induction s p rule: strstr.induct)
  case (1 s p)
  show ?case
  proof (cases "starts_with p s")
    case True
    then have "strstr s p = Some 0" by (subst strstr.simps) simp
    moreover from True obtain t where "s = [] @ p @ t" by (auto simp: starts_with_iff)
    ultimately show ?thesis by (metis option.discI)
  next
    case False
    show ?thesis
    proof (cases s)
      case Nil
      with False show ?thesis by (subst strstr.simps) (auto simp: starts_with_def)
    next
      case (Cons x xs)
      from False Cons have "strstr s p = map_option Suc (strstr xs p)"
        by (subst strstr.simps) simp
      then have eq: "strstr s p = None \<longleftrightarrow> (\<nexists>u v. xs = u @ p @ v)"
        using "1.IH" [OF False Cons] by simp
      have "(\<exists>u v. s = u @ p @ v) \<longleftrightarrow> (\<exists>u v. xs = u @ p @ v)"
      proof
        assume "\<exists>u v. s = u @ p @ v"
        then obtain u v where uv: "s = u @ p @ v" by blast
        with False have "u \<noteq> []" by (auto simp: starts_with_iff)
        with uv Cons show "\<exists>u v. xs = u @ p @ v" by (cases u) auto
      next
        assume "\<exists>u v. xs = u @ p @ v"
        then obtain u v where "xs = u @ p @ v" by blast
        with Cons have "s = (x # u) @ p @ v" by simp
        then show "\<exists>u v. s = u @ p @ v" by blast
      qed
      with eq show ?thesis by simp
    qed
  qed
qed

lemma strstr_SomeD:
  "strstr s p = Some i \<Longrightarrow> i + length p \<le> length s \<and> s = take i s @ p @ drop (i + length p) s"
proof (induction s p arbitrary: i rule: strstr.induct)
  case (1 s p)
  show ?case
  proof (cases "starts_with p s")
    case True
    with "1.prems" have "i = 0" by (simp add: strstr.simps [of s p])
    with True show ?thesis by (auto simp: starts_with_iff)
  next
    case False
    with "1.prems" obtain x xs j where s: "s = x # xs" and j: "strstr xs p = Some j" "i = Suc j"
      by (auto simp: strstr.simps [of s p] split: list.splits)
    from "1.IH" [OF False s j(1)] j(2) s show ?thesis by simp
  qed
qed

section \<open>Byte layouts\<close>

primrec le_bytes :: "nat \<Rightarrow> nat \<Rightarrow> bytes" where
  "le_bytes 0 x = []"
| "le_bytes (Suc n) x = of_nat (x mod 256) # le_bytes n (x div 256)"

primrec le_value :: "bytes \<Rightarrow> nat" where
  "le_value [] = 0"
| "le_value (b # bs) = unat b + 256 * le_value bs"

definition be_bytes :: "nat \<Rightarrow> nat \<Rightarrow> bytes" where
  "be_bytes n x = rev (le_bytes n x)"

definition be_value :: "bytes \<Rightarrow> nat" where
  "be_value bs = le_value (rev bs)"

lemma length_le_bytes [simp, wire_simps]: "length (le_bytes n x) = n"
  by (induction n arbitrary: x) auto

lemma length_be_bytes [simp, wire_simps]: "length (be_bytes n x) = n"
  by (simp add: be_bytes_def)

lemma le_value_less: "le_value bs < 256 ^ length bs"
proof (induction bs)
  case Nil
  then show ?case by simp
next
  case (Cons b bs)
  have "unat b < 256" using unsigned_less [of b, where ?'a = nat] by simp
  with Cons show ?case by simp
qed

lemma le_value_le_bytes [wire_simps]: "le_value (le_bytes n x) = x mod 256 ^ n"
proof (induction n arbitrary: x)
  case 0
  then show ?case by simp
next
  case (Suc n)
  have "unat (of_nat (x mod 256) :: byte) = x mod 256"
    by (simp add: unat_of_nat)
  with Suc show ?case by (simp add: mod_mult2_eq)
qed

lemma le_bytes_le_value [wire_simps]: "length bs = n \<Longrightarrow> le_bytes n (le_value bs) = bs"
proof (induction bs arbitrary: n)
  case Nil
  then show ?case by simp
next
  case (Cons b bs)
  have b: "unat b < 256" using unsigned_less [of b, where ?'a = nat] by simp
  then have "of_nat ((unat b + 256 * le_value bs) mod 256) = b" by simp
  moreover have "(unat b + 256 * le_value bs) div 256 = le_value bs" using b by simp
  ultimately show ?case using Cons by auto
qed

lemma be_value_be_bytes [wire_simps]: "be_value (be_bytes n x) = x mod 256 ^ n"
  by (simp add: be_value_def be_bytes_def le_value_le_bytes)

lemma be_bytes_be_value [wire_simps]: "length bs = n \<Longrightarrow> be_bytes n (be_value bs) = bs"
  by (simp add: be_value_def be_bytes_def le_bytes_le_value)

lemma of_nat_le_value_le_bytes_32 [wire_simps]:
  "of_nat (le_value (le_bytes 4 (unat (w :: 32 word)))) = w"
proof -
  have "unat w < 256 ^ 4" using unsigned_less [of w, where ?'a = nat] by simp
  then show ?thesis by (simp add: le_value_le_bytes)
qed

lemma of_nat_le_value_le_bytes_64 [wire_simps]:
  "of_nat (le_value (le_bytes 8 (unat (w :: 64 word)))) = w"
proof -
  have "unat w < 256 ^ 8" using unsigned_less [of w, where ?'a = nat] by simp
  then show ?thesis by (simp add: le_value_le_bytes)
qed

lemma unat_of_nat_le_value_32 [wire_simps]:
  "length bs = 4 \<Longrightarrow> unat (of_nat (le_value bs) :: 32 word) = le_value bs"
  using le_value_less [of bs] by (simp add: unat_of_nat)

lemma unat_of_nat_le_value_64 [wire_simps]:
  "length bs = 8 \<Longrightarrow> unat (of_nat (le_value bs) :: 64 word) = le_value bs"
  using le_value_less [of bs] by (simp add: unat_of_nat)

section \<open>Lists\<close>

lemma mset_update_swap:
  assumes "i < length xs" and "j < length xs"
  shows "mset (xs[i := xs ! j, j := xs ! i]) = mset xs"
  using assms by (simp add: mset_swap)

lemma list_all_mapD: "map f xs = ys \<Longrightarrow> list_all P ys \<Longrightarrow> \<forall>x \<in> set xs. P (f x)"
  by (auto simp: list_all_iff)

lemma distinct_submset: "mset xs \<subseteq># mset ys \<Longrightarrow> distinct ys \<Longrightarrow> distinct xs"
proof -
  assume sub: "mset xs \<subseteq># mset ys" and d: "distinct ys"
  have "count (mset xs) a \<le> 1" for a
  proof -
    from d have "count (mset ys) a = (if a \<in> set ys then 1 else 0)" by (simp only: distinct_count_atmost_1)
    also have "\<dots> \<le> 1" by simp
    finally have "count (mset ys) a \<le> 1" .
    with mset_subset_eq_count [OF sub, of a] show ?thesis by (rule order_trans)
  qed
  moreover have "count (mset xs) a \<noteq> 0 \<longleftrightarrow> a \<in> set xs" for a by simp
  ultimately show ?thesis unfolding distinct_count_atmost_1 by (metis le_antisym less_one not_le not_gr_zero)
qed

section \<open>Growing a buffer\<close>

text \<open>The loop that doubles a capacity until it is enough; its callers start above 0.\<close>

function grow_cap :: "nat \<Rightarrow> nat \<Rightarrow> nat" where
  "grow_cap need nc = (if 0 < nc \<and> nc < need then grow_cap need (nc * 2) else nc)"
  by pat_completeness auto
termination
  by (relation "measure (\<lambda>(need, nc). need - nc)") auto

declare grow_cap.simps [simp del]

lemma grow_cap_ge: "0 < nc \<Longrightarrow> need \<le> grow_cap need nc"
proof (induction need nc rule: grow_cap.induct)
  case (1 need nc)
  then show ?case by (subst grow_cap.simps) auto
qed

end
