(* ===== verification/Ieee754.thy ===== *)
theory Ieee754
  imports Prelude
begin

text \<open>
  The C types \<open>float\<close> and \<open>double\<close> of the target platforms (x86-64 and AArch64): IEEE 754
  binary32 and binary64 values kept as their bit patterns, with the operators the sources
  apply to them: the comparisons, negation, addition, subtraction, multiplication, division,
  \<open>sqrt\<close> and the two conversions, all rounding to nearest with ties to even, each operation
  rounded on its own (no extended precision, no contraction to fused operations). Every
  operation is executable: an operand is unpacked to sign, integer significand and exponent,
  the exact result is computed on integers and rounded once.

  A NaN result is the default quiet NaN; which payload hardware picks is not observable
  through the comparisons and is not modelled.
\<close>

type_synonym f32 = "32 word"
type_synonym f64 = "64 word"

named_theorems fp_simps \<open>floating-point classification and comparison\<close>

section \<open>Bit patterns\<close>

definition f64_sign :: "f64 \<Rightarrow> bool" where
  "f64_sign x \<longleftrightarrow> 0x8000000000000000 \<le> uint x"

definition f64_mag :: "f64 \<Rightarrow> int" where
  "f64_mag x = uint x mod 0x8000000000000000"

definition f64_inf_mag :: int where
  "f64_inf_mag = 0x7FF0000000000000"

definition f64_nan :: "f64 \<Rightarrow> bool" where
  "f64_nan x \<longleftrightarrow> f64_inf_mag < f64_mag x"

text \<open>
  On non-NaN patterns the numerical order is the order of the magnitude read as an integer,
  negated when the sign bit is set; the two zeros get the same key.
\<close>

definition f64_key :: "f64 \<Rightarrow> int" where
  "f64_key x = (if f64_sign x then - f64_mag x else f64_mag x)"

definition f64_lt :: "f64 \<Rightarrow> f64 \<Rightarrow> bool" where
  "f64_lt a b \<longleftrightarrow> \<not> f64_nan a \<and> \<not> f64_nan b \<and> f64_key a < f64_key b"

definition f64_gt :: "f64 \<Rightarrow> f64 \<Rightarrow> bool" where
  "f64_gt a b \<longleftrightarrow> f64_lt b a"

definition f64_eq :: "f64 \<Rightarrow> f64 \<Rightarrow> bool" where
  "f64_eq a b \<longleftrightarrow> \<not> f64_nan a \<and> \<not> f64_nan b \<and> f64_key a = f64_key b"

definition f64_pack :: "bool \<Rightarrow> int \<Rightarrow> f64" where
  "f64_pack s mag = word_of_int (if s then mag + 0x8000000000000000 else mag)"

definition f32_pack :: "bool \<Rightarrow> int \<Rightarrow> f32" where
  "f32_pack s mag = word_of_int (if s then mag + 0x80000000 else mag)"

section \<open>Unpacked values\<close>

text \<open>
  \<open>FNum s m e\<close> is the number \<open>(-1)\<^sup>s * m * 2\<^sup>e\<close> with \<open>0 \<le> m\<close>; \<open>FNum s 0 e\<close> is a
  signed zero.
\<close>

datatype fp = FNaN | FInf bool | FNum bool int int

definition f64_unpack :: "f64 \<Rightarrow> fp" where
  "f64_unpack x =
     (let s = f64_sign x; mag = f64_mag x;
          ex = mag div 0x10000000000000; fr = mag mod 0x10000000000000 in
      if ex = 2047 then (if fr = 0 then FInf s else FNaN)
      else if ex = 0 then FNum s fr (- 1074)
      else FNum s (fr + 0x10000000000000) (ex - 1075))"

definition f32_unpack :: "f32 \<Rightarrow> fp" where
  "f32_unpack x =
     (let s = (0x80000000 \<le> uint x); mag = uint x mod 0x80000000;
          ex = mag div 0x800000; fr = mag mod 0x800000 in
      if ex = 255 then (if fr = 0 then FInf s else FNaN)
      else if ex = 0 then FNum s fr (- 149)
      else FNum s (fr + 0x800000) (ex - 150))"

section \<open>Rounding\<close>

function nbits :: "int \<Rightarrow> int" where
  "nbits n = (if n \<le> 0 then 0 else 1 + nbits (n div 2))"
  by pat_completeness auto
termination
  by (relation "measure nat") auto

declare nbits.simps [simp del]

text \<open>Round \<open>m / 2\<^sup>s\<close> to the nearest integer, ties to even.\<close>

definition round_shift :: "int \<Rightarrow> nat \<Rightarrow> int" where
  "round_shift m s =
     (let d = m div 2 ^ s; r = m mod 2 ^ s in
      if 2 * r < 2 ^ s \<or> (2 * r = 2 ^ s \<and> even d) then d else d + 1)"

text \<open>
  The magnitude bits of \<open>m * 2\<^sup>e\<close> in a format with \<open>t\<close> stored fraction bits, least exponent
  \<open>qmin\<close> and infinity pattern \<open>infm\<close>. Adding the significand to the exponent field lets a
  carry out of the significand bump the exponent, and covers subnormal results.
\<close>

definition round_mag :: "nat \<Rightarrow> int \<Rightarrow> int \<Rightarrow> int \<Rightarrow> int \<Rightarrow> int" where
  "round_mag t qmin infm m e =
     (if m = 0 then 0
      else let q = max (e + nbits m - int (Suc t)) qmin;
               sig = (if q \<le> e then m * 2 ^ nat (e - q) else round_shift m (nat (q - e)))
           in min infm ((q - qmin) * 2 ^ t + sig))"

definition f64_nan_default :: f64 where
  "f64_nan_default = 0x7FF8000000000000"

definition f32_nan_default :: f32 where
  "f32_nan_default = 0x7FC00000"

definition f64_of_fp :: "fp \<Rightarrow> f64" where
  "f64_of_fp v = (case v of FNaN \<Rightarrow> f64_nan_default | FInf s \<Rightarrow> f64_pack s f64_inf_mag
     | FNum s m e \<Rightarrow> f64_pack s (round_mag 52 (- 1074) f64_inf_mag m e))"

definition f32_of_fp :: "fp \<Rightarrow> f32" where
  "f32_of_fp v = (case v of FNaN \<Rightarrow> f32_nan_default | FInf s \<Rightarrow> f32_pack s 0x7F800000
     | FNum s m e \<Rightarrow> f32_pack s (round_mag 23 (- 149) 0x7F800000 m e))"

section \<open>Exact operations on unpacked values\<close>

definition signed_int :: "bool \<Rightarrow> int \<Rightarrow> int" where
  "signed_int s m = (if s then - m else m)"

fun fp_add :: "fp \<Rightarrow> fp \<Rightarrow> fp" where
  "fp_add FNaN y = FNaN"
| "fp_add x FNaN = FNaN"
| "fp_add (FInf s) (FInf t) = (if s = t then FInf s else FNaN)"
| "fp_add (FInf s) (FNum t n f) = FInf s"
| "fp_add (FNum s m e) (FInf t) = FInf t"
| "fp_add (FNum s m e) (FNum t n f) =
     (if m = 0 \<and> n \<noteq> 0 then FNum t n f
      else if n = 0 \<and> m \<noteq> 0 then FNum s m e
      else let q = min e f;
               z = signed_int s (m * 2 ^ nat (e - q)) + signed_int t (n * 2 ^ nat (f - q))
           in if z = 0 then FNum (s \<and> t) 0 q else FNum (z < 0) \<bar>z\<bar> q)"

fun fp_neg :: "fp \<Rightarrow> fp" where
  "fp_neg FNaN = FNaN"
| "fp_neg (FInf s) = FInf (\<not> s)"
| "fp_neg (FNum s m e) = FNum (\<not> s) m e"

fun fp_mul :: "fp \<Rightarrow> fp \<Rightarrow> fp" where
  "fp_mul FNaN y = FNaN"
| "fp_mul x FNaN = FNaN"
| "fp_mul (FInf s) (FInf t) = FInf (s \<noteq> t)"
| "fp_mul (FInf s) (FNum t n f) = (if n = 0 then FNaN else FInf (s \<noteq> t))"
| "fp_mul (FNum s m e) (FInf t) = (if m = 0 then FNaN else FInf (s \<noteq> t))"
| "fp_mul (FNum s m e) (FNum t n f) = FNum (s \<noteq> t) (m * n) (e + f)"

text \<open>
  Division and square root are inexact on integers: the quotient and the root are computed
  with enough extra bits and a sticky last bit that records a non-zero remainder, which the
  final rounding then sees.
\<close>

fun fp_div :: "fp \<Rightarrow> fp \<Rightarrow> fp" where
  "fp_div FNaN y = FNaN"
| "fp_div x FNaN = FNaN"
| "fp_div (FInf s) (FInf t) = FNaN"
| "fp_div (FInf s) (FNum t n f) = FInf (s \<noteq> t)"
| "fp_div (FNum s m e) (FInf t) = FNum (s \<noteq> t) 0 0"
| "fp_div (FNum s m e) (FNum t n f) =
     (if n = 0 then (if m = 0 then FNaN else FInf (s \<noteq> t))
      else let k = 56 + nbits n; w = m * 2 ^ nat k
           in FNum (s \<noteq> t) (2 * (w div n) + (if w mod n = 0 then 0 else 1)) (e - f - k - 1))"

function isqrt :: "int \<Rightarrow> int" where
  "isqrt n = (if n \<le> 0 then 0
     else let r = 2 * isqrt (n div 4) in if (r + 1) * (r + 1) \<le> n then r + 1 else r)"
  by pat_completeness auto
termination
  by (relation "measure nat") auto

declare isqrt.simps [simp del]

fun fp_sqrt :: "fp \<Rightarrow> fp" where
  "fp_sqrt FNaN = FNaN"
| "fp_sqrt (FInf s) = (if s then FNaN else FInf False)"
| "fp_sqrt (FNum s m e) =
     (if m = 0 then FNum s 0 e
      else if s then FNaN
      else let m' = (if even e then m else 2 * m); e' = (if even e then e else e - 1);
               w = m' * 4 ^ 56; r = isqrt w
           in FNum False (2 * r + (if r * r = w then 0 else 1)) (e' div 2 - 57))"

section \<open>The C operators\<close>

definition f64_neg :: "f64 \<Rightarrow> f64" where
  "f64_neg x = x + 0x8000000000000000"

definition f64_add :: "f64 \<Rightarrow> f64 \<Rightarrow> f64" where
  "f64_add a b = f64_of_fp (fp_add (f64_unpack a) (f64_unpack b))"

definition f64_sub :: "f64 \<Rightarrow> f64 \<Rightarrow> f64" where
  "f64_sub a b = f64_of_fp (fp_add (f64_unpack a) (fp_neg (f64_unpack b)))"

definition f64_mul :: "f64 \<Rightarrow> f64 \<Rightarrow> f64" where
  "f64_mul a b = f64_of_fp (fp_mul (f64_unpack a) (f64_unpack b))"

definition f64_div :: "f64 \<Rightarrow> f64 \<Rightarrow> f64" where
  "f64_div a b = f64_of_fp (fp_div (f64_unpack a) (f64_unpack b))"

definition f64_sqrt :: "f64 \<Rightarrow> f64" where
  "f64_sqrt a = f64_of_fp (fp_sqrt (f64_unpack a))"

definition f64_of_f32 :: "f32 \<Rightarrow> f64" where
  "f64_of_f32 x = f64_of_fp (f32_unpack x)"

definition f32_of_f64 :: "f64 \<Rightarrow> f32" where
  "f32_of_f64 x = f32_of_fp (f64_unpack x)"

definition f64_zero :: f64 where
  "f64_zero = 0"

definition f64_one :: f64 where
  "f64_one = 0x3FF0000000000000"

section \<open>Comparison\<close>

lemma f64_mag_bounds [fp_simps]: "0 \<le> f64_mag x" "f64_mag x < 0x8000000000000000"
  by (simp_all add: f64_mag_def)

lemma f64_lt_irrefl [simp, fp_simps]: "\<not> f64_lt a a"
  by (simp add: f64_lt_def)

lemma f64_lt_asym: "f64_lt a b \<Longrightarrow> \<not> f64_lt b a"
  by (simp add: f64_lt_def)

lemma f64_lt_key [fp_simps]:
  "\<not> f64_nan a \<Longrightarrow> \<not> f64_nan b \<Longrightarrow> f64_lt a b \<longleftrightarrow> f64_key a < f64_key b"
  by (simp add: f64_lt_def)

lemma f64_gt_key [fp_simps]:
  "\<not> f64_nan a \<Longrightarrow> \<not> f64_nan b \<Longrightarrow> f64_gt a b \<longleftrightarrow> f64_key b < f64_key a"
  by (simp add: f64_gt_def f64_lt_def)

lemma f64_eq_key [fp_simps]:
  "\<not> f64_nan a \<Longrightarrow> \<not> f64_nan b \<Longrightarrow> f64_eq a b \<longleftrightarrow> f64_key a = f64_key b"
  by (simp add: f64_eq_def)

lemma f64_nan_incomparable [fp_simps]:
  "f64_nan a \<Longrightarrow> \<not> f64_lt a b \<and> \<not> f64_lt b a \<and> \<not> f64_eq a b"
  by (simp add: f64_lt_def f64_eq_def)

section \<open>Packing and unpacking\<close>

lemma uint_f64_pack:
  assumes "0 \<le> mag" "mag < 0x8000000000000000"
  shows "uint (f64_pack s mag) = (if s then mag + 0x8000000000000000 else mag)"
  using assms by (simp add: f64_pack_def uint_word_of_int)

lemma f64_sign_pack [fp_simps]:
  "0 \<le> mag \<Longrightarrow> mag < 0x8000000000000000 \<Longrightarrow> f64_sign (f64_pack s mag) = s"
  by (simp add: f64_sign_def uint_f64_pack)

lemma f64_mag_pack [fp_simps]:
  "0 \<le> mag \<Longrightarrow> mag < 0x8000000000000000 \<Longrightarrow> f64_mag (f64_pack s mag) = mag"
  by (simp add: f64_mag_def uint_f64_pack)

lemma round_shift_nonneg: "0 \<le> m \<Longrightarrow> 0 \<le> round_shift m s"
  by (simp add: round_shift_def Let_def pos_imp_zdiv_nonneg_iff)

lemma round_mag_bounds:
  assumes "0 \<le> m" "0 \<le> infm"
  shows "0 \<le> round_mag t qmin infm m e" "round_mag t qmin infm m e \<le> infm"
proof -
  let ?q = "max (e + nbits m - int (Suc t)) qmin"
  let ?sig = "if ?q \<le> e then m * 2 ^ nat (e - ?q) else round_shift m (nat (?q - e))"
  have "0 \<le> ?sig" using assms(1) round_shift_nonneg by simp
  moreover have "0 \<le> (?q - qmin) * 2 ^ t" by simp
  ultimately have "0 \<le> (?q - qmin) * 2 ^ t + ?sig" by linarith
  then have "0 \<le> min infm ((?q - qmin) * 2 ^ t + ?sig)" using assms(2) by (rule min.boundedI [rotated])
  then show "0 \<le> round_mag t qmin infm m e"
    unfolding round_mag_def Let_def by (simp only: if_split) simp
  show "round_mag t qmin infm m e \<le> infm"
    using assms(2) by (simp add: round_mag_def Let_def)
qed

lemma round_mag_64:
  assumes "0 \<le> m"
  shows "0 \<le> round_mag 52 (- 1074) f64_inf_mag m e"
    and "round_mag 52 (- 1074) f64_inf_mag m e \<le> f64_inf_mag"
    and "round_mag 52 (- 1074) f64_inf_mag m e < 0x8000000000000000"
  using round_mag_bounds [OF assms, of f64_inf_mag 52 "- 1074" e]
  by (simp_all add: f64_inf_mag_def)

lemma round_mag_zero [simp, fp_simps]: "round_mag t qmin infm 0 e = 0"
  by (simp add: round_mag_def)

fun fp_ok :: "fp \<Rightarrow> bool" where
  "fp_ok (FNum s m e) = (0 \<le> m)"
| "fp_ok v = True"

lemma fp_ok_unpack [simp]: "fp_ok (f64_unpack x)" "fp_ok (f32_unpack y)"
  by (simp_all add: f64_unpack_def f32_unpack_def f64_mag_bounds Let_def)

lemma fp_ok_add: "fp_ok a \<Longrightarrow> fp_ok b \<Longrightarrow> fp_ok (fp_add a b)"
  by (induction a b rule: fp_add.induct) (auto simp: Let_def)

lemma fp_ok_neg: "fp_ok a \<Longrightarrow> fp_ok (fp_neg a)"
  by (cases a) auto

lemma fp_ok_mul: "fp_ok a \<Longrightarrow> fp_ok b \<Longrightarrow> fp_ok (fp_mul a b)"
  by (induction a b rule: fp_mul.induct) auto

text \<open>A magnitude splits into exponent field and fraction field.\<close>

lemma f64_mag_split:
  obtains ex fr where "f64_mag x div 0x10000000000000 = ex" "f64_mag x mod 0x10000000000000 = fr"
    "f64_mag x = 0x10000000000000 * ex + fr" "0 \<le> fr" "fr < 0x10000000000000" "0 \<le> ex" "ex \<le> 2047"
proof -
  have m: "0 \<le> f64_mag x" "f64_mag x < 0x8000000000000000" by (simp_all add: fp_simps)
  have "f64_mag x = 0x10000000000000 * (f64_mag x div 0x10000000000000) + f64_mag x mod 0x10000000000000"
    by simp
  moreover have "0 \<le> f64_mag x mod 0x10000000000000" "f64_mag x mod 0x10000000000000 < 0x10000000000000"
    by simp_all
  moreover from m have "0 \<le> f64_mag x div 0x10000000000000" by (simp add: pos_imp_zdiv_nonneg_iff)
  moreover have "f64_mag x div 0x10000000000000 \<le> 2047" using m(2) calculation by linarith
  ultimately show ?thesis using that by blast
qed

lemma f64_unpack_FNaN_iff: "f64_unpack x = FNaN \<longleftrightarrow> f64_nan x"
proof -
  obtain ex fr where s: "f64_mag x div 0x10000000000000 = ex" "f64_mag x mod 0x10000000000000 = fr"
    "f64_mag x = 0x10000000000000 * ex + fr" "0 \<le> fr" "fr < 0x10000000000000" "0 \<le> ex" "ex \<le> 2047"
    by (rule f64_mag_split)
  have "ex = 2047 \<and> fr \<noteq> 0 \<longleftrightarrow> 0x7FF0000000000000 < f64_mag x"
    using s(3-7) by (cases "ex = 2047") auto
  with s(1,2) show ?thesis
    by (cases "ex = 2047"; cases "fr = 0")
      (simp_all add: f64_unpack_def f64_nan_def f64_inf_mag_def Let_def)
qed

lemma f64_unpack_sign:
  "f64_unpack x = FInf s \<Longrightarrow> s = f64_sign x"
  "f64_unpack x = FNum s m e \<Longrightarrow> s = f64_sign x"
  by (auto simp: f64_unpack_def Let_def split: if_splits)

lemma f64_unpack_pack_neg:
  assumes "0 \<le> mag" "mag < 0x8000000000000000"
  shows "f64_unpack (f64_pack (\<not> s) mag) = fp_neg (f64_unpack (f64_pack s mag))"
  using assms by (simp add: f64_unpack_def f64_sign_pack f64_mag_pack Let_def)

lemma f64_nan_of_fp: "fp_ok v \<Longrightarrow> f64_nan (f64_of_fp v) \<longleftrightarrow> v = FNaN"
proof (cases v)
  case FNaN
  then show ?thesis by (simp add: f64_of_fp_def f64_nan_def f64_mag_def f64_nan_default_def f64_inf_mag_def)
next
  case (FInf s)
  then show ?thesis by (simp add: f64_of_fp_def f64_nan_def f64_mag_pack f64_inf_mag_def)
next
  case (FNum s m e)
  assume "fp_ok v"
  with FNum have m: "0 \<le> m" by simp
  from FNum show ?thesis
    using round_mag_64 [OF m, of e] by (simp add: f64_of_fp_def f64_nan_def f64_mag_pack)
qed

section \<open>Arithmetic facts used by the distance routines\<close>

lemma fp_mul_commute: "fp_mul a b = fp_mul b a"
  by (cases a; cases b) (auto simp: ac_simps)

lemma fp_add_commute: "fp_add a b = fp_add b a"
proof (cases "(\<exists>s m e. a = FNum s m e) \<and> (\<exists>t n f. b = FNum t n f)")
  case True
  then obtain s m e t n f where "a = FNum s m e" "b = FNum t n f" by blast
  then show ?thesis
    by (cases "m = 0 \<longleftrightarrow> n = 0") (auto simp: Let_def min.commute add.commute conj_commute)
next
  case False
  then show ?thesis by (cases a; cases b) auto
qed

lemma f64_mul_commute: "f64_mul a b = f64_mul b a"
  by (simp add: f64_mul_def fp_mul_commute)

lemma f64_add_commute: "f64_add a b = f64_add b a"
  by (simp add: f64_add_def fp_add_commute)

fun fp_nonneg :: "fp \<Rightarrow> bool" where
  "fp_nonneg FNaN = True"
| "fp_nonneg (FInf s) = (\<not> s)"
| "fp_nonneg (FNum s m e) = (\<not> s \<and> 0 \<le> m)"

lemma f64_of_fp_nonneg: "fp_nonneg v \<Longrightarrow> \<not> f64_sign (f64_of_fp v)"
proof (cases v)
  case (FNum s m e)
  assume "fp_nonneg v"
  with FNum show ?thesis
    using round_mag_64 [of m e] by (simp add: f64_of_fp_def f64_sign_pack)
qed (auto simp: f64_of_fp_def f64_sign_def f64_nan_default_def f64_pack_def f64_inf_mag_def)

lemma fp_nonneg_unpack: "\<not> f64_sign x \<Longrightarrow> fp_nonneg (f64_unpack x)"
  by (simp add: f64_unpack_def f64_mag_bounds Let_def)

lemma fp_nonneg_mul_self: "fp_ok v \<Longrightarrow> fp_nonneg (fp_mul v v)"
  by (cases v) auto

lemma fp_nonneg_add: "fp_nonneg a \<Longrightarrow> fp_nonneg b \<Longrightarrow> fp_nonneg (fp_add a b)"
proof (induction a b rule: fp_add.induct)
  case (6 s m e t n f)
  then have "\<not> m * 2 ^ nat (e - min e f) + n * 2 ^ nat (f - min e f) < 0"
    by (simp add: not_less)
  with 6 show ?case by (simp add: signed_int_def Let_def)
qed auto

text \<open>A square has a clear sign bit, and adding two such values keeps it clear.\<close>

lemma f64_square_nonneg: "\<not> f64_sign (f64_mul x x)"
  by (simp add: f64_mul_def f64_of_fp_nonneg fp_nonneg_mul_self)

lemma f64_add_nonneg: "\<not> f64_sign x \<Longrightarrow> \<not> f64_sign y \<Longrightarrow> \<not> f64_sign (f64_add x y)"
  by (simp add: f64_add_def f64_of_fp_nonneg fp_nonneg_add fp_nonneg_unpack)

lemma fp_mul_neg_neg: "fp_mul (fp_neg a) (fp_neg a) = fp_mul a a"
  by (cases a) auto

lemma signed_int_not [simp]: "signed_int (\<not> s) m = - signed_int s m"
  by (simp add: signed_int_def)

lemma fp_sub_swap_num:
  "fp_add (FNum s m e) (FNum (\<not> t) n f) = fp_neg (fp_add (FNum t n f) (FNum (\<not> s) m e))
   \<or> fp_add (FNum s m e) (FNum (\<not> t) n f) = fp_add (FNum t n f) (FNum (\<not> s) m e)"
proof (cases "m = 0 \<longleftrightarrow> n = 0")
  case False
  then show ?thesis by auto
next
  case both: True
  let ?q = "min e f"
  define x where "x = signed_int s (m * 2 ^ nat (e - ?q))"
  define y where "y = signed_int t (n * 2 ^ nat (f - ?q))"
  have 1: "fp_add (FNum s m e) (FNum (\<not> t) n f) =
      (if x - y = 0 then FNum (s \<and> \<not> t) 0 ?q else FNum (x - y < 0) \<bar>x - y\<bar> ?q)"
    using both by (auto simp: x_def y_def Let_def)
  have 2: "fp_add (FNum t n f) (FNum (\<not> s) m e) =
      (if y - x = 0 then FNum (t \<and> \<not> s) 0 ?q else FNum (y - x < 0) \<bar>y - x\<bar> ?q)"
    using both by (auto simp: x_def y_def Let_def min.commute)
  show ?thesis unfolding 1 2 by (cases s; cases t) auto
qed

lemma fp_sub_swap:
  "fp_add a (fp_neg b) = fp_neg (fp_add b (fp_neg a)) \<or> fp_add a (fp_neg b) = fp_add b (fp_neg a)"
  by (cases a; cases b) (use fp_sub_swap_num in simp_all)

lemma f64_unpack_of_fp_neg:
  assumes "fp_ok v"
  shows "f64_unpack (f64_of_fp (fp_neg v)) = fp_neg (f64_unpack (f64_of_fp v))"
proof (cases v)
  case FNaN
  then show ?thesis
    by (simp add: f64_of_fp_def f64_unpack_def f64_nan_default_def f64_mag_def Let_def)
next
  case (FInf s)
  then show ?thesis
    using f64_unpack_pack_neg [of f64_inf_mag s] by (simp add: f64_of_fp_def f64_inf_mag_def)
next
  case (FNum s m e)
  with assms have "0 \<le> m" by simp
  from round_mag_64 [OF this, of e] FNum show ?thesis
    by (simp add: f64_of_fp_def f64_unpack_pack_neg)
qed

text \<open>\<open>(a - b) * (a - b)\<close> does not depend on the order of the operands.\<close>

lemma f64_sub_square_commute:
  "f64_mul (f64_sub a b) (f64_sub a b) = f64_mul (f64_sub b a) (f64_sub b a)"
proof -
  let ?u = "fp_add (f64_unpack b) (fp_neg (f64_unpack a))"
  have ok: "fp_ok ?u" by (simp add: fp_ok_add fp_ok_neg)
  from fp_sub_swap [of "f64_unpack a" "f64_unpack b"] show ?thesis
    by (auto simp: f64_mul_def f64_sub_def f64_unpack_of_fp_neg [OF ok] fp_mul_neg_neg)
qed

definition f64_finite :: "f64 \<Rightarrow> bool" where
  "f64_finite x \<longleftrightarrow> f64_mag x < f64_inf_mag"

lemma f64_finite_unpack:
  assumes "f64_finite x"
  obtains s m e where "f64_unpack x = FNum s m e" "0 \<le> m"
proof -
  obtain ex fr where s: "f64_mag x div 0x10000000000000 = ex" "f64_mag x mod 0x10000000000000 = fr"
    "f64_mag x = 0x10000000000000 * ex + fr" "0 \<le> fr" "fr < 0x10000000000000" "0 \<le> ex" "ex \<le> 2047"
    by (rule f64_mag_split)
  with assms have "f64_mag x div 0x10000000000000 \<noteq> 2047"
    unfolding f64_finite_def f64_inf_mag_def by auto
  then have "\<exists>s m e. f64_unpack x = FNum s m e \<and> 0 \<le> m"
    using s(4) by (simp add: f64_unpack_def f64_mag_bounds Let_def)
  with that show ?thesis by blast
qed

lemma f64_sub_self: "f64_finite x \<Longrightarrow> f64_sub x x = 0"
  by (erule f64_finite_unpack) (simp add: f64_sub_def f64_of_fp_def f64_pack_def signed_int_def Let_def)

lemma f64_unpack_zero: "f64_unpack 0 = FNum False 0 (- 1074)"
  by (simp add: f64_unpack_def f64_sign_def f64_mag_def Let_def)

lemma f64_mul_zero_zero [simp, fp_simps]: "f64_mul 0 0 = 0"
  by (simp add: f64_mul_def f64_unpack_zero f64_of_fp_def f64_pack_def)

lemma f64_add_zero_zero [simp, fp_simps]: "f64_add 0 0 = 0"
  by (simp add: f64_add_def f64_unpack_zero f64_of_fp_def f64_pack_def signed_int_def)

lemma f64_nan_zero [simp]: "\<not> f64_nan 0"
  by (simp add: f64_nan_def f64_mag_def f64_inf_mag_def)

end
