(* ===== verification/Pq_Format.thy ===== *)
theory Pq_Format
  imports Ieee754
begin

text \<open>
  PostgreSQL's message formatting routines (\<open>libpq/pqformat.h\<close>), which the extension calls and
  which are not part of it: a parameter \<open>pqformat\<close> of the operations that use them. What the
  extension relies on is the predicate \<open>pqformat_ok\<close>: every reader gives back what its writer
  appended and moves the cursor past it, and \<open>pq_getmsgend\<close> accepts a fully read message.
  \<open>pq_network\<close> is an implementation in network byte order that satisfies it.
\<close>

record StringInfo =
  si_data :: bytes
  si_cursor :: nat

record pqformat =
  pq_sendint32 :: "bytes \<Rightarrow> i32 \<Rightarrow> bytes"
  pq_sendint64 :: "bytes \<Rightarrow> i64 \<Rightarrow> bytes"
  pq_sendfloat8 :: "bytes \<Rightarrow> f64 \<Rightarrow> bytes"
  pq_sendbytes :: "bytes \<Rightarrow> bytes \<Rightarrow> bytes"
  pq_getmsgint4 :: "StringInfo \<Rightarrow> (i32 \<times> StringInfo) result"
  pq_getmsgint64 :: "StringInfo \<Rightarrow> (i64 \<times> StringInfo) result"
  pq_getmsgfloat8 :: "StringInfo \<Rightarrow> (f64 \<times> StringInfo) result"
  pq_copymsgbytes :: "StringInfo \<Rightarrow> nat \<Rightarrow> (bytes \<times> StringInfo) result"
  pq_getmsgend :: "StringInfo \<Rightarrow> unit result"

text \<open>The unread part of a message, and the buffer after reading some of it.\<close>

definition si_rest :: "StringInfo \<Rightarrow> bytes" where
  "si_rest b = drop (si_cursor b) (si_data b)"

definition si_advance :: "StringInfo \<Rightarrow> nat \<Rightarrow> StringInfo" where
  "si_advance b n = b\<lparr>si_cursor := si_cursor b + n\<rparr>"

definition reads_back :: "(bytes \<Rightarrow> 'a \<Rightarrow> bytes) \<Rightarrow> (StringInfo \<Rightarrow> ('a \<times> StringInfo) result) \<Rightarrow> nat \<Rightarrow> bool" where
  "reads_back wr rd w \<longleftrightarrow>
     (\<exists>enc. (\<forall>out v. wr out v = out @ enc v) \<and> (\<forall>v. length (enc v) = w) \<and>
        (\<forall>b v rest. si_rest b = enc v @ rest \<longrightarrow> rd b = Inr (v, si_advance b w)))"

definition pqformat_ok :: "pqformat \<Rightarrow> bool" where
  "pqformat_ok pq \<longleftrightarrow>
     reads_back (pq_sendint32 pq) (pq_getmsgint4 pq) 4 \<and>
     reads_back (pq_sendint64 pq) (pq_getmsgint64 pq) 8 \<and>
     reads_back (pq_sendfloat8 pq) (pq_getmsgfloat8 pq) 8 \<and>
     (\<forall>out v. pq_sendbytes pq out v = out @ v) \<and>
     (\<forall>b v rest. si_rest b = v @ rest \<longrightarrow>
        pq_copymsgbytes pq b (length v) = Inr (v, si_advance b (length v))) \<and>
     (\<forall>b. si_rest b = [] \<longrightarrow> pq_getmsgend pq b = Inr ())"

lemma si_rest_advance: "si_rest b = u @ v \<Longrightarrow> si_rest (si_advance b (length u)) = v"
  by (simp add: si_rest_def si_advance_def) (metis add.commute append_eq_conv_conj drop_drop)

lemma reads_backE:
  assumes "reads_back wr rd w"
  obtains enc where "\<And>out v. wr out v = out @ enc v" "\<And>v. length (enc v) = w"
    "\<And>b v rest. si_rest b = enc v @ rest \<Longrightarrow>
       rd b = Inr (v, si_advance b w) \<and> si_rest (si_advance b w) = rest"
proof -
  from assms obtain enc where e: "\<forall>out v. wr out v = out @ enc v" "\<forall>v. length (enc v) = w"
    "\<forall>b v rest. si_rest b = enc v @ rest \<longrightarrow> rd b = Inr (v, si_advance b w)"
    by (auto simp: reads_back_def)
  show thesis
  proof (rule that [of enc])
    fix b v rest assume r: "si_rest b = enc v @ rest"
    then have "si_rest (si_advance b (length (enc v))) = rest" by (rule si_rest_advance)
    with e r show "rd b = Inr (v, si_advance b w) \<and> si_rest (si_advance b w) = rest" by simp
  qed (use e in auto)
qed

text \<open>
  The contract as the clients use it: named encodings of the three fixed-width fields, and readers
  that consume exactly one encoding.
\<close>

locale wire_format =
  fixes pq :: pqformat and e32 :: "i32 \<Rightarrow> bytes" and e64 :: "i64 \<Rightarrow> bytes" and ef8 :: "f64 \<Rightarrow> bytes"
  assumes send32: "pq_sendint32 pq out v32 = out @ e32 v32"
    and send64: "pq_sendint64 pq out v64 = out @ e64 v64"
    and sendf8: "pq_sendfloat8 pq out vf = out @ ef8 vf"
    and sendbytes: "pq_sendbytes pq out bs = out @ bs"
    and recv32: "si_rest b = e32 v32 @ rest \<Longrightarrow>
      pq_getmsgint4 pq b = Inr (v32, si_advance b 4) \<and> si_rest (si_advance b 4) = rest"
    and recv64: "si_rest b = e64 v64 @ rest \<Longrightarrow>
      pq_getmsgint64 pq b = Inr (v64, si_advance b 8) \<and> si_rest (si_advance b 8) = rest"
    and recvf8: "si_rest b = ef8 vf @ rest \<Longrightarrow>
      pq_getmsgfloat8 pq b = Inr (vf, si_advance b 8) \<and> si_rest (si_advance b 8) = rest"
    and recvbytes: "si_rest b = bs @ rest \<Longrightarrow> length bs = n \<Longrightarrow>
      pq_copymsgbytes pq b n = Inr (bs, si_advance b n) \<and> si_rest (si_advance b n) = rest"
    and recvend: "si_rest b = [] \<Longrightarrow> pq_getmsgend pq b = Inr ()"

lemma pqformat_ok_wire:
  assumes "pqformat_ok pq"
  obtains e32 e64 ef8 where "wire_format pq e32 e64 ef8"
proof -
  from assms have r: "reads_back (pq_sendint32 pq) (pq_getmsgint4 pq) 4"
    "reads_back (pq_sendint64 pq) (pq_getmsgint64 pq) 8"
    "reads_back (pq_sendfloat8 pq) (pq_getmsgfloat8 pq) 8"
    and io: "\<And>out v. pq_sendbytes pq out v = out @ v"
      "\<And>b v rest. si_rest b = v @ rest \<Longrightarrow> pq_copymsgbytes pq b (length v) = Inr (v, si_advance b (length v))"
      "\<And>b. si_rest b = [] \<Longrightarrow> pq_getmsgend pq b = Inr ()"
    by (auto simp: pqformat_ok_def)
  from r(1) obtain e32 where e32: "\<And>out v. pq_sendint32 pq out v = out @ e32 v"
    "\<And>b v rest. si_rest b = e32 v @ rest \<Longrightarrow>
       pq_getmsgint4 pq b = Inr (v, si_advance b 4) \<and> si_rest (si_advance b 4) = rest"
    by (rule reads_backE) blast
  from r(2) obtain e64 where e64: "\<And>out v. pq_sendint64 pq out v = out @ e64 v"
    "\<And>b v rest. si_rest b = e64 v @ rest \<Longrightarrow>
       pq_getmsgint64 pq b = Inr (v, si_advance b 8) \<and> si_rest (si_advance b 8) = rest"
    by (rule reads_backE) blast
  from r(3) obtain ef8 where ef8: "\<And>out v. pq_sendfloat8 pq out v = out @ ef8 v"
    "\<And>b v rest. si_rest b = ef8 v @ rest \<Longrightarrow>
       pq_getmsgfloat8 pq b = Inr (v, si_advance b 8) \<and> si_rest (si_advance b 8) = rest"
    by (rule reads_backE) blast
  have "wire_format pq e32 e64 ef8"
    by unfold_locales (use e32 e64 ef8 io si_rest_advance in auto)
  with that show thesis by blast
qed

section \<open>An implementation in network byte order\<close>

definition insufficient_data :: "'a result" where
  "insufficient_data = Inl (Ereport ERRCODE_INTERNAL_ERROR ''insufficient data left in message'')"

definition net_copy :: "StringInfo \<Rightarrow> nat \<Rightarrow> (bytes \<times> StringInfo) result" where
  "net_copy b n = (if n \<le> length (si_rest b) then Inr (take n (si_rest b), si_advance b n)
     else insufficient_data)"

definition net_int :: "nat \<Rightarrow> StringInfo \<Rightarrow> ('a::len word \<times> StringInfo) result" where
  "net_int w b = andthen (net_copy b w) (\<lambda>(bs, b'). Inr (of_nat (be_value bs), b'))"

definition pq_network :: pqformat where
  "pq_network = \<lparr>
     pq_sendint32 = (\<lambda>out v. out @ be_bytes 4 (unat v)),
     pq_sendint64 = (\<lambda>out v. out @ be_bytes 8 (unat v)),
     pq_sendfloat8 = (\<lambda>out v. out @ be_bytes 8 (unat v)),
     pq_sendbytes = (\<lambda>out v. out @ v),
     pq_getmsgint4 = net_int 4,
     pq_getmsgint64 = net_int 8,
     pq_getmsgfloat8 = net_int 8,
     pq_copymsgbytes = net_copy,
     pq_getmsgend = (\<lambda>b. if si_rest b = [] then Inr ()
       else Inl (Ereport ERRCODE_INTERNAL_ERROR ''invalid message format''))\<rparr>"

lemma net_int_reads_back:
  assumes "LENGTH('a::len) = 8 * w"
  shows "reads_back (\<lambda>out (v :: 'a word). out @ be_bytes w (unat v)) (net_int w) w"
proof -
  have v: "of_nat (be_value (be_bytes w (unat v))) = v" for v :: "'a word"
  proof -
    have "unat v < 256 ^ w"
      using unsigned_less [of v, where ?'a = nat] assms by (simp add: power_mult)
    then show ?thesis by (simp add: be_value_be_bytes)
  qed
  have "net_int w b = Inr (v, si_advance b w)" if "si_rest b = be_bytes w (unat v) @ rest"
    for b and v :: "'a word" and rest
    using that v [of v] by (simp add: net_int_def net_copy_def)
  then show ?thesis unfolding reads_back_def
    by (intro exI [of _ "\<lambda>v. be_bytes w (unat v)"]) simp
qed

lemma pq_network_ok: "pqformat_ok pq_network"
proof -
  have "reads_back (\<lambda>out (v :: i32). out @ be_bytes 4 (unat v)) (net_int 4) 4"
    by (rule net_int_reads_back) simp
  moreover have "reads_back (\<lambda>out (v :: i64). out @ be_bytes 8 (unat v)) (net_int 8) 8"
    by (rule net_int_reads_back) simp
  moreover have "net_copy b (length v) = Inr (v, si_advance b (length v))" if "si_rest b = v @ rest"
    for b v rest
    using that by (simp add: net_copy_def)
  ultimately show ?thesis by (auto simp: pqformat_ok_def pq_network_def)
qed

lemma net_wire_read:
  assumes "LENGTH('a::len) = 8 * w" and "si_rest b = be_bytes w (unat (v :: 'a word)) @ rest"
  shows "net_int w b = Inr (v, si_advance b w) \<and> si_rest (si_advance b w) = rest"
proof -
  have "unat v < 256 ^ w"
    using unsigned_less [of v, where ?'a = nat] assms(1) by (simp add: power_mult)
  then have "of_nat (be_value (be_bytes w (unat v))) = v" by (simp add: be_value_be_bytes)
  with assms(2) si_rest_advance [OF assms(2)] show ?thesis by (simp add: net_int_def net_copy_def)
qed

interpretation network: wire_format pq_network "\<lambda>v. be_bytes 4 (unat v)" "\<lambda>v. be_bytes 8 (unat v)"
  "\<lambda>v. be_bytes 8 (unat v)"
  by unfold_locales
     (auto simp: pq_network_def net_copy_def dest: net_wire_read [rotated] si_rest_advance)

end
