(* ===== verification/Vector_Type.thy ===== *)
theory Vector_Type
  imports Pq_Format
begin

text \<open>
  The \<open>malu_vector\<close> storage format and its text and binary input/output
  (\<open>src/src/maludb_type.c\<close>, \<open>src/src/maludb_varlena.h\<close>): a vector is a varlena payload of
  \<open>4 * dim\<close> bytes, each four-byte slice an IEEE 754 single in little-endian host order. The
  text reader calls C's \<open>strtod\<close>, modelled here as the GNU C library defines it in the "C"
  numeric locale (a NaN is the default one: sign and payload of a spelled NaN are not modelled); the
  text writer calls PostgreSQL's \<open>float_to_shortest_decimal_bufn\<close>, which is
  the parameter \<open>shortest\<close>.
\<close>

section \<open>Packed singles\<close>

fun vec_floats :: "bytes \<Rightarrow> f32 list" where
  "vec_floats (b0 # b1 # b2 # b3 # bs) = of_nat (le_value [b0, b1, b2, b3]) # vec_floats bs"
| "vec_floats bs = []"

fun vec_bytes :: "f32 list \<Rightarrow> bytes" where
  "vec_bytes [] = []"
| "vec_bytes (v # vs) = le_bytes 4 (unat v) @ vec_bytes vs"

lemma length_vec_bytes [simp, wire_simps]: "length (vec_bytes vs) = 4 * length vs"
  by (induction vs) auto

lemma length_vec_floats [simp, wire_simps]: "length (vec_floats bs) = length bs div 4"
  by (induction bs rule: vec_floats.induct) auto

lemma length_4_eq: "length bs = 4 \<Longrightarrow> \<exists>a b c d. bs = [a, b, c, d]"
  by (auto simp: length_Suc_conv numeral_eq_Suc)

lemma vec_floats_vec_bytes [simp, wire_simps]: "vec_floats (vec_bytes vs) = vs"
proof (induction vs)
  case Nil
  then show ?case by simp
next
  case (Cons v vs)
  obtain a b c d where q: "le_bytes 4 (unat v) = [a, b, c, d]"
    using length_4_eq [OF length_le_bytes] by blast
  have "of_nat (le_value [a, b, c, d]) = v"
    using of_nat_le_value_le_bytes_32 [of v] q by simp
  with q Cons show ?case by simp
qed

lemma vec_bytes_vec_floats [wire_simps]: "length bs mod 4 = 0 \<Longrightarrow> vec_bytes (vec_floats bs) = bs"
proof (induction bs rule: vec_floats.induct)
  case (1 b0 b1 b2 b3 bs)
  let ?q = "[b0, b1, b2, b3]"
  have "le_bytes 4 (unat (of_nat (le_value ?q) :: f32)) = ?q"
    using unat_of_nat_le_value_32 [of ?q] le_bytes_le_value [of ?q 4] by simp
  moreover from "1.prems" have "length bs mod 4 = 0" by simp
  ultimately show ?case using "1.IH" by simp
qed auto

section \<open>Aligned access to a payload\<close>

text \<open>
  A pointer to the bytes of a varlena payload. \<open>maludb_varlena_aligned\<close> hands out the payload
  in place when its address is a multiple of \<open>MAXIMUM_ALIGNOF\<close>, and otherwise a \<open>palloc\<close>ed copy;
  \<open>palloc\<close> maps a size to the address it returns.
\<close>

record payload =
  p_addr :: nat
  p_data :: bytes

definition MAXIMUM_ALIGNOF :: nat where
  "MAXIMUM_ALIGNOF = 8"

definition maludb_varlena_aligned :: "(nat \<Rightarrow> nat) \<Rightarrow> payload \<Rightarrow> payload" where
  "maludb_varlena_aligned palloc v =
     (if p_addr v mod MAXIMUM_ALIGNOF = 0 then v
      else let len = length (p_data v)
           in \<lparr>p_addr = palloc (if len > 0 then len else 1), p_data = take len (p_data v)\<rparr>)"

lemma varlena_aligned_sound:
  assumes "\<And>n. palloc n mod MAXIMUM_ALIGNOF = 0"
  shows "p_addr (maludb_varlena_aligned palloc v) mod MAXIMUM_ALIGNOF = 0"
    and "p_data (maludb_varlena_aligned palloc v) = p_data v"
  using assms by (simp_all add: maludb_varlena_aligned_def Let_def)

section \<open>The C library: character classes and \<open>strtod\<close>\<close>

definition c_isdigit :: "char \<Rightarrow> bool" where
  "c_isdigit c \<longleftrightarrow> 48 \<le> (of_char c :: nat) \<and> of_char c \<le> (57 :: nat)"

definition c_isxdigit :: "char \<Rightarrow> bool" where
  "c_isxdigit c \<longleftrightarrow> c_isdigit c \<or> (65 \<le> (of_char c :: nat) \<and> of_char c \<le> (70 :: nat))
     \<or> (97 \<le> (of_char c :: nat) \<and> of_char c \<le> (102 :: nat))"

definition c_tolower :: "char \<Rightarrow> char" where
  "c_tolower c = (if 65 \<le> (of_char c :: nat) \<and> of_char c \<le> (90 :: nat) then char_of (of_char c + 32 :: nat) else c)"

definition c_isalnum_us :: "char \<Rightarrow> bool" where
  "c_isalnum_us c \<longleftrightarrow> c_isdigit c \<or> (97 \<le> (of_char (c_tolower c) :: nat)
     \<and> of_char (c_tolower c) \<le> (122 :: nat)) \<or> c = CHR ''_''"

definition skip_space :: "string \<Rightarrow> string" where
  "skip_space s = dropWhile c_isspace s"

definition digit_value :: "char \<Rightarrow> int" where
  "digit_value c = (let n = (of_char (c_tolower c) :: int) in if n < 58 then n - 48 else n - 87)"

definition digits_value :: "int \<Rightarrow> string \<Rightarrow> int" where
  "digits_value base ds = foldl (\<lambda>a c. a * base + digit_value c) 0 ds"

fun starts_with_ci :: "string \<Rightarrow> string \<Rightarrow> bool" where
  "starts_with_ci [] s = True"
| "starts_with_ci (p # ps) [] = False"
| "starts_with_ci (p # ps) (c # s) \<longleftrightarrow> p = c_tolower c \<and> starts_with_ci ps s"

text \<open>Digits with an optional radix point: integral digits, fraction digits, the rest.\<close>

definition scan_mantissa :: "(char \<Rightarrow> bool) \<Rightarrow> string \<Rightarrow> string \<times> string \<times> string" where
  "scan_mantissa isd s =
     (let ip = takeWhile isd s; r = dropWhile isd s in
      case r of
        c # r' \<Rightarrow> if c = CHR ''.'' \<and> (ip \<noteq> [] \<or> takeWhile isd r' \<noteq> [])
                  then (ip, takeWhile isd r', dropWhile isd r') else (ip, [], r)
      | [] \<Rightarrow> (ip, [], []))"

text \<open>An exponent is consumed only when at least one digit follows the marker and sign.\<close>

definition scan_exponent :: "char \<Rightarrow> string \<Rightarrow> int \<times> string" where
  "scan_exponent mark s =
     (case s of
        c # r \<Rightarrow>
          if c_tolower c = mark then
            let neg = (case r of x # _ \<Rightarrow> x = CHR ''-'' | [] \<Rightarrow> False);
                r' = (case r of x # t \<Rightarrow> if x = CHR ''-'' \<or> x = CHR ''+'' then t else r | [] \<Rightarrow> r);
                ds = takeWhile c_isdigit r'
            in if ds = [] then (0, s)
               else ((if neg then - digits_value 10 ds else digits_value 10 ds), dropWhile c_isdigit r')
          else (0, s)
      | [] \<Rightarrow> (0, s))"

definition fp_decimal :: "bool \<Rightarrow> int \<Rightarrow> int \<Rightarrow> fp" where
  "fp_decimal neg m e =
     (if m = 0 then FNum neg 0 0
      else if 0 \<le> e then FNum neg (m * 10 ^ nat e) 0
      else fp_div (FNum neg m 0) (FNum False (10 ^ nat (- e)) 0))"

definition strtod_hex :: "bool \<Rightarrow> string \<Rightarrow> (fp \<times> string) option" where
  "strtod_hex neg s =
     (case scan_mantissa c_isxdigit s of (ip, fr, r) \<Rightarrow>
        if ip @ fr = [] then None
        else (case scan_exponent CHR ''p'' r of (e, r') \<Rightarrow>
          Some (FNum neg (digits_value 16 (ip @ fr)) (e - 4 * int (length fr)), r')))"

definition strtod_dec :: "bool \<Rightarrow> string \<Rightarrow> (fp \<times> string) option" where
  "strtod_dec neg s =
     (case scan_mantissa c_isdigit s of (ip, fr, r) \<Rightarrow>
        if ip @ fr = [] then None
        else (case scan_exponent CHR ''e'' r of (e, r') \<Rightarrow>
          Some (fp_decimal neg (digits_value 10 (ip @ fr)) (e - int (length fr)), r')))"

definition strtod_unsigned :: "bool \<Rightarrow> string \<Rightarrow> (fp \<times> string) option" where
  "strtod_unsigned neg s =
     (if starts_with_ci ''infinity'' s then Some (FInf neg, drop 8 s)
      else if starts_with_ci ''inf'' s then Some (FInf neg, drop 3 s)
      else if starts_with_ci ''nan'' s then
        (case drop 3 s of
           c # t \<Rightarrow> (case dropWhile c_isalnum_us t of
               d # u \<Rightarrow> if c = CHR ''('' \<and> d = CHR '')'' then Some (FNaN, u) else Some (FNaN, c # t)
             | [] \<Rightarrow> Some (FNaN, c # t))
         | [] \<Rightarrow> Some (FNaN, []))
      else if starts_with_ci ''0x'' s \<and> strtod_hex neg (drop 2 s) \<noteq> None then strtod_hex neg (drop 2 s)
      else strtod_dec neg s)"

text \<open>\<open>strtod(p, &end)\<close>: the value and the text at \<open>end\<close>; \<open>end == p\<close> when nothing converts.\<close>

definition strtod_fp :: "string \<Rightarrow> fp \<times> string" where
  "strtod_fp s =
     (let t = skip_space s;
          neg = (case t of c # _ \<Rightarrow> c = CHR ''-'' | [] \<Rightarrow> False);
          u = (case t of c # r \<Rightarrow> if c = CHR ''-'' \<or> c = CHR ''+'' then r else t | [] \<Rightarrow> t)
      in case strtod_unsigned neg u of Some vr \<Rightarrow> vr | None \<Rightarrow> (FNum False 0 0, s))"

definition strtod :: "string \<Rightarrow> f64 \<times> string" where
  "strtod s = (case strtod_fp s of (v, r) \<Rightarrow> (f64_of_fp v, r))"


text \<open>Whatever \<open>strtod\<close> leaves is a suffix of its input.\<close>

lemma suffix_dropWhile: "\<exists>u. s = u @ dropWhile P s"
  by (metis takeWhile_dropWhile_id)

lemma suffix_drop: "\<exists>u. s = u @ drop n s"
  by (metis append_take_drop_id)

lemma scan_mantissa_suffix: "scan_mantissa P s = (ip, fr, r) \<Longrightarrow> \<exists>u. s = u @ r"
  unfolding scan_mantissa_def Let_def
  by (auto split: list.splits if_splits)
     (metis append.assoc append_Cons append_Nil takeWhile_dropWhile_id)+

lemma scan_exponent_suffix: "scan_exponent m s = (e, r) \<Longrightarrow> \<exists>u. s = u @ r"
  unfolding scan_exponent_def Let_def
  by (auto split: list.splits if_splits simp: eq_commute [of "_ # _" "_ @ _"])
     (metis append_Cons append_Nil takeWhile_dropWhile_id)+

lemma suffix_trans: "\<exists>u. s = u @ t \<Longrightarrow> \<exists>u. t = u @ r \<Longrightarrow> \<exists>u. s = u @ (r :: 'a list)"
  by (metis append.assoc)

lemma strtod_digits_suffix:
  "strtod_hex neg s = Some (v, r) \<Longrightarrow> \<exists>u. s = u @ r"
  "strtod_dec neg s = Some (v, r) \<Longrightarrow> \<exists>u. s = u @ r"
  by (auto simp: strtod_hex_def strtod_dec_def split: prod.splits if_splits
      dest!: scan_mantissa_suffix scan_exponent_suffix)

lemma strtod_unsigned_suffix:
  assumes "strtod_unsigned neg s = Some (v, r)"
  shows "\<exists>u. s = u @ r"
proof -
  consider "r = drop 8 s" | "r = drop 3 s" | c d t where "drop 3 s = c # t" "d # r = dropWhile c_isalnum_us t"
    | "strtod_hex neg (drop 2 s) = Some (v, r)" | "strtod_dec neg s = Some (v, r)"
    using assms by (auto simp: strtod_unsigned_def split: if_splits list.splits)
  then show ?thesis
  proof cases
    case (3 c d t)
    have "\<exists>u. s = u @ c # t" using suffix_drop [of s 3] 3(1) by simp
    moreover have "\<exists>u. c # t = u @ d # r" using suffix_dropWhile [of t c_isalnum_us] 3(2)
      by (metis append_Cons)
    ultimately have "\<exists>u. s = u @ d # r" by (rule suffix_trans)
    then show ?thesis by (metis append.assoc append_Cons append_Nil)
  next
    case 4
    then show ?thesis using suffix_trans [OF suffix_drop strtod_digits_suffix(1)] by blast
  next
    case 5
    then show ?thesis by (rule strtod_digits_suffix(2))
  qed (auto intro: suffix_drop)
qed

lemma strtod_suffix: "strtod s = (v, r) \<Longrightarrow> \<exists>u. s = u @ r"
proof -
  assume a: "strtod s = (v, r)"
  let ?t = "skip_space s"
  define u where "u = (case ?t of c # r \<Rightarrow> if c = CHR ''-'' \<or> c = CHR ''+'' then r else ?t | [] \<Rightarrow> ?t)"
  have "\<exists>w. ?t = w @ u" unfolding u_def
    by (auto split: list.split intro: exI [of _ "[_]"] exI [of _ "[]"])
  moreover have "\<exists>w. s = w @ ?t" unfolding skip_space_def by (rule suffix_dropWhile)
  ultimately have su: "\<exists>w. s = w @ u" by (metis suffix_trans)
  from a consider "r = s" | neg x where "strtod_unsigned neg u = Some (x, r)"
    by (auto simp: strtod_def strtod_fp_def Let_def u_def split: prod.splits option.splits)
  then show ?thesis
  proof cases
    case (2 neg x)
    show ?thesis by (rule suffix_trans [OF su strtod_unsigned_suffix [OF 2]])
  qed simp
qed

lemma strtod_shorter: "strtod p = (v, e) \<Longrightarrow> e \<noteq> p \<Longrightarrow> length e < length p"
  using strtod_suffix by fastforce

lemma length_skip_space: "length (skip_space s) \<le> length s"
  by (simp add: skip_space_def length_dropWhile_le)

section \<open>\<open>maludb_vector_in\<close>\<close>

text \<open>
  The parse loop keeps the growing output array as the pair of its capacity and its elements
  (\<open>count\<close> is their number). The error detail line of the first error is not modelled.
\<close>

definition text_error :: "string \<Rightarrow> 'a result" where
  "text_error m = Inl (Ereport ERRCODE_INVALID_TEXT_REPRESENTATION m)"

definition squote :: "string \<Rightarrow> string" where
  "squote s = CHR 0x27 # s @ [CHR 0x27]"

function vector_in_loop :: "nat \<Rightarrow> f32 list \<Rightarrow> string \<Rightarrow> (nat \<times> f32 list \<times> string) result" where
  "vector_in_loop cap out p =
     (if p = [] \<or> hd p = CHR '']'' then Inr (cap, out, p)
      else
        let v = fst (strtod p); e = snd (strtod p) in
        if e = p then text_error (''malu_vector: invalid float starting at: \"'' @ p @ ''\"'')
        else
          let cap' = (if length out \<ge> cap then cap * 2 else cap);
              out' = out @ [f32_of_f64 v];
              q = skip_space e
          in if q \<noteq> [] \<and> hd q = CHR '','' then vector_in_loop cap' out' (skip_space (tl q))
             else if q \<noteq> [] \<and> hd q \<noteq> CHR '']''
               then text_error (''malu_vector: expected '' @ squote '','' @ '' or '' @ squote '']'' @ '' at: \"'' @ q @ ''\"'')
             else vector_in_loop cap' out' q)"
  by pat_completeness auto
termination
proof (relation "measure (\<lambda>(cap, out, p). length p)", goal_cases)
  case 1
  show ?case by simp
next
  case (2 cap out p v e cap' out' q)
  then have "length e < length p" by (metis prod.collapse strtod_shorter)
  moreover have "length (skip_space (tl q)) \<le> length q"
    using length_skip_space [of "tl q"] by simp
  moreover have "length q \<le> length e" using length_skip_space [of e] 2 by simp
  ultimately show ?case by simp
next
  case (3 cap out p v e cap' out' q)
  then have "length e < length p" by (metis prod.collapse strtod_shorter)
  then show ?case using length_skip_space [of e] 3 by simp
qed

declare vector_in_loop.simps [simp del]

definition maludb_vector_in :: "string \<Rightarrow> bytes result" where
  "maludb_vector_in s =
     (let p = skip_space s in
      if p = [] \<or> hd p \<noteq> CHR ''['' then text_error (''malu_vector input must start with '' @ squote ''['')
      else andthen (vector_in_loop 16 [] (skip_space (tl p)))
        (\<lambda>(cap, out, q).
           if q = [] \<or> hd q \<noteq> CHR '']'' then text_error (''malu_vector input must end with '' @ squote '']'')
           else Inr (vec_bytes out)))"

section \<open>\<open>maludb_vector_out\<close>, \<open>maludb_vector_recv\<close>, \<open>maludb_vector_send\<close>\<close>

definition MALU_VEC_BYTES_PER_ELEMENT :: nat where
  "MALU_VEC_BYTES_PER_ELEMENT = 4"

definition binary_error :: "string \<Rightarrow> nat \<Rightarrow> string \<Rightarrow> 'a result" where
  "binary_error pre len mid = Inl (Ereport ERRCODE_INVALID_BINARY_REPRESENTATION
     (pre @ fmt_nat len @ mid @ fmt_nat MALU_VEC_BYTES_PER_ELEMENT))"

fun vector_out_elems :: "(f32 \<Rightarrow> string) \<Rightarrow> f32 list \<Rightarrow> string" where
  "vector_out_elems shortest [] = []"
| "vector_out_elems shortest [x] = shortest x"
| "vector_out_elems shortest (x # y # xs) = shortest x @ '', '' @ vector_out_elems shortest (y # xs)"

definition maludb_vector_out :: "(f32 \<Rightarrow> string) \<Rightarrow> bytes \<Rightarrow> string result" where
  "maludb_vector_out shortest vb =
     (let len = length vb in
      if len mod MALU_VEC_BYTES_PER_ELEMENT \<noteq> 0
      then binary_error ''malu_vector storage length '' len '' is not a multiple of ''
      else Inr (''['' @ vector_out_elems shortest (vec_floats vb) @ '']''))"

definition maludb_vector_recv :: "pqformat \<Rightarrow> StringInfo \<Rightarrow> (bytes \<times> StringInfo) result" where
  "maludb_vector_recv pq buf =
     (let nbytes = length (si_data buf) - si_cursor buf in
      if nbytes mod MALU_VEC_BYTES_PER_ELEMENT \<noteq> 0
      then binary_error ''malu_vector wire payload '' nbytes '' not multiple of ''
      else pq_copymsgbytes pq buf nbytes)"

definition maludb_vector_send :: "pqformat \<Rightarrow> bytes \<Rightarrow> bytes" where
  "maludb_vector_send pq vb = pq_sendbytes pq [] vb"

section \<open>Correctness of the input and output functions\<close>

text \<open>Every store of the parse loop is inside the allocation.\<close>

lemma vector_in_loop_capacity:
  "vector_in_loop cap out p = Inr (cap', out', q) \<Longrightarrow> 0 < cap \<Longrightarrow> length out \<le> cap \<Longrightarrow>
   length out' \<le> cap'"
proof (induction cap out p rule: vector_in_loop.induct)
  case (1 cap out p)
  let ?v = "fst (strtod p)" let ?e = "snd (strtod p)"
  let ?cap = "if length out \<ge> cap then cap * 2 else cap" let ?out = "out @ [f32_of_f64 ?v]"
  have grown: "0 < ?cap" "length ?out \<le> ?cap" using 1(4,5) by auto
  show ?case
  proof (cases "p = [] \<or> hd p = CHR '']''")
    case True
    with 1(3,5) show ?thesis by (simp add: vector_in_loop.simps [of cap out p])
  next
    case more: False
    with 1(3) have e: "?e \<noteq> p"
      by (auto simp: vector_in_loop.simps [of cap out p] text_error_def)
    have eq: "vector_in_loop cap out p =
      (if skip_space ?e \<noteq> [] \<and> hd (skip_space ?e) = CHR '',''
       then vector_in_loop ?cap ?out (skip_space (tl (skip_space ?e)))
       else if skip_space ?e \<noteq> [] \<and> hd (skip_space ?e) \<noteq> CHR '']''
       then text_error (''malu_vector: expected '' @ squote '','' @ '' or '' @ squote '']'' @ '' at: \"'' @ skip_space ?e @ ''\"'')
       else vector_in_loop ?cap ?out (skip_space ?e))"
      by (subst vector_in_loop.simps) (simp only: more e if_False Let_def)
    from 1(3) eq consider
        "skip_space ?e \<noteq> [] \<and> hd (skip_space ?e) = CHR '',''"
        "vector_in_loop ?cap ?out (skip_space (tl (skip_space ?e))) = Inr (cap', out', q)"
      | "\<not> (skip_space ?e \<noteq> [] \<and> hd (skip_space ?e) = CHR '','')"
        "\<not> (skip_space ?e \<noteq> [] \<and> hd (skip_space ?e) \<noteq> CHR '']'')"
        "vector_in_loop ?cap ?out (skip_space ?e) = Inr (cap', out', q)"
      unfolding text_error_def by (simp split: if_split_asm)
    then show ?thesis
    proof cases
      case a: 1
      from 1(1) [OF more refl refl e refl refl refl a(1,2) grown] show ?thesis .
    next
      case b: 2
      from 1(2) [OF more refl refl e refl refl refl b(1,2,3) grown] show ?thesis .
    qed
  qed
qed

lemma vector_in_loop_bracket: "vector_in_loop cap out (CHR '']'' # r) = Inr (cap, out, CHR '']'' # r)"
  by (simp add: vector_in_loop.simps)

text \<open>One element of well-formed input, by the separator that follows it.\<close>

lemma vector_in_loop_step:
  assumes "p \<noteq> []" "hd p \<noteq> CHR '']''" "snd (strtod p) = c # r" "c # r \<noteq> p" "\<not> c_isspace c"
  shows "c = CHR '','' \<Longrightarrow> vector_in_loop cap out p =
      vector_in_loop (if length out \<ge> cap then cap * 2 else cap)
        (out @ [f32_of_f64 (fst (strtod p))]) (skip_space r)"
    and "c = CHR '']'' \<Longrightarrow> vector_in_loop cap out p =
      Inr (if length out \<ge> cap then cap * 2 else cap, out @ [f32_of_f64 (fst (strtod p))], c # r)"
proof -
  have q: "\<not> c_isspace d \<Longrightarrow> skip_space (d # t) = d # t" for d t by (simp add: skip_space_def)
  show "c = CHR '','' \<Longrightarrow> vector_in_loop cap out p =
      vector_in_loop (if length out \<ge> cap then cap * 2 else cap)
        (out @ [f32_of_f64 (fst (strtod p))]) (skip_space r)"
    using assms by (simp add: vector_in_loop.simps [of cap out p] q Let_def)
  show "c = CHR '']'' \<Longrightarrow> vector_in_loop cap out p =
      Inr (if length out \<ge> cap then cap * 2 else cap, out @ [f32_of_f64 (fst (strtod p))], c # r)"
    using assms by (simp add: vector_in_loop.simps [of cap out p] q Let_def vector_in_loop_bracket)
qed

text \<open>
  What the writer needs of \<open>float_to_shortest_decimal_bufn\<close> at one element: the text is not empty,
  and \<open>strtod\<close> stops at the separator that follows and narrows to the same single.
\<close>

definition float_reads_back :: "(f32 \<Rightarrow> string) \<Rightarrow> f32 \<Rightarrow> bool" where
  "float_reads_back shortest f \<longleftrightarrow>
     (shortest f \<noteq> [] \<and> \<not> c_isspace (hd (shortest f)) \<and> hd (shortest f) \<noteq> CHR '']'') \<and>
     (\<forall>c r. c \<in> {CHR '','', CHR '']''} \<longrightarrow> snd (strtod (shortest f @ c # r)) = c # r
        \<and> f32_of_f64 (fst (strtod (shortest f @ c # r))) = f)"

lemma float_reads_backD:
  assumes "float_reads_back shortest f" and "c \<in> {CHR '','', CHR '']''}"
  shows "shortest f @ c # r \<noteq> []" "hd (shortest f @ c # r) \<noteq> CHR '']''"
    "snd (strtod (shortest f @ c # r)) = c # r" "c # r \<noteq> shortest f @ c # r" "\<not> c_isspace c"
    "f32_of_f64 (fst (strtod (shortest f @ c # r))) = f" "skip_space (shortest f @ t) = shortest f @ t"
proof -
  from assms(1) have ne: "shortest f \<noteq> []" and sp: "\<not> c_isspace (hd (shortest f))"
    and br: "hd (shortest f) \<noteq> CHR '']''" by (simp_all add: float_reads_back_def)
  from ne show "shortest f @ c # r \<noteq> []" "c # r \<noteq> shortest f @ c # r" by simp_all
  from ne br show "hd (shortest f @ c # r) \<noteq> CHR '']''" by simp
  from ne sp show "skip_space (shortest f @ t) = shortest f @ t"
    by (cases "shortest f") (simp_all add: skip_space_def)
  from assms show "snd (strtod (shortest f @ c # r)) = c # r"
    "f32_of_f64 (fst (strtod (shortest f @ c # r))) = f"
    unfolding float_reads_back_def by blast+
  from assms(2) show "\<not> c_isspace c" by (auto simp: c_isspace_def)
qed

lemma vector_out_elems_skip:
  "float_reads_back shortest x \<Longrightarrow>
   skip_space (CHR '' '' # vector_out_elems shortest (x # xs) @ t) = vector_out_elems shortest (x # xs) @ t"
proof -
  assume x: "float_reads_back shortest x"
  have "skip_space (CHR '' '' # u) = skip_space u" for u
    by (simp add: skip_space_def c_isspace_def)
  moreover have "\<exists>u. vector_out_elems shortest (x # xs) @ t = shortest x @ u" by (cases xs) auto
  ultimately show ?thesis using float_reads_backD(7) [OF x, of "CHR '',''"] by (auto simp del: vector_out_elems.simps)
qed

lemma vector_in_loop_out_elems:
  assumes "\<forall>f \<in> set vs. float_reads_back shortest f"
  shows "\<exists>cap'. vector_in_loop cap out (vector_out_elems shortest vs @ '']'') = Inr (cap', out @ vs, '']'')"
  using assms
proof (induction shortest vs arbitrary: cap out rule: vector_out_elems.induct)
  case (1 shortest)
  then show ?case by (simp add: vector_in_loop_bracket)
next
  case (2 shortest x)
  then have x: "float_reads_back shortest x" by simp
  note d = float_reads_backD(1-4,6) [OF x, of "CHR '']''" "[]", simplified]
    float_reads_backD(5) [OF x, of "CHR '']''", simplified]
  from d vector_in_loop_step(2) [of "shortest x @ '']''" "CHR '']''" "[]" cap out]
  show ?case by simp
next
  case (3 shortest x y xs)
  then have x: "float_reads_back shortest x" and y: "float_reads_back shortest y" by simp_all
  let ?t = "vector_out_elems shortest (y # xs) @ '']''"
  note d = float_reads_backD(1-4,6) [OF x, of "CHR '',''" "CHR '' '' # ?t", simplified]
    float_reads_backD(5) [OF x, of "CHR '',''", simplified]
  from d vector_in_loop_step(1) [of "shortest x @ '', '' @ ?t" "CHR '',''" "CHR '' '' # ?t" cap out]
  have "vector_in_loop cap out (shortest x @ '', '' @ ?t) =
      vector_in_loop (if length out \<ge> cap then cap * 2 else cap) (out @ [x]) (skip_space (CHR '' '' # ?t))"
    by simp
  also have "skip_space (CHR '' '' # ?t) = ?t" by (rule vector_out_elems_skip [OF y])
  finally have "vector_in_loop cap out (shortest x @ '', '' @ ?t) =
      vector_in_loop (if length out \<ge> cap then cap * 2 else cap) (out @ [x]) ?t" .
  moreover obtain cap' where "vector_in_loop (if length out \<ge> cap then cap * 2 else cap) (out @ [x]) ?t
      = Inr (cap', (out @ [x]) @ y # xs, '']'')"
    using 3 by (metis list.set_intros(2))
  ultimately show ?case by simp
qed

lemma in_of_out:
  assumes "\<forall>f \<in> set vs. float_reads_back shortest f"
  shows "maludb_vector_in (''['' @ vector_out_elems shortest vs @ '']'') = Inr (vec_bytes vs)"
proof -
  have b: "skip_space (CHR ''['' # u) = CHR ''['' # u" for u
    by (simp add: skip_space_def c_isspace_def)
  have "skip_space (vector_out_elems shortest vs @ '']'') = vector_out_elems shortest vs @ '']''"
  proof (cases vs)
    case Nil
    then show ?thesis by (simp add: skip_space_def c_isspace_def)
  next
    case (Cons x xs)
    with assms vector_out_elems_skip [of shortest x xs "'']''"] show ?thesis
      by (simp add: skip_space_def c_isspace_def)
  qed
  with b vector_in_loop_out_elems [OF assms, of 16 "[]"] show ?thesis
    by (auto simp: maludb_vector_in_def)
qed

text \<open>
  C12. Reading back the text form gives the stored bytes again: for a well-formed payload whose
  elements print as decimals that \<open>strtod\<close> and the narrowing to \<open>float\<close> take to the same element,
  \<open>maludb_vector_in\<close> after \<open>maludb_vector_out\<close> is the identity, at any dimension.
\<close>

theorem vector_text_roundtrip:
  assumes "length vb mod MALU_VEC_BYTES_PER_ELEMENT = 0"
    and "\<forall>f \<in> set (vec_floats vb). float_reads_back shortest f"
  shows "andthen (maludb_vector_out shortest vb) maludb_vector_in = Inr vb"
  using assms in_of_out [OF assms(2)]
  by (simp add: maludb_vector_out_def MALU_VEC_BYTES_PER_ELEMENT_def vec_bytes_vec_floats)

definition shortest_sample :: "f32 \<Rightarrow> string" where
  "shortest_sample f = (if f = 0x3F800000 then ''1'' else ''-2.5e-07'')"

lemmas strtod_eval = strtod_def strtod_fp_def skip_space_def strtod_unsigned_def strtod_dec_def
  scan_mantissa_def scan_exponent_def c_isspace_def c_isdigit_def c_tolower_def digits_value_def
  digit_value_def

lemma strtod_sample_texts:
  assumes "c \<in> {CHR '','', CHR '']''}"
  shows "strtod (''1'' @ c # r) = (f64_of_fp (fp_decimal False 1 0), c # r)"
    and "strtod (''-2.5e-07'' @ c # r) = (f64_of_fp (fp_decimal True 25 (- 8)), c # r)"
  using assms by (auto simp: strtod_eval)

lemma shortest_sample_reads_back:
  "f \<in> {0x3F800000, 0xB48637BD} \<Longrightarrow> float_reads_back shortest_sample f"
proof -
  have n: "f32_of_f64 (f64_of_fp (fp_decimal False 1 0)) = 0x3F800000"
    "f32_of_f64 (f64_of_fp (fp_decimal True 25 (- 8))) = 0xB48637BD" by code_simp+
  show "f \<in> {0x3F800000, 0xB48637BD} \<Longrightarrow> float_reads_back shortest_sample f"
    unfolding float_reads_back_def shortest_sample_def
    using n strtod_sample_texts by (auto simp: c_isspace_def)
qed

theorem vector_text_roundtrip_witness:
  "andthen (maludb_vector_out shortest_sample (vec_bytes [0x3F800000, 0xB48637BD])) maludb_vector_in
   = Inr (vec_bytes [0x3F800000, 0xB48637BD])"
  by (rule vector_text_roundtrip)
     (simp_all add: MALU_VEC_BYTES_PER_ELEMENT_def shortest_sample_reads_back del: vec_bytes.simps)

text \<open>
  The reader narrows twice, from the decimal to \<open>double\<close> and from \<open>double\<close> to \<open>float\<close>, and the
  two roundings do not compose: \<open>7.038531e-26\<close> is the shortest decimal of the single 0x15AE43FD
  (rounding the decimal straight to single gives that pattern), but \<open>maludb_vector_in\<close> stores
  0x15AE43FE. A dump and restore changes that element.
\<close>

lemma vector_in_double_rounding:
  "f32_of_fp (fst (strtod_fp ''7.038531e-26'')) = 0x15AE43FD \<and>
   maludb_vector_in ''[7.038531e-26]'' = Inr (vec_bytes [0x15AE43FE])"
proof
  show "f32_of_fp (fst (strtod_fp ''7.038531e-26'')) = 0x15AE43FD" by code_simp
  let ?p = "''7.038531e-26]''"
  have s: "snd (strtod ?p) = '']''" and f: "f32_of_f64 (fst (strtod ?p)) = 0x15AE43FE"
    by code_simp+
  have sp: "skip_space (''['' @ ?p) = ''['' @ ?p" "skip_space ?p = ?p" "\<not> c_isspace CHR '']''"
    by (simp_all add: skip_space_def c_isspace_def)
  have "vector_in_loop 16 [] ?p = Inr (16, [] @ [0x15AE43FE], '']'')"
    using vector_in_loop_step(2) [of ?p "CHR '']''" "[]" 16 "[]"] s f sp(3) by simp
  with sp show "maludb_vector_in ''[7.038531e-26]'' = Inr (vec_bytes [0x15AE43FE])"
    by (simp add: maludb_vector_in_def)
qed

text \<open>
  The binary wire format loses nothing: what \<open>maludb_vector_send\<close> writes, \<open>maludb_vector_recv\<close>
  reads back to the same payload, consuming the whole message, whenever the payload length is a
  multiple of the element size; any other length is refused.
\<close>

lemma vector_binary_roundtrip:
  assumes "pqformat_ok pq"
  shows "maludb_vector_recv pq \<lparr>si_data = maludb_vector_send pq vb, si_cursor = 0\<rparr> =
    (if length vb mod 4 = 0 then Inr (vb, \<lparr>si_data = vb, si_cursor = length vb\<rparr>)
     else Inl (Ereport ERRCODE_INVALID_BINARY_REPRESENTATION
       (''malu_vector wire payload '' @ fmt_nat (length vb) @ '' not multiple of 4'')))"
proof -
  have send: "maludb_vector_send pq vb = vb"
    using assms by (simp add: maludb_vector_send_def pqformat_ok_def)
  let ?b = "\<lparr>si_data = vb, si_cursor = 0\<rparr>"
  have "si_rest ?b = vb @ []" by (simp add: si_rest_def)
  then have "pq_copymsgbytes pq ?b (length vb) = Inr (vb, si_advance ?b (length vb))"
    using assms unfolding pqformat_ok_def by blast
  moreover have "fmt_nat 4 = ''4''" by code_simp
  ultimately show ?thesis
    by (simp add: send maludb_vector_recv_def MALU_VEC_BYTES_PER_ELEMENT_def binary_error_def
        si_advance_def Let_def)
qed

lemma vector_binary_roundtrip_example:
  "pqformat_ok pq_network \<and>
   maludb_vector_recv pq_network \<lparr>si_data = maludb_vector_send pq_network [0, 0, 128, 63], si_cursor = 0\<rparr>
   = Inr ([0, 0, 128, 63], \<lparr>si_data = [0, 0, 128, 63], si_cursor = 4\<rparr>)"
  using pq_network_ok vector_binary_roundtrip [OF pq_network_ok, of "[0, 0, 128, 63]"] by simp

end
