(* ===== verification/Vector_Ops.thy ===== *)
theory Vector_Ops
  imports Vector_Type
begin

text \<open>
  The vector primitives of \<open>src/src/maludb_vector.c\<close>: decoding a payload, conversion from and to
  \<open>real[]\<close>, dimension, norm, dot product, squared L2 distance and normalisation. The three
  accumulation loops are the same ones the search, aggregate and graph code run, so they are
  defined once here over the decoded elements.
\<close>

section \<open>Decoding\<close>

definition MALUDB_VEC_BYTES_PER_ELEMENT :: nat where
  "MALUDB_VEC_BYTES_PER_ELEMENT = 4"

text \<open>The C function returns the dimension and a pointer; the list of elements carries both.\<close>

definition maludb_vec_decode :: "bytes \<Rightarrow> f32 list result" where
  "maludb_vec_decode vb =
     (let len = length vb in
      if len mod MALUDB_VEC_BYTES_PER_ELEMENT \<noteq> 0
      then Inl (Ereport ERRCODE_INVALID_BINARY_REPRESENTATION
        (''vector bytea length '' @ fmt_nat len @ '' is not a multiple of ''
           @ fmt_nat MALUDB_VEC_BYTES_PER_ELEMENT))
      else Inr (vec_floats vb))"

definition maludb_vec_check_dims :: "nat \<Rightarrow> nat \<Rightarrow> unit result" where
  "maludb_vec_check_dims dim_a dim_b =
     (if dim_a \<noteq> dim_b
      then Inl (Ereport ERRCODE_DATA_EXCEPTION
        (''vector dimension mismatch: '' @ fmt_nat dim_a @ '' vs '' @ fmt_nat dim_b))
      else Inr ())"

section \<open>Accumulation loops\<close>

fun dot_acc :: "f64 \<Rightarrow> f32 list \<Rightarrow> f32 list \<Rightarrow> f64" where
  "dot_acc acc (x # a) (y # b) = dot_acc (f64_add acc (f64_mul (f64_of_f32 x) (f64_of_f32 y))) a b"
| "dot_acc acc _ _ = acc"

definition dot_loop :: "f32 list \<Rightarrow> f32 list \<Rightarrow> f64" where
  "dot_loop a b = dot_acc f64_zero a b"

text \<open>\<open>d * d\<close> for a local \<open>double d\<close>.\<close>

definition f64_square :: "f64 \<Rightarrow> f64" where
  "f64_square d = f64_mul d d"

fun l2_acc :: "f64 \<Rightarrow> f32 list \<Rightarrow> f32 list \<Rightarrow> f64" where
  "l2_acc acc (x # a) (y # b) =
     l2_acc (f64_add acc (f64_square (f64_sub (f64_of_f32 x) (f64_of_f32 y)))) a b"
| "l2_acc acc _ _ = acc"

definition l2_loop :: "f32 list \<Rightarrow> f32 list \<Rightarrow> f64" where
  "l2_loop a b = l2_acc f64_zero a b"

primrec square_acc :: "f64 \<Rightarrow> f32 list \<Rightarrow> f64" where
  "square_acc acc [] = acc"
| "square_acc acc (x # v) = square_acc (f64_add acc (f64_square (f64_of_f32 x))) v"

definition square_loop :: "f32 list \<Rightarrow> f64" where
  "square_loop v = square_acc f64_zero v"

section \<open>Conversion from and to \<open>real[]\<close>\<close>

text \<open>
  What the code reads of a PostgreSQL array: its number of dimensions, whether it holds NULLs, its
  element type, and its stored elements (\<open>ArrayGetNItems\<close> of them).
\<close>

record ArrayType =
  arr_ndim :: nat
  arr_hasnull :: bool
  arr_elemtype :: nat
  arr_data :: "f32 list"

definition FLOAT4OID :: nat where
  "FLOAT4OID = 700"

definition maludb_vector_from_real_array :: "ArrayType \<Rightarrow> bytes result" where
  "maludb_vector_from_real_array arr =
     (if arr_ndim arr > 1
      then Inl (Ereport ERRCODE_INVALID_PARAMETER_VALUE
        ''vector_from_real_array: input must be a 1-D array'')
      else if arr_hasnull arr
      then Inl (Ereport ERRCODE_NULL_VALUE_NOT_ALLOWED
        ''vector_from_real_array: input array must not contain NULLs'')
      else if arr_elemtype arr \<noteq> FLOAT4OID
      then Inl (Ereport ERRCODE_DATATYPE_MISMATCH
        ''vector_from_real_array: input must be real[]'')
      else Inr (vec_bytes (arr_data arr)))"

text \<open>\<open>construct_array\<close> gives a one-dimensional array, or the empty array for no elements.\<close>

definition construct_array :: "f32 list \<Rightarrow> nat \<Rightarrow> ArrayType" where
  "construct_array elems elmtype =
     \<lparr>arr_ndim = (if elems = [] then 0 else 1), arr_hasnull = False, arr_elemtype = elmtype,
      arr_data = elems\<rparr>"

definition maludb_vector_to_real_array :: "bytes \<Rightarrow> ArrayType result" where
  "maludb_vector_to_real_array vb =
     andthen (maludb_vec_decode vb) (\<lambda>vec. Inr (construct_array vec FLOAT4OID))"

section \<open>The scalar functions\<close>

definition maludb_vector_dims :: "bytes \<Rightarrow> nat result" where
  "maludb_vector_dims vb = andthen (maludb_vec_decode vb) (\<lambda>vec. Inr (length vec))"

definition maludb_vector_norm :: "bytes \<Rightarrow> f64 result" where
  "maludb_vector_norm vb = andthen (maludb_vec_decode vb) (\<lambda>vec. Inr (f64_sqrt (square_loop vec)))"

definition maludb_vector_dot_product :: "bytes \<Rightarrow> bytes \<Rightarrow> f64 result" where
  "maludb_vector_dot_product va vb =
     andthen (maludb_vec_decode va) (\<lambda>a.
     andthen (maludb_vec_decode vb) (\<lambda>b.
     andthen (maludb_vec_check_dims (length a) (length b)) (\<lambda>_.
     Inr (dot_loop a b))))"

definition maludb_vector_l2_squared :: "bytes \<Rightarrow> bytes \<Rightarrow> f64 result" where
  "maludb_vector_l2_squared va vb =
     andthen (maludb_vec_decode va) (\<lambda>a.
     andthen (maludb_vec_decode vb) (\<lambda>b.
     andthen (maludb_vec_check_dims (length a) (length b)) (\<lambda>_.
     Inr (l2_loop a b))))"

definition maludb_vector_normalize :: "bytes \<Rightarrow> bytes result" where
  "maludb_vector_normalize vb =
     andthen (maludb_vec_decode vb) (\<lambda>vec.
       let norm = f64_sqrt (square_loop vec) in
       if f64_eq norm f64_zero then Inr (vec_bytes vec)
       else let inv = f64_div f64_one norm
            in Inr (vec_bytes (map (\<lambda>x. f32_of_f64 (f64_mul (f64_of_f32 x) inv)) vec)))"

section \<open>Laws of the loops\<close>

lemma f64_sign_zero [simp]: "\<not> f64_sign 0"
  by (simp add: f64_sign_def)

lemma f64_mag_zero [simp]: "f64_mag 0 = 0"
  by (simp add: f64_mag_def)

lemma l2_acc_nonneg: "\<not> f64_sign acc \<Longrightarrow> \<not> f64_sign (l2_acc acc a b)"
  by (induction acc a b rule: l2_acc.induct)
     (auto simp: f64_add_nonneg f64_square_def f64_square_nonneg)

lemma l2_loop_nonneg: "\<not> f64_sign (l2_loop a b)"
  by (simp add: l2_loop_def f64_zero_def l2_acc_nonneg)

lemma dot_loop_commute: "dot_loop a b = dot_loop b a"
proof -
  have "dot_acc acc a b = dot_acc acc b a" for acc
    by (induction a b arbitrary: acc rule: list_induct2') (simp_all add: f64_mul_commute)
  then show ?thesis by (simp add: dot_loop_def)
qed

lemma l2_loop_commute: "l2_loop a b = l2_loop b a"
proof -
  have sw: "f64_square (f64_sub x y) = f64_square (f64_sub y x)" for x y
    unfolding f64_square_def by (rule f64_sub_square_commute)
  have "l2_acc acc a b = l2_acc acc b a" for acc
    by (induction a b arbitrary: acc rule: list_induct2') (simp_all add: sw)
  then show ?thesis by (simp add: l2_loop_def)
qed

lemma l2_loop_self:
  "\<forall>x \<in> set a. f64_finite (f64_of_f32 x) \<Longrightarrow> l2_loop a a = 0"
proof -
  assume "\<forall>x \<in> set a. f64_finite (f64_of_f32 x)"
  then have "l2_acc 0 a a = 0" by (induction a) (auto simp: f64_sub_self f64_square_def)
  then show ?thesis by (simp add: l2_loop_def f64_zero_def)
qed

lemma square_loop_dot: "square_loop v = dot_loop v v"
proof -
  have "square_acc acc v = dot_acc acc v v" for acc
    by (induction v arbitrary: acc) (simp_all add: f64_square_def)
  then show ?thesis by (simp add: square_loop_def dot_loop_def)
qed

lemma vec_decode_eq_Inr: "maludb_vec_decode vb = Inr v \<longleftrightarrow> length vb mod 4 = 0 \<and> v = vec_floats vb"
  by (auto simp: maludb_vec_decode_def MALUDB_VEC_BYTES_PER_ELEMENT_def Let_def)

lemma vec_decode_vec_bytes [simp]: "maludb_vec_decode (vec_bytes v) = Inr v"
  by (simp add: vec_decode_eq_Inr)

lemma check_dims_eq_Inr: "maludb_vec_check_dims m n = Inr u \<longleftrightarrow> m = n"
  by (simp add: maludb_vec_check_dims_def)

section \<open>Correctness\<close>

text \<open>
  The squared L2 distance is a distance as far as rounded arithmetic allows: whenever it is
  defined it is symmetric bit for bit, never below zero, and zero from a vector of finite
  elements to itself.
\<close>

lemma l2_squared_distance_laws:
  assumes "maludb_vector_l2_squared va vb = Inr d"
  shows "maludb_vector_l2_squared vb va = Inr d \<and> \<not> f64_lt d f64_zero \<and>
    (va = vb \<longrightarrow> (\<forall>x \<in> set (vec_floats va). f64_finite (f64_of_f32 x)) \<longrightarrow> d = f64_zero)"
proof -
  from assms have eq: "length va mod 4 = 0" "length vb mod 4 = 0"
    "length (vec_floats va) = length (vec_floats vb)" "d = l2_loop (vec_floats va) (vec_floats vb)"
    by (auto simp: maludb_vector_l2_squared_def andthen_eq_Inr vec_decode_eq_Inr check_dims_eq_Inr)
  then have "maludb_vector_l2_squared vb va = Inr d"
    by (simp add: maludb_vector_l2_squared_def andthen_eq_Inr vec_decode_eq_Inr check_dims_eq_Inr
        l2_loop_commute)
  moreover have "\<not> f64_lt d f64_zero"
    using l2_loop_nonneg [of "vec_floats va" "vec_floats vb"] eq(4) f64_mag_bounds(1) [of d]
      f64_mag_zero by (simp add: f64_lt_def f64_key_def f64_zero_def)
  ultimately show ?thesis using eq(4) l2_loop_self by (simp add: f64_zero_def)
qed

lemma l2_squared_distance_laws_example:
  "maludb_vector_l2_squared (vec_bytes [0x3F800000, 0]) (vec_bytes [0, 0x40000000]) = Inr 0x4014000000000000
   \<and> maludb_vector_l2_squared (vec_bytes [0, 0x40000000]) (vec_bytes [0x3F800000, 0]) = Inr 0x4014000000000000"
proof -
  have "l2_loop [0x3F800000, 0] [0, 0x40000000] = 0x4014000000000000" by code_simp
  then have "maludb_vector_l2_squared (vec_bytes [0x3F800000, 0]) (vec_bytes [0, 0x40000000])
      = Inr 0x4014000000000000"
    by (simp add: maludb_vector_l2_squared_def maludb_vec_check_dims_def del: vec_bytes.simps)
  with l2_squared_distance_laws [OF this] show ?thesis by blast
qed

text \<open>
  The dot product does not depend on the order of its arguments, and the norm is the square
  root of the dot product of a vector with itself, on every payload: the errors agree too.
\<close>

lemma dot_product_and_norm:
  "(maludb_vector_dot_product va vb = Inr d \<longleftrightarrow> maludb_vector_dot_product vb va = Inr d) \<and>
   maludb_vector_norm va = andthen (maludb_vector_dot_product va va) (\<lambda>x. Inr (f64_sqrt x))"
proof
  show "maludb_vector_dot_product va vb = Inr d \<longleftrightarrow> maludb_vector_dot_product vb va = Inr d"
    using dot_loop_commute [of "vec_floats va" "vec_floats vb"]
    by (auto simp: maludb_vector_dot_product_def andthen_eq_Inr vec_decode_eq_Inr check_dims_eq_Inr)
  show "maludb_vector_norm va = andthen (maludb_vector_dot_product va va) (\<lambda>x. Inr (f64_sqrt x))"
    by (cases "maludb_vec_decode va")
       (simp_all add: maludb_vector_norm_def maludb_vector_dot_product_def maludb_vec_check_dims_def
         square_loop_dot)
qed

text \<open>
  Conversion to \<open>real[]\<close> and back: a payload converts to an array exactly when its length is a
  multiple of four, converting that array gives the payload again, and a one-dimensional
  \<open>real[]\<close> without NULLs survives the trip through a payload.
\<close>

lemma real_array_roundtrip:
  "(length vb mod 4 = 0 \<longleftrightarrow> (\<exists>arr. maludb_vector_to_real_array vb = Inr arr)) \<and>
   (length vb mod 4 = 0 \<longrightarrow>
      andthen (maludb_vector_to_real_array vb) maludb_vector_from_real_array = Inr vb) \<and>
   andthen (maludb_vector_from_real_array (construct_array v FLOAT4OID)) maludb_vector_to_real_array
     = Inr (construct_array v FLOAT4OID)"
  by (auto simp: maludb_vector_to_real_array_def maludb_vector_from_real_array_def construct_array_def
      maludb_vec_decode_def MALUDB_VEC_BYTES_PER_ELEMENT_def Let_def vec_bytes_vec_floats)

lemma real_array_roundtrip_example:
  "andthen (maludb_vector_to_real_array [0, 0, 128, 63]) maludb_vector_from_real_array
   = Inr [0, 0, 128, 63]"
  using real_array_roundtrip [of "[0, 0, 128, 63]" "[]"] by simp

text \<open>
  Normalisation keeps the dimension, and returns a vector whose norm compares equal to zero
  unchanged (no division by zero).
\<close>

lemma normalize_shape:
  assumes "maludb_vector_normalize vb = Inr out"
  shows "maludb_vector_dims out = maludb_vector_dims vb \<and>
    (maludb_vector_norm vb = Inr n \<longrightarrow> f64_eq n f64_zero \<longrightarrow> out = vb)"
proof (cases "maludb_vec_decode vb")
  case (Inl e)
  with assms show ?thesis by (simp add: maludb_vector_normalize_def)
next
  case (Inr v)
  then have "vec_bytes v = vb" by (simp add: vec_decode_eq_Inr vec_bytes_vec_floats)
  with Inr assms show ?thesis
    by (auto simp: maludb_vector_normalize_def maludb_vector_dims_def maludb_vector_norm_def Let_def
        split: if_splits)
qed

lemma normalize_shape_example:
  "maludb_vector_normalize (vec_bytes [0x40400000, 0x40800000]) = Inr (vec_bytes [0x3F19999A, 0x3F4CCCCD])
   \<and> maludb_vector_dims (vec_bytes [0x3F19999A, 0x3F4CCCCD]) = maludb_vector_dims (vec_bytes [0x40400000, 0x40800000])"
proof -
  let ?v = "[0x40400000, 0x40800000]"
  have n: "f64_sqrt (square_loop ?v) = 0x4014000000000000" by code_simp
  have e: "\<not> f64_eq 0x4014000000000000 f64_zero" by code_simp
  have m: "map (\<lambda>x. f32_of_f64 (f64_mul (f64_of_f32 x) (f64_div f64_one 0x4014000000000000))) ?v
      = [0x3F19999A, 0x3F4CCCCD]" by code_simp
  have "maludb_vector_normalize (vec_bytes ?v) = Inr (vec_bytes [0x3F19999A, 0x3F4CCCCD])"
    unfolding maludb_vector_normalize_def vec_decode_vec_bytes andthen_Inr n Let_def m
    using e by simp
  with normalize_shape [OF this] show ?thesis by blast
qed

end
