(* ===== verification/Array_Heap.thy ===== *)
theory Array_Heap
  imports Prelude
begin

text \<open>
  The zero-indexed binary heaps of the extension. The same two loops occur four times: as
  \<open>sift_up\<close> and \<open>sift_down\<close> in \<open>src/src/maludb_search.c\<close> and \<open>src/src/maludb_topk.c\<close>, and written
  out inside \<open>minheap_push\<close>, \<open>minheap_pop\<close> and \<open>maxheap_push\<close> of \<open>src/src/maludb_ann.c\<close>. They
  differ only in the comparison, which is an argument here.

  A heap is the list of its live entries, so the C count is the list's length.

  The locale \<open>keyed_order\<close> is what the heaps need of the comparison: on the admissible entries
  it is the strict order of a key in a linear order. Everything about the loops, and about the
  bounded heap that keeps the \<open>cap\<close> smallest entries offered to it, is proved there once.
\<close>

section \<open>The loops\<close>

definition heap_swap :: "'a list \<Rightarrow> nat \<Rightarrow> nat \<Rightarrow> 'a list" where
  "heap_swap h i j = h[i := h ! j, j := h ! i]"

definition heap_parent :: "nat \<Rightarrow> nat" where
  "heap_parent i = (i - 1) div 2"

lemma heap_parent_less [simp, intro]: "0 < i \<Longrightarrow> heap_parent i < i"
  by (simp add: heap_parent_def)

lemma heap_parent_le [simp]: "heap_parent i \<le> i"
  by (simp add: heap_parent_def)

lemma heap_parent_less_bound [simp]: "i < n \<Longrightarrow> heap_parent i < n"
  by (rule le_less_trans [OF heap_parent_le])

lemma heap_parent_children: "0 < j \<Longrightarrow> heap_parent j = i \<longleftrightarrow> j = 2 * i + 1 \<or> j = 2 * i + 2"
  by (auto simp: heap_parent_def)

function sift_up_by :: "('a \<Rightarrow> 'a \<Rightarrow> bool) \<Rightarrow> 'a list \<Rightarrow> nat \<Rightarrow> 'a list" where
  "sift_up_by gt h i =
     (if 0 < i then
        let parent = heap_parent i
        in if gt (h ! i) (h ! parent) then sift_up_by gt (heap_swap h i parent) parent else h
      else h)"
  by pat_completeness auto
termination
  by (relation "measure (\<lambda>(gt, h, i). i)") auto

declare sift_up_by.simps [simp del]

text \<open>The child that \<open>sift_down\<close> descends to: \<open>i\<close> itself when neither child beats it.\<close>

definition sift_child :: "('a \<Rightarrow> 'a \<Rightarrow> bool) \<Rightarrow> 'a list \<Rightarrow> nat \<Rightarrow> nat \<Rightarrow> nat" where
  "sift_child gt h n i =
     (let l = 2 * i + 1; r = 2 * i + 2;
          m = (if l < n \<and> gt (h ! l) (h ! i) then l else i)
      in if r < n \<and> gt (h ! r) (h ! m) then r else m)"

lemma sift_child_range: "sift_child gt h n i \<noteq> i \<Longrightarrow> i < sift_child gt h n i \<and> sift_child gt h n i < n"
  by (auto simp: sift_child_def Let_def split: if_splits)

function sift_down_by :: "('a \<Rightarrow> 'a \<Rightarrow> bool) \<Rightarrow> 'a list \<Rightarrow> nat \<Rightarrow> nat \<Rightarrow> 'a list" where
  "sift_down_by gt h n i =
     (let m = sift_child gt h n i
      in if m = i then h else sift_down_by gt (heap_swap h i m) n m)"
  by pat_completeness auto
termination
  by (relation "measure (\<lambda>(gt, h, n, i). n - i)") (auto dest: sift_child_range intro: diff_less_mono2)

declare sift_down_by.simps [simp del]

text \<open>
  The bounded push shared by the three clients: append and sift up while there is room, otherwise
  replace the root by a strictly better entry and sift down.
\<close>

definition bounded_push :: "('a \<Rightarrow> 'a \<Rightarrow> bool) \<Rightarrow> nat \<Rightarrow> 'a list \<Rightarrow> 'a \<Rightarrow> 'a list" where
  "bounded_push gt cap h e =
     (if length h < cap then sift_up_by gt (h @ [e]) (length h)
      else if 0 < cap \<and> gt (h ! 0) e then sift_down_by gt (h[0 := e]) (length h) 0
      else h)"

section \<open>What holds for any comparison\<close>

lemma sift_up_0 [simp]: "sift_up_by gt h 0 = h"
  by (simp add: sift_up_by.simps)

lemma sift_up_stop:
  "\<not> gt (h ! i) (h ! (heap_parent i)) \<Longrightarrow> sift_up_by gt h i = h"
  by (simp add: sift_up_by.simps [of gt h i])

lemma sift_up_move:
  "0 < i \<Longrightarrow> gt (h ! i) (h ! (heap_parent i)) \<Longrightarrow>
   sift_up_by gt h i = sift_up_by gt (heap_swap h i (heap_parent i)) (heap_parent i)"
  by (simp add: sift_up_by.simps [of gt h i] Let_def)

lemma sift_down_stop: "sift_child gt h n i = i \<Longrightarrow> sift_down_by gt h n i = h"
  by (simp add: sift_down_by.simps [of gt h n i])

lemma sift_down_move:
  "sift_child gt h n i \<noteq> i \<Longrightarrow> sift_down_by gt h n i =
   sift_down_by gt (heap_swap h i (sift_child gt h n i)) n (sift_child gt h n i)"
  by (simp add: sift_down_by.simps [of gt h n i] Let_def)

lemma length_heap_swap [simp]: "length (heap_swap h i j) = length h"
  by (simp add: heap_swap_def)

lemma mset_heap_swap [simp]:
  "i < length h \<Longrightarrow> j < length h \<Longrightarrow> mset (heap_swap h i j) = mset h"
  by (simp add: heap_swap_def mset_swap)

lemma set_heap_swap [simp]:
  "i < length h \<Longrightarrow> j < length h \<Longrightarrow> set (heap_swap h i j) = set h"
  by (metis mset_heap_swap set_mset_mset)

lemma nth_heap_swap:
  "i < length h \<Longrightarrow> j < length h \<Longrightarrow> k < length h \<Longrightarrow>
   heap_swap h i j ! k = (if k = j then h ! i else if k = i then h ! j else h ! k)"
  by (simp add: heap_swap_def nth_list_update)

lemma mset_sift_up [simp]: "i < length h \<Longrightarrow> mset (sift_up_by gt h i) = mset h"
proof (induction gt h i rule: sift_up_by.induct)
  case (1 gt h i)
  then show ?case by (subst sift_up_by.simps) (simp add: Let_def)
qed

lemma mset_sift_down [simp]:
  "n \<le> length h \<Longrightarrow> i < length h \<Longrightarrow> mset (sift_down_by gt h n i) = mset h"
proof (induction gt h n i rule: sift_down_by.induct)
  case (1 gt h n i)
  show ?case
  proof (cases "sift_child gt h n i = i")
    case True
    then show ?thesis by (simp add: sift_down_stop)
  next
    case False
    from sift_child_range [OF False] "1.prems" have m: "sift_child gt h n i < length h" by simp
    with "1.IH" [OF refl False] "1.prems" False show ?thesis by (simp add: sift_down_move)
  qed
qed

lemma length_sift_up [simp]: "i < length h \<Longrightarrow> length (sift_up_by gt h i) = length h"
  by (metis mset_sift_up size_mset)

lemma length_sift_down [simp]:
  "n \<le> length h \<Longrightarrow> i < length h \<Longrightarrow> length (sift_down_by gt h n i) = length h"
  by (metis mset_sift_down size_mset)

lemma set_sift_down [simp]:
  "n \<le> length h \<Longrightarrow> i < length h \<Longrightarrow> set (sift_down_by gt h n i) = set h"
  by (metis mset_sift_down set_mset_mset)

lemma set_sift_up [simp]: "i < length h \<Longrightarrow> set (sift_up_by gt h i) = set h"
  by (metis mset_sift_up set_mset_mset)

lemma length_bounded_push:
  "length h \<le> cap \<Longrightarrow> length (bounded_push gt cap h e) = (if length h < cap then Suc (length h) else length h)"
  by (auto simp: bounded_push_def)

lemma length_bounded_push_le: "length h \<le> cap \<Longrightarrow> length (bounded_push gt cap h e) \<le> cap"
  by (simp add: length_bounded_push)

text \<open>
  The heap only compares entries: replacing them by images that compare the same way gives the
  image of the heap.
\<close>

lemma heap_swap_map:
  "i < length h \<Longrightarrow> j < length h \<Longrightarrow> heap_swap (map f h) i j = map f (heap_swap h i j)"
  by (simp add: heap_swap_def map_update)

lemma sift_up_map:
  assumes cmp: "\<And>x y. gt' (f x) (f y) = gt x y"
  shows "i < length h \<Longrightarrow> sift_up_by gt' (map f h) i = map f (sift_up_by gt h i)"
proof (induction i arbitrary: h rule: less_induct)
  case (less i)
  show ?case
  proof (cases "0 < i \<and> gt (h ! i) (h ! heap_parent i)")
    case True
    with less.prems have "sift_up_by gt' (map f h) i = sift_up_by gt' (map f (heap_swap h i (heap_parent i))) (heap_parent i)"
      by (subst sift_up_move) (simp_all add: cmp heap_swap_map)
    with True less show ?thesis by (simp add: sift_up_move)
  next
    case False
    with less.prems show ?thesis by (cases "i = 0") (simp_all add: sift_up_stop cmp)
  qed
qed

lemma sift_child_map:
  assumes "\<And>x y. gt' (f x) (f y) = gt x y" "i < length h"
  shows "sift_child gt' (map f h) (length h) i = sift_child gt h (length h) i"
  using assms(2) by (simp add: sift_child_def Let_def assms(1) cong: conj_cong)

lemma sift_down_map:
  assumes cmp: "\<And>x y. gt' (f x) (f y) = gt x y"
  shows "i < length h \<Longrightarrow> sift_down_by gt' (map f h) (length h) i = map f (sift_down_by gt h (length h) i)"
proof (induction "length h - i" arbitrary: h i rule: less_induct)
  case less
  let ?m = "sift_child gt h (length h) i"
  have m: "sift_child gt' (map f h) (length h) i = ?m" using sift_child_map [of gt' f gt i h] cmp less.prems by simp
  show ?case
  proof (cases "?m = i")
    case True
    then show ?thesis using m by (simp add: sift_down_stop)
  next
    case False
    note r = sift_child_range [OF False]
    have "sift_down_by gt' (map f h) (length h) i = sift_down_by gt' (map f (heap_swap h i ?m)) (length h) ?m"
      using False m r less.prems by (simp add: sift_down_move heap_swap_map)
    also have "\<dots> = map f (sift_down_by gt (heap_swap h i ?m) (length h) ?m)"
      using less.hyps [of "heap_swap h i ?m" ?m] r less.prems diff_less_mono2 [of i ?m "length h"] by simp
    finally show ?thesis using False by (simp add: sift_down_move)
  qed
qed

lemma bounded_push_map:
  assumes cmp: "\<And>x y. gt' (f x) (f y) = gt x y" and "length h \<le> cap"
  shows "bounded_push gt' cap (map f h) (f e) = map f (bounded_push gt cap h e)"
proof (cases "length h < cap")
  case True
  with sift_up_map [of gt' f gt "length h" "h @ [e]"] cmp show ?thesis by (simp add: bounded_push_def)
next
  case False
  with assms(2) have l: "length h = cap" by simp
  show ?thesis
  proof (cases "0 < cap")
    case True
    with sift_down_map [of gt' f gt 0 "h[0 := e]"] cmp l show ?thesis by (simp add: bounded_push_def map_update)
  qed (simp add: bounded_push_def l)
qed

lemma fold_bounded_push_map:
  assumes cmp: "\<And>x y. gt' (f x) (f y) = gt x y"
  shows "length h \<le> cap \<Longrightarrow>
    fold (\<lambda>e h. bounded_push gt' cap h e) (map f es) (map f h) = map f (fold (\<lambda>e h. bounded_push gt cap h e) es h)"
proof (induction es arbitrary: h)
  case (Cons e es)
  then show ?case using bounded_push_map [of gt' f gt h cap e] cmp
    by (simp add: length_bounded_push_le)
qed simp

lemma set_bounded_push: "length h \<le> cap \<Longrightarrow> set (bounded_push gt cap h e) \<subseteq> insert e (set h)"
proof -
  assume len: "length h \<le> cap"
  show ?thesis
  proof (cases "length h < cap")
    case True
    then show ?thesis by (auto simp: bounded_push_def)
  next
    case False
    show ?thesis
    proof (cases "0 < cap \<and> gt (h ! 0) e")
      case c: True
      with False len have h: "h \<noteq> []" by auto
      with False c set_update_subset_insert [of h 0 e] show ?thesis by (simp add: bounded_push_def)
    qed (use False in \<open>auto simp: bounded_push_def\<close>)
  qed
qed

lemma mset_bounded_push_grow:
  "length h < cap \<Longrightarrow> mset (bounded_push gt cap h e) = add_mset e (mset h)"
  by (simp add: bounded_push_def)

lemma mset_bounded_push_sub: "length h \<le> cap \<Longrightarrow> mset (bounded_push gt cap h e) \<subseteq># add_mset e (mset h)"
proof -
  assume len: "length h \<le> cap"
  consider "length h < cap" | "\<not> length h < cap" "0 < cap \<and> gt (h ! 0) e"
    | "\<not> length h < cap" "\<not> (0 < cap \<and> gt (h ! 0) e)" by blast
  then show ?thesis
  proof cases
    case 1
    then show ?thesis by (simp add: mset_bounded_push_grow)
  next
    case 2
    with len have "0 < length h" by auto
    then have "mset (h[0 := e]) = add_mset e (mset h - {#h ! 0#})" by (rule mset_update)
    with 2 \<open>0 < length h\<close> show ?thesis by (simp add: bounded_push_def)
  next
    case 3
    then have "bounded_push gt cap h e = h" unfolding bounded_push_def by presburger
    then show ?thesis by simp
  qed
qed

section \<open>Heaps ordered by a key\<close>

definition heap_ordered :: "('a \<Rightarrow> 'k::linorder) \<Rightarrow> 'a list \<Rightarrow> bool" where
  "heap_ordered key h \<longleftrightarrow>
     (\<forall>i < length h. 0 < i \<longrightarrow> key (h ! i) \<le> key (h ! (heap_parent i)))"

lemma heap_ordered_Nil [simp]: "heap_ordered key []"
  by (simp add: heap_ordered_def)

text \<open>The root carries the largest key.\<close>

lemma heap_ordered_root:
  assumes "heap_ordered key h" "i < length h"
  shows "key (h ! i) \<le> key (h ! 0)"
  using assms(2)
proof (induction i rule: less_induct)
  case (less i)
  show ?case
  proof (cases "i = 0")
    case False
    let ?p = "heap_parent i"
    from False have p: "?p < i" by simp
    with less.prems have "key (h ! ?p) \<le> key (h ! 0)" by (intro less.IH) auto
    moreover from assms(1) False less.prems have "key (h ! i) \<le> key (h ! ?p)"
      by (simp add: heap_ordered_def)
    ultimately show ?thesis by (rule order_trans [rotated])
  qed simp
qed

lemma heap_ordered_root_set:
  "heap_ordered key h \<Longrightarrow> x \<in> set h \<Longrightarrow> key x \<le> key (h ! 0)"
  by (metis heap_ordered_root in_set_conv_nth)

text \<open>Order everywhere except between \<open>i\<close> and its parent (the state of \<open>sift_up\<close>).\<close>

definition up_ordered :: "('a \<Rightarrow> 'k::linorder) \<Rightarrow> 'a list \<Rightarrow> nat \<Rightarrow> bool" where
  "up_ordered key h i \<longleftrightarrow>
     (\<forall>j < length h. 0 < j \<and> j \<noteq> i \<longrightarrow> key (h ! j) \<le> key (h ! (heap_parent j))) \<and>
     (\<forall>j < length h. 0 < j \<and> heap_parent j = i \<and> 0 < i \<longrightarrow> key (h ! j) \<le> key (h ! (heap_parent i)))"

text \<open>Order everywhere except between \<open>i\<close> and its children (the state of \<open>sift_down\<close>).\<close>

definition down_ordered :: "('a \<Rightarrow> 'k::linorder) \<Rightarrow> 'a list \<Rightarrow> nat \<Rightarrow> bool" where
  "down_ordered key h i \<longleftrightarrow>
     (\<forall>j < length h. 0 < j \<and> heap_parent j \<noteq> i \<longrightarrow> key (h ! j) \<le> key (h ! (heap_parent j))) \<and>
     (\<forall>j < length h. 0 < j \<and> heap_parent j = i \<and> 0 < i \<longrightarrow> key (h ! j) \<le> key (h ! (heap_parent i)))"

lemma up_ordered_append:
  assumes "heap_ordered key h"
  shows "up_ordered key (h @ [e]) (length h)"
proof -
  have "heap_parent j \<noteq> length h" if "j < Suc (length h)" "0 < j" for j
    using that heap_parent_less [of j] by linarith
  then show ?thesis using assms
    by (auto simp: up_ordered_def heap_ordered_def nth_append less_Suc_eq)
qed

lemma down_ordered_root: "heap_ordered key h \<Longrightarrow> down_ordered key (h[0 := e]) 0"
  by (auto simp: down_ordered_def heap_ordered_def nth_list_update)

text \<open>
  \<open>topk key cap h seen\<close>: after the entries \<open>seen\<close> were offered, the heap \<open>h\<close> holds \<open>cap\<close> of them (all
  of them while they are fewer), and every entry left out has a key no smaller than each kept one.
\<close>

definition topk :: "('a \<Rightarrow> 'k::linorder) \<Rightarrow> nat \<Rightarrow> 'a list \<Rightarrow> 'a multiset \<Rightarrow> bool" where
  "topk key cap h seen \<longleftrightarrow>
     heap_ordered key h \<and> mset h \<subseteq># seen \<and> length h = min cap (size seen) \<and>
     (\<forall>x \<in># seen - mset h. \<forall>y \<in> set h. key y \<le> key x)"

lemma topk_empty: "topk key cap [] {#}"
  by (simp add: topk_def)

lemma topk_length: "topk key cap h seen \<Longrightarrow> length h \<le> cap"
  by (simp add: topk_def)

text \<open>Read out in ascending order, such a heap is the front of the sorted keys of all entries seen.\<close>

lemma topk_sorted_keys:
  assumes "topk key cap h (mset cs)" and "mset ys = mset h" and "sorted (map key ys)"
  shows "map key ys = take cap (sort (map key cs))"
proof -
  obtain rest where rest: "mset rest = mset cs - mset h" using ex_mset by blast
  from assms(1) have sub: "mset h \<subseteq># mset cs" and len: "length h = min cap (length cs)"
    and out: "\<forall>x \<in> set rest. \<forall>y \<in> set h. key y \<le> key x"
    by (auto simp: topk_def simp flip: rest)
  have hy: "set h = set ys" "length h = length ys" using assms(2) by (metis mset_eq_setD, metis mset_eq_length)
  have "sort (map key cs) = map key ys @ sort (map key rest)"
  proof (rule properties_for_sort)
    have "mset cs = mset ys + mset rest" using sub rest assms(2) by simp
    then show "mset (map key ys @ sort (map key rest)) = mset (map key cs)" by simp
    show "sorted (map key ys @ sort (map key rest))"
      using assms(3) out hy(1) by (auto simp: sorted_append)
  qed
  moreover have "length rest = length cs - length h"
    by (metis rest size_Diff_submset size_mset sub)
  ultimately show ?thesis using len hy(2) by (cases "cap \<le> length cs") (auto simp: min_def)
qed

text \<open>Merging: entries already dropped from a full heap need not be offered to another one.\<close>

lemma topk_merge:
  assumes h2: "topk key cap h2 s2" and h: "topk key cap h (s1 + mset h2)"
  shows "topk key cap h (s1 + s2)"
proof -
  define d where "d = s1 + mset h2 - mset h"
  define d2 where "d2 = s2 - mset h2"
  from h have hp: "heap_ordered key h" and d: "s1 + mset h2 = mset h + d"
    and len: "length h = min cap (size s1 + length h2)"
    and out: "\<And>x y. x \<in># d \<Longrightarrow> y \<in> set h \<Longrightarrow> key y \<le> key x"
    unfolding topk_def d_def by simp_all
  from h2 have d2: "s2 = mset h2 + d2" and len2: "length h2 = min cap (size s2)"
    and out2: "\<And>x y. x \<in># d2 \<Longrightarrow> y \<in> set h2 \<Longrightarrow> key y \<le> key x"
    unfolding topk_def d2_def by simp_all
  have all: "s1 + s2 = mset h + (d + d2)" using d d2 by (metis add.assoc)
  have "key y \<le> key x" if x: "x \<in># d2" and y: "y \<in> set h" for x y
  proof (cases "\<exists>z \<in># d. z \<in> set h2")
    case True
    with out out2 x y show ?thesis by (meson order_trans)
  next
    case False
    have "count (mset h2) z \<le> count (mset h) z" for z
    proof (cases "z \<in> set h2")
      case True
      with False have "count d z = 0" by (meson count_inI)
      with arg_cong [OF d, of "\<lambda>m. count m z"] show ?thesis by simp
    next
      case False
      then have "z \<notin># mset h2" by simp
      then have "count (mset h2) z = 0" by (simp only: not_in_iff)
      then show ?thesis by linarith
    qed
    then have sub: "mset h2 \<subseteq># mset h" by (rule mset_subset_eqI)
    have "0 < size d2" using x by (metis size_empty neq0_conv size_eq_0_iff_empty empty_iff set_mset_empty)
    then have "length h2 = cap" using len2 d2 by auto
    then have "\<not> size (mset h2) < size (mset h)" using len by simp
    then have "mset h2 = mset h" using sub by (metis mset_subset_size subset_mset.le_imp_less_or_eq)
    with y have "y \<in> set h2" by (metis set_mset_mset)
    with out2 x show ?thesis by blast
  qed
  with out have "\<forall>x \<in># d + d2. \<forall>y \<in> set h. key y \<le> key x" by auto
  moreover have "length h = min cap (size (mset h + (d + d2)))"
    using len len2 unfolding all [symmetric] size_union by (auto simp: min_def)
  ultimately show ?thesis
    unfolding topk_def all using hp by (simp only: add_diff_cancel_left' mset_subset_eq_add_left simp_thms)
qed

locale keyed_order =
  fixes gt :: "'a \<Rightarrow> 'a \<Rightarrow> bool"
    and key :: "'a \<Rightarrow> 'k::linorder"
    and ok :: "'a \<Rightarrow> bool"
  assumes gt_iff: "ok x \<Longrightarrow> ok y \<Longrightarrow> gt x y \<longleftrightarrow> key y < key x"
begin

lemma up_ordered_step:
  assumes "0 < i" "i < length h" and up: "up_ordered key h i"
    and gt: "key (h ! (heap_parent i)) < key (h ! i)"
  shows "up_ordered key (heap_swap h i (heap_parent i)) (heap_parent i)"
proof -
  let ?p = "heap_parent i"
  let ?h = "heap_swap h i ?p"
  from assms(1,2) have p: "?p < i" "?p < length h" by auto
  have u1: "\<And>j. j < length h \<Longrightarrow> 0 < j \<Longrightarrow> j \<noteq> i \<Longrightarrow> key (h ! j) \<le> key (h ! (heap_parent j))"
    and u2: "\<And>j. j < length h \<Longrightarrow> 0 < j \<Longrightarrow> heap_parent j = i \<Longrightarrow> key (h ! j) \<le> key (h ! ?p)"
    using up assms(1) by (auto simp: up_ordered_def)
  have 1: "key (?h ! j) \<le> key (?h ! (heap_parent j))"
    if j: "j < length h" "0 < j" "j \<noteq> ?p" for j
  proof -
    have q: "heap_parent j < length h" using j by simp
    show ?thesis
    proof (cases "j = i")
      case True
      then show ?thesis using gt p j q assms(2) by (auto simp: nth_heap_swap)
    next
      case ji: False
      consider "heap_parent j = i" | "heap_parent j = ?p" | "heap_parent j \<noteq> i" "heap_parent j \<noteq> ?p"
        by blast
      then show ?thesis
      proof cases
        case 1
        then show ?thesis using u2 [OF j(1,2) 1] ji j p q assms(2) by (auto simp: nth_heap_swap)
      next
        case 2
        then show ?thesis using u1 [OF j(1,2) ji] gt ji j p q assms(2) by (auto simp: nth_heap_swap)
      next
        case 3
        then show ?thesis using u1 [OF j(1,2) ji] ji j p q assms(2) by (auto simp: nth_heap_swap)
      qed
    qed
  qed
  have 2: "key (?h ! j) \<le> key (?h ! (heap_parent ?p))"
    if j: "j < length h" "0 < j" "heap_parent j = ?p" "0 < ?p" for j
  proof -
    have q: "heap_parent ?p < length h" "heap_parent ?p \<noteq> ?p" "heap_parent ?p \<noteq> i" using j p heap_parent_less [OF j(4)] by linarith+
    have pp: "key (h ! ?p) \<le> key (h ! (heap_parent ?p))" using u1 [OF p(2) j(4)] p by simp
    have jp: "j \<noteq> ?p" using j heap_parent_less [of j] by linarith
    show ?thesis
    proof (cases "j = i")
      case True
      then show ?thesis using pp q p j assms(2) by (simp add: nth_heap_swap)
    next
      case False
      with u1 [OF j(1,2) False] j(3) pp have "key (h ! j) \<le> key (h ! (heap_parent ?p))" by simp
      then show ?thesis using False jp q p(2) j(1) assms(2) by (simp add: nth_heap_swap)
    qed
  qed
  show ?thesis unfolding up_ordered_def using 1 2 by auto
qed

lemma sift_up_heap:
  assumes "i < length h" "up_ordered key h i" "\<forall>x \<in> set h. ok x"
  shows "heap_ordered key (sift_up_by gt h i)"
  using assms
proof (induction i arbitrary: h rule: less_induct)
  case (less i)
  show ?case
  proof (cases "0 < i")
    case False
    with less.prems show ?thesis
      by (simp add: up_ordered_def heap_ordered_def)
  next
    case i: True
    let ?p = "heap_parent i"
    from i less.prems(1) have p: "?p < i" "?p < length h" by auto
    have gt: "gt (h ! i) (h ! ?p) \<longleftrightarrow> key (h ! ?p) < key (h ! i)"
      using less.prems p by (intro gt_iff) auto
    show ?thesis
    proof (cases "gt (h ! i) (h ! ?p)")
      case True
      then have "up_ordered key (heap_swap h i ?p) ?p"
        using i less.prems gt by (intro up_ordered_step) auto
      then have "heap_ordered key (sift_up_by gt (heap_swap h i ?p) ?p)"
        using less.prems p by (intro less.IH) auto
      with True i show ?thesis by (simp add: sift_up_move [of i gt h])
    next
      case False
      with gt have "key (h ! i) \<le> key (h ! ?p)" by simp
      with less.prems(2) have "heap_ordered key h"
        by (auto simp: up_ordered_def heap_ordered_def)
      with False show ?thesis by (simp add: sift_up_stop [of gt h i])
    qed
  qed
qed

lemma sift_child_max:
  assumes "i < length h" "\<forall>x \<in> set h. ok x"
  defines "m \<equiv> sift_child gt h (length h) i"
  shows "m < length h"
    and "m = i \<or> (heap_parent m = i \<and> 0 < m \<and> key (h ! i) < key (h ! m))"
    and "\<And>j. j < length h \<Longrightarrow> 0 < j \<Longrightarrow> heap_parent j = i \<Longrightarrow> key (h ! j) \<le> key (h ! m)"
proof -
  have g: "gt (h ! a) (h ! b) \<longleftrightarrow> key (h ! b) < key (h ! a)" if "a < length h" "b < length h" for a b
    using that assms(2) by (intro gt_iff) auto
  show "m < length h" using assms(1) by (auto simp: m_def sift_child_def Let_def)
  show "m = i \<or> (heap_parent m = i \<and> 0 < m \<and> key (h ! i) < key (h ! m))"
    using assms(1) by (auto simp: m_def sift_child_def Let_def g heap_parent_def)
  fix j assume j: "j < length h" "0 < j" "heap_parent j = i"
  then have "j = 2 * i + 1 \<or> j = 2 * i + 2" by (simp only: heap_parent_children)
  then show "key (h ! j) \<le> key (h ! m)"
    using j assms(1) by (auto simp: m_def sift_child_def Let_def g)
qed

lemma down_ordered_step:
  assumes i: "i < length h" and m: "m < length h" "heap_parent m = i" "0 < m"
    and down: "down_ordered key h i"
    and gt: "key (h ! i) < key (h ! m)"
    and max: "\<And>j. j < length h \<Longrightarrow> 0 < j \<Longrightarrow> heap_parent j = i \<Longrightarrow> key (h ! j) \<le> key (h ! m)"
  shows "down_ordered key (heap_swap h i m) m"
proof -
  let ?h = "heap_swap h i m"
  have im: "i < m" using m heap_parent_less [of m] by simp
  have d1: "\<And>j. j < length h \<Longrightarrow> 0 < j \<Longrightarrow> heap_parent j \<noteq> i \<Longrightarrow> key (h ! j) \<le> key (h ! (heap_parent j))"
    and d2: "\<And>j. j < length h \<Longrightarrow> 0 < j \<Longrightarrow> heap_parent j = i \<Longrightarrow> 0 < i \<Longrightarrow> key (h ! j) \<le> key (h ! (heap_parent i))"
    using down by (auto simp: down_ordered_def)
  have 1: "key (?h ! j) \<le> key (?h ! (heap_parent j))"
    if j: "j < length h" "0 < j" "heap_parent j \<noteq> m" for j
  proof -
    have q: "heap_parent j < length h" using j by simp
    consider "j = m" | "j = i" | "j \<noteq> m" "j \<noteq> i" "heap_parent j = i" | "j \<noteq> m" "j \<noteq> i" "heap_parent j \<noteq> i"
      by blast
    then show ?thesis
    proof cases
      case 1
      then show ?thesis using gt m im i by (auto simp: nth_heap_swap)
    next
      case 2
      with j(2) have "0 < i" by simp
      then show ?thesis using d2 [OF m(1,3,2)] 2 im q j i m(1) by (auto simp: nth_heap_swap)
    next
      case 3
      then show ?thesis using max [OF j(1,2)] im q j i m(1) by (auto simp: nth_heap_swap)
    next
      case 4
      then show ?thesis using d1 [OF j(1,2)] q j i m(1) by (auto simp: nth_heap_swap)
    qed
  qed
  have 2: "key (?h ! j) \<le> key (?h ! i)" if j: "j < length h" "0 < j" "heap_parent j = m" for j
  proof -
    have "j \<noteq> m" "j \<noteq> i" using j im heap_parent_less [of j] by linarith+
    then show ?thesis using d1 [OF j(1,2)] j im i m(1) by (auto simp: nth_heap_swap)
  qed
  show ?thesis unfolding down_ordered_def using 1 2 m(2) by auto
qed

lemma sift_down_heap:
  assumes "i < length h" "down_ordered key h i" "\<forall>x \<in> set h. ok x"
  shows "heap_ordered key (sift_down_by gt h (length h) i)"
  using assms
proof (induction "length h - i" arbitrary: h i rule: less_induct)
  case less
  let ?m = "sift_child gt h (length h) i"
  note c = sift_child_max [OF less.prems(1,3)]
  show ?case
  proof (cases "?m = i")
    case True
    with c(3) less.prems(2) have "heap_ordered key h"
      unfolding down_ordered_def heap_ordered_def by metis
    with True show ?thesis by (simp add: sift_down_stop)
  next
    case False
    with c(2) have m: "heap_parent ?m = i" "0 < ?m" "key (h ! i) < key (h ! ?m)" by auto
    have "down_ordered key (heap_swap h i ?m) ?m"
      using less.prems c(1,3) m by (intro down_ordered_step) auto
    moreover have "length h - ?m < length h - i" using c(1) m(1) heap_parent_less [OF m(2)] by linarith
    ultimately have "heap_ordered key (sift_down_by gt (heap_swap h i ?m) (length h) ?m)"
      using less.hyps [of "heap_swap h i ?m" ?m] less.prems c(1) by simp
    with False show ?thesis by (simp add: sift_down_move)
  qed
qed

text \<open>
  The bounded push keeps \<open>topk\<close>: offering \<open>e\<close> leaves the \<open>cap\<close> entries of smallest key among all
  that were offered.
\<close>

lemma bounded_push_topk:
  assumes topk: "topk key cap h seen" and ok: "\<forall>x \<in># seen. ok x" "ok e"
  shows "topk key cap (bounded_push gt cap h e) (add_mset e seen)"
proof -
  from topk have heap: "heap_ordered key h" and sub: "mset h \<subseteq># seen"
    and len: "length h = min cap (size seen)"
    and out: "\<And>x y. x \<in># seen - mset h \<Longrightarrow> y \<in> set h \<Longrightarrow> key y \<le> key x"
    by (auto simp: topk_def)
  have okh: "\<forall>x \<in> set h. ok x" using sub ok(1) by (metis mset_subset_eqD set_mset_mset)
  consider (grow) "length h < cap" | (evict) "\<not> length h < cap" "0 < cap" "gt (h ! 0) e"
    | (keep) "\<not> length h < cap" "0 < cap \<longrightarrow> \<not> gt (h ! 0) e" by blast
  then show ?thesis
  proof cases
    case grow
    with len have all: "mset h = seen"
      using sub by (metis min_less_iff_conj nat_neq_iff size_mset subset_mset.le_imp_less_or_eq
          mset_subset_size min_def)
    have "heap_ordered key (sift_up_by gt (h @ [e]) (length h))"
      using okh ok(2) up_ordered_append [OF heap] by (intro sift_up_heap) auto
    with grow all show ?thesis by (simp add: bounded_push_def topk_def flip: size_mset)
  next
    case evict
    then have h: "h \<noteq> []" using len by (cases h) auto
    let ?h = "h[0 := e]"
    have okr: "ok (h ! 0)" using okh h by simp
    have lt: "key e < key (h ! 0)" using evict(3) gt_iff [OF okr ok(2)] by simp
    have okh': "\<forall>x \<in> set ?h. ok x" using okh ok(2) set_update_subset_insert [of h 0 e] by auto
    have ms: "mset ?h = add_mset e (mset h - {#h ! 0#})"
      using h by (simp add: mset_update)
    have r: "h ! 0 \<in># mset h" using h by simp
    obtain rest where rest: "seen = mset h + rest" using sub by (metis mset_subset_eq_exists_conv)
    obtain H where H: "mset h = add_mset (h ! 0) H" using r by (metis mset_add)
    have diff: "add_mset e seen - mset ?h = add_mset (h ! 0) (seen - mset h)"
      unfolding ms by (simp add: rest H)
    have "heap_ordered key (sift_down_by gt ?h (length ?h) 0)"
      using h okh' down_ordered_root [OF heap] by (intro sift_down_heap) auto
    moreover have "mset ?h \<subseteq># add_mset e seen"
      unfolding ms by (simp add: rest H)
    moreover have "key y \<le> key x" if "x \<in># add_mset e seen - mset ?h" "y \<in> set ?h" for x y
    proof -
      from that(2) set_update_subset_insert [of h 0 e] have "y = e \<or> y \<in> set h" by blast
      then have y: "key y \<le> key (h ! 0)" using lt heap_ordered_root_set [OF heap] by auto
      from that(1) diff have "x = h ! 0 \<or> x \<in># seen - mset h" by auto
      moreover have "key (h ! 0) \<le> key x" if "x \<in># seen - mset h" using out [OF that] h by simp
      ultimately show ?thesis using y by auto
    qed
    ultimately show ?thesis using evict h len by (simp add: bounded_push_def topk_def)
  next
    case keep
    have le: "key (h ! 0) \<le> key e" if "0 < cap"
    proof -
      from that keep(1) len have h: "h \<noteq> []" by (cases h) auto
      with okh have "ok (h ! 0)" by simp
      from keep(2) that gt_iff [OF this ok(2)] show ?thesis by simp
    qed
    have "key y \<le> key x" if "x \<in># add_mset e seen - mset h" "y \<in> set h" for x y
    proof -
      from that(2) keep(1) len have "0 < cap" by (cases h) auto
      with le heap_ordered_root_set [OF heap that(2)] have ye: "key y \<le> key e" by simp
      from sub have "add_mset e seen - mset h = add_mset e (seen - mset h)"
        by (metis add_mset_add_single multiset_diff_union_assoc union_commute)
      with that(1) have "x = e \<or> x \<in># seen - mset h" by auto
      with ye out that(2) show ?thesis by auto
    qed
    with keep heap sub len show ?thesis
      by (auto simp: bounded_push_def topk_def intro: subset_mset.order_trans)
  qed
qed

lemma fold_bounded_push_topk:
  assumes "topk key cap h seen" and "\<forall>x \<in># seen. ok x" and "\<forall>x \<in> set xs. ok x"
  shows "topk key cap (fold (\<lambda>e h. bounded_push gt cap h e) xs h) (seen + mset xs)"
  using assms
proof (induction xs arbitrary: h seen)
  case Nil
  then show ?case by simp
next
  case (Cons x xs)
  have "topk key cap (bounded_push gt cap h x) (add_mset x seen)"
    using Cons.prems by (intro bounded_push_topk) auto
  then have "topk key cap (fold (\<lambda>e h. bounded_push gt cap h e) xs (bounded_push gt cap h x))
      (add_mset x seen + mset xs)"
    using Cons.prems by (intro Cons.IH) auto
  then show ?case by simp
qed

end

end
