(* ===== verification/C_Qsort.thy ===== *)
theory C_Qsort
  imports Ieee754
begin

text \<open>
  The C library's \<open>qsort\<close>. The order it gives to elements that compare equal, and its result when
  the comparison function is not a consistent order, are unspecified, so it is a parameter; what
  the callers may rely on is \<open>qsort_ok\<close>. The comparison function of \<open>src/src/maludb_search.c\<close> and
  \<open>src/src/maludb_topk.c\<close> (distance, then chunk id) is analysed here once for both.
\<close>

type_synonym 'a compar = "'a \<Rightarrow> 'a \<Rightarrow> int"

definition cmp_consistent :: "'a compar \<Rightarrow> 'a set \<Rightarrow> bool" where
  "cmp_consistent cmp S \<longleftrightarrow>
     (\<forall>x \<in> S. \<forall>y \<in> S. cmp x y \<le> 0 \<or> cmp y x \<le> 0) \<and>
     (\<forall>x \<in> S. \<forall>y \<in> S. \<forall>z \<in> S. cmp x y \<le> 0 \<longrightarrow> cmp y z \<le> 0 \<longrightarrow> cmp x z \<le> 0)"

definition qsort_ok :: "('a compar \<Rightarrow> 'a list \<Rightarrow> 'a list) \<Rightarrow> bool" where
  "qsort_ok qsort \<longleftrightarrow>
     (\<forall>cmp xs. mset (qsort cmp xs) = mset xs \<and>
        (cmp_consistent cmp (set xs) \<longrightarrow> sorted_wrt (\<lambda>x y. cmp x y \<le> 0) (qsort cmp xs)))"

section \<open>An implementation\<close>

fun insort_cmp :: "'a compar \<Rightarrow> 'a \<Rightarrow> 'a list \<Rightarrow> 'a list" where
  "insort_cmp cmp x [] = [x]"
| "insort_cmp cmp x (y # ys) = (if cmp x y \<le> 0 then x # y # ys else y # insort_cmp cmp x ys)"

definition insertion_qsort :: "'a compar \<Rightarrow> 'a list \<Rightarrow> 'a list" where
  "insertion_qsort cmp xs = foldr (insort_cmp cmp) xs []"

lemma mset_insort_cmp: "mset (insort_cmp cmp x ys) = add_mset x (mset ys)"
  by (induction ys) auto

lemma set_insort_cmp [simp]: "set (insort_cmp cmp x ys) = insert x (set ys)"
  using mset_insort_cmp [of cmp x ys] by (metis set_mset_add_mset_insert set_mset_mset)

lemma mset_insertion_qsort: "mset (insertion_qsort cmp xs) = mset xs"
  by (induction xs) (simp_all add: insertion_qsort_def mset_insort_cmp)

lemma sorted_insort_cmp:
  "cmp_consistent cmp S \<Longrightarrow> insert x (set ys) \<subseteq> S \<Longrightarrow> sorted_wrt (\<lambda>x y. cmp x y \<le> 0) ys \<Longrightarrow>
   sorted_wrt (\<lambda>x y. cmp x y \<le> 0) (insort_cmp cmp x ys)"
proof (induction ys)
  case Nil
  then show ?case by simp
next
  case (Cons y ys)
  show ?case
  proof (cases "cmp x y \<le> 0")
    case True
    have "cmp x z \<le> 0" if "z \<in> set ys" for z
      using True that Cons.prems unfolding cmp_consistent_def
      by (metis insert_iff list.simps(15) sorted_wrt.simps(2) subset_iff)
    with True Cons.prems(3) show ?thesis by simp
  next
    case False
    with Cons.prems have "cmp y x \<le> 0" unfolding cmp_consistent_def
      by (metis insert_iff list.simps(15) subset_iff)
    with False Cons show ?thesis by auto
  qed
qed

lemma insertion_qsort_ok: "qsort_ok insertion_qsort"
proof -
  have "sorted_wrt (\<lambda>x y. cmp x y \<le> 0) (insertion_qsort cmp xs)"
    if "cmp_consistent cmp S" "set xs \<subseteq> S" for cmp :: "'b compar" and xs S
    using that(2)
  proof (induction xs)
    case Nil
    then show ?case by (simp add: insertion_qsort_def)
  next
    case (Cons x xs)
    have "set (insertion_qsort cmp xs) = set xs"
      using mset_insertion_qsort by (metis set_mset_mset)
    then have "insert x (set (insertion_qsort cmp xs)) \<subseteq> S" using Cons.prems by simp
    moreover have "sorted_wrt (\<lambda>x y. cmp x y \<le> 0) (insertion_qsort cmp xs)" using Cons by simp
    ultimately have "sorted_wrt (\<lambda>x y. cmp x y \<le> 0) (insort_cmp cmp x (insertion_qsort cmp xs))"
      by (rule sorted_insort_cmp [OF that(1)])
    then show ?case by (simp add: insertion_qsort_def)
  qed
  then show ?thesis unfolding qsort_ok_def using mset_insertion_qsort by blast
qed

section \<open>Distance first, then identifier\<close>

definition cmp_dist_id :: "('a \<Rightarrow> f64) \<Rightarrow> ('a \<Rightarrow> i64) \<Rightarrow> 'a compar" where
  "cmp_dist_id dist cid a b =
     (if f64_lt (dist a) (dist b) then - 1
      else if f64_gt (dist a) (dist b) then 1
      else if sint (cid a) < sint (cid b) then - 1
      else if sint (cid a) > sint (cid b) then 1
      else 0)"

lemma cmp_dist_id_le:
  assumes "\<not> f64_nan (dist a)" "\<not> f64_nan (dist b)"
  shows "cmp_dist_id dist cid a b \<le> 0 \<longleftrightarrow>
    f64_key (dist a) < f64_key (dist b) \<or>
    f64_key (dist a) = f64_key (dist b) \<and> sint (cid a) \<le> sint (cid b)"
  using assms by (auto simp: cmp_dist_id_def f64_lt_key f64_gt_key)

lemma cmp_dist_id_consistent:
  assumes "\<forall>x \<in> S. \<not> f64_nan (dist x)"
  shows "cmp_consistent (cmp_dist_id dist cid) S"
  using assms unfolding cmp_consistent_def by (auto simp: cmp_dist_id_le)

lemma qsort_dist_id:
  assumes "qsort_ok qsort"
  shows "mset (qsort (cmp_dist_id dist cid) xs) = mset xs"
    and "\<forall>x \<in> set xs. \<not> f64_nan (dist x) \<Longrightarrow>
      sorted_wrt (\<lambda>a b. f64_key (dist a) < f64_key (dist b) \<or>
        f64_key (dist a) = f64_key (dist b) \<and> sint (cid a) \<le> sint (cid b))
        (qsort (cmp_dist_id dist cid) xs)"
proof -
  let ?q = "qsort (cmp_dist_id dist cid) xs"
  from assms show m: "mset ?q = mset xs" by (simp add: qsort_ok_def)
  assume nn: "\<forall>x \<in> set xs. \<not> f64_nan (dist x)"
  then have "sorted_wrt (\<lambda>x y. cmp_dist_id dist cid x y \<le> 0) ?q"
    using assms cmp_dist_id_consistent [OF nn, of cid] by (simp add: qsort_ok_def)
  moreover have "set ?q = set xs" using m by (metis set_mset_mset)
  ultimately show "sorted_wrt (\<lambda>a b. f64_key (dist a) < f64_key (dist b) \<or>
        f64_key (dist a) = f64_key (dist b) \<and> sint (cid a) \<le> sint (cid b)) ?q"
    using nn by (elim sorted_wrt_mono_rel [rotated]) (simp add: cmp_dist_id_le)
qed

lemma sorted_keys_of_dist_id:
  "sorted_wrt (\<lambda>a b. f64_key (dist a) < f64_key (dist b) \<or>
        f64_key (dist a) = f64_key (dist b) \<and> sint (cid a) \<le> sint (cid b)) xs \<Longrightarrow>
   sorted (map (\<lambda>x. f64_key (dist x)) xs)"
  unfolding sorted_wrt_map by (erule sorted_wrt_mono_rel [rotated]) auto

end
