(* ===== verification/Exact_Search.thy ===== *)
theory Exact_Search
  imports Vector_Ops Array_Heap C_Qsort
begin

text \<open>
  Exact vector search (\<open>src/src/maludb_search.c\<close>): the scan of a compartment's chunks, the bounded
  max-heap of the \<open>k\<close> nearest, the final \<open>qsort\<close> and the emitted rows. What PostgreSQL's SPI
  returns (the connect code, and the status and rows of the scan) is an argument, as is \<open>qsort\<close>.

  The abstract specification of a search is \<open>search_candidates\<close>: the scored chunks. The search
  implements "the \<open>k\<close> smallest of them in order".
\<close>

section \<open>Data\<close>

definition MALUDB_METRIC_COSINE :: int where "MALUDB_METRIC_COSINE = 1"
definition MALUDB_METRIC_L2 :: int where "MALUDB_METRIC_L2 = 2"
definition MALUDB_METRIC_INNER :: int where "MALUDB_METRIC_INNER = 3"

lemmas metric_defs = MALUDB_METRIC_COSINE_def MALUDB_METRIC_L2_def MALUDB_METRIC_INNER_def

record HeapEntry =
  chunk_id :: i64
  source_text :: "string option"
  distance :: f64
  similarity :: f64

text \<open>A row of the scan: chunk id, source text and embedding, each possibly NULL.\<close>

record chunk_row =
  row_id :: "i64 option"
  row_text :: "string option"
  row_emb :: "bytes option"

record search_result =
  out_chunk_id :: i64
  out_source_text :: "string option"
  out_distance :: f64
  out_similarity :: f64
  out_rank :: i32

section \<open>Scoring\<close>

definition decode_vec :: "bytes \<Rightarrow> f32 list result" where
  "decode_vec vb =
     (let len = length vb in
      if len mod MALUDB_VEC_BYTES_PER_ELEMENT \<noteq> 0
      then Inl (Ereport ERRCODE_INVALID_BINARY_REPRESENTATION
        (''vector bytea length '' @ fmt_nat len @ '' not multiple of ''
           @ fmt_nat MALUDB_VEC_BYTES_PER_ELEMENT))
      else Inr (vec_floats vb))"

definition compute_distance :: "int \<Rightarrow> f32 list \<Rightarrow> f32 list \<Rightarrow> f64 result" where
  "compute_distance metric a b =
     (if length a \<noteq> length b
      then Inl (Ereport ERRCODE_DATA_EXCEPTION
        (''vector dim mismatch: '' @ fmt_nat (length a) @ '' vs '' @ fmt_nat (length b)))
      else if metric = MALUDB_METRIC_L2 then Inr (l2_loop a b)
      else if metric = MALUDB_METRIC_COSINE then Inr (f64_sub f64_one (dot_loop a b))
      else Inr (f64_neg (dot_loop a b)))"

definition similarity_of :: "int \<Rightarrow> f64 \<Rightarrow> f64" where
  "similarity_of metric dist =
     (if metric = MALUDB_METRIC_COSINE then f64_sub f64_one dist else f64_neg dist)"

section \<open>The heap\<close>

definition sift_up :: "HeapEntry list \<Rightarrow> nat \<Rightarrow> HeapEntry list" where
  "sift_up h i = sift_up_by (\<lambda>x y. f64_gt (distance x) (distance y)) h i"

definition sift_down :: "HeapEntry list \<Rightarrow> nat \<Rightarrow> nat \<Rightarrow> HeapEntry list" where
  "sift_down h n i = sift_down_by (\<lambda>x y. f64_gt (distance x) (distance y)) h n i"

definition cmp_distance_asc :: "HeapEntry compar" where
  "cmp_distance_asc ea eb =
     (if f64_lt (distance ea) (distance eb) then - 1
      else if f64_gt (distance ea) (distance eb) then 1
      else if sint (chunk_id ea) < sint (chunk_id eb) then - 1
      else if sint (chunk_id ea) > sint (chunk_id eb) then 1
      else 0)"

section \<open>The search\<close>

definition search_entry :: "int \<Rightarrow> chunk_row \<Rightarrow> f64 \<Rightarrow> HeapEntry" where
  "search_entry metric row dist =
     \<lparr>chunk_id = (case row_id row of None \<Rightarrow> 0 | Some i \<Rightarrow> i), source_text = row_text row,
      distance = dist, similarity = similarity_of metric dist\<rparr>"

text \<open>The number of entries \<open>palloc0\<close> reserves for the heap: \<open>(int) nrows\<close> is a narrowing cast.\<close>

definition search_cap :: "i32 \<Rightarrow> nat \<Rightarrow> int" where
  "search_cap k nrows =
     (let n = sint (of_nat nrows :: i32);
          cap = (if sint k < n then sint k else n);
          cap = (if cap < 0 then 0 else cap)
      in if cap > 0 then cap else 1)"

definition search_offer :: "nat \<Rightarrow> HeapEntry list \<Rightarrow> HeapEntry \<Rightarrow> HeapEntry list" where
  "search_offer k heap e =
     (if length heap < k then sift_up (heap @ [e]) (length heap)
      else if f64_lt (distance e) (distance (heap ! 0)) then sift_down (heap[0 := e]) (length heap) 0
      else heap)"

text \<open>
  The loop over the rows, on a heap with room for \<open>cap\<close> entries: inserting behind them stores outside
  the allocation.
\<close>

primrec search_rows ::
  "int \<Rightarrow> f32 list \<Rightarrow> nat \<Rightarrow> nat \<Rightarrow> HeapEntry list \<Rightarrow> chunk_row list \<Rightarrow> HeapEntry list result" where
  "search_rows metric q k cap heap [] = Inr heap"
| "search_rows metric q k cap heap (row # rows) =
     (case row_emb row of
        None \<Rightarrow> search_rows metric q k cap heap rows
      | Some eb \<Rightarrow>
          andthen (decode_vec eb) (\<lambda>evec.
          andthen (compute_distance metric q evec) (\<lambda>dist.
          if length heap < k \<and> cap \<le> length heap then Inl OutOfBounds
          else search_rows metric q k cap (search_offer k heap (search_entry metric row dist)) rows)))"

definition search_metric :: "string option \<Rightarrow> int result" where
  "search_metric metric_arg =
     (case metric_arg of
        None \<Rightarrow> Inr MALUDB_METRIC_COSINE
      | Some m \<Rightarrow>
          if m = ''cosine'' then Inr MALUDB_METRIC_COSINE
          else if m = ''l2'' then Inr MALUDB_METRIC_L2
          else if m = ''inner_product'' then Inr MALUDB_METRIC_INNER
          else Inl (Ereport ERRCODE_INVALID_PARAMETER_VALUE (''unknown distance metric: '' @ m)))"

primrec emit_rows :: "nat \<Rightarrow> HeapEntry list \<Rightarrow> search_result list" where
  "emit_rows i [] = []"
| "emit_rows i (e # es) =
     \<lparr>out_chunk_id = chunk_id e, out_source_text = source_text e, out_distance = distance e,
      out_similarity = similarity e, out_rank = of_nat (i + 1)\<rparr> # emit_rows (Suc i) es"

text \<open>
  The caller's context: whether the executor accepts a materialised set and a composite result,
  what \<open>SPI_connect\<close> returns, and the status and rows of the scan of one compartment.
\<close>

record search_ctx =
  allows_materialize :: bool
  composite_result :: bool
  spi_connect :: int
  spi_scan :: "i64 \<Rightarrow> int \<times> chunk_row list"

definition maludb_exact_vector_search_c ::
  "search_ctx \<Rightarrow> (HeapEntry compar \<Rightarrow> HeapEntry list \<Rightarrow> HeapEntry list) \<Rightarrow>
   i64 \<Rightarrow> bytes \<Rightarrow> i32 \<Rightarrow> string option \<Rightarrow> search_result list result" where
  "maludb_exact_vector_search_c ctx qsort compartment_id qbytea k metric_arg =
     andthen (decode_vec qbytea) (\<lambda>qvec.
     if sint k \<le> 0
     then Inl (Ereport ERRCODE_INVALID_PARAMETER_VALUE ''limit must be positive'')
     else andthen (search_metric metric_arg) (\<lambda>metric.
     if \<not> allows_materialize ctx
     then Inl (Ereport ERRCODE_FEATURE_NOT_SUPPORTED
       ''set-valued function called in context that cannot accept materialized set'')
     else if \<not> composite_result ctx
     then Inl (Ereport ERRCODE_FEATURE_NOT_SUPPORTED
       ''function returning record called without column definitions'')
     else if spi_connect ctx \<noteq> SPI_OK_CONNECT
     then Inl (Ereport ERRCODE_INTERNAL_ERROR (''SPI_connect failed: '' @ fmt_d (spi_connect ctx)))
     else (case spi_scan ctx compartment_id of (ret, rows) \<Rightarrow>
       if ret \<noteq> SPI_OK_SELECT
       then Inl (Ereport ERRCODE_INTERNAL_ERROR (''SPI scan failed: '' @ fmt_d ret))
       else andthen (search_rows metric qvec (nat (sint k)) (nat (search_cap k (length rows))) [] rows) (\<lambda>heap.
         Inr (emit_rows 0 (qsort cmp_distance_asc heap))))))"

section \<open>Specification: the scored chunks\<close>

fun search_candidates :: "int \<Rightarrow> f32 list \<Rightarrow> chunk_row list \<Rightarrow> HeapEntry list" where
  "search_candidates metric q [] = []"
| "search_candidates metric q (row # rows) =
     (case row_emb row of
        None \<Rightarrow> search_candidates metric q rows
      | Some eb \<Rightarrow> (case andthen (decode_vec eb) (compute_distance metric q) of
            Inl e \<Rightarrow> search_candidates metric q rows
          | Inr d \<Rightarrow> search_entry metric row d # search_candidates metric q rows))"

definition row_ok :: "f32 list \<Rightarrow> chunk_row \<Rightarrow> bool" where
  "row_ok q row \<longleftrightarrow> (case row_emb row of None \<Rightarrow> True | Some eb \<Rightarrow> length eb = 4 * length q)"

section \<open>The heap keeps the nearest entries\<close>

definition entry_key :: "HeapEntry \<Rightarrow> int" where
  "entry_key e = f64_key (distance e)"

definition entry_ok :: "HeapEntry \<Rightarrow> bool" where
  "entry_ok e \<longleftrightarrow> \<not> f64_nan (distance e)"

interpretation search_heap: keyed_order "\<lambda>x y. f64_gt (distance x) (distance y)" entry_key entry_ok
  by unfold_locales (simp add: entry_ok_def entry_key_def f64_gt_key)

lemma search_offer_bounded_push:
  "0 < k \<Longrightarrow> search_offer k heap e = bounded_push (\<lambda>x y. f64_gt (distance x) (distance y)) k heap e"
  by (simp add: search_offer_def bounded_push_def sift_up_def sift_down_def f64_gt_def)

lemma decode_vec_eq_Inr: "decode_vec vb = Inr v \<longleftrightarrow> length vb mod 4 = 0 \<and> v = vec_floats vb"
  by (auto simp: decode_vec_def MALUDB_VEC_BYTES_PER_ELEMENT_def Let_def)

lemma compute_distance_total:
  "length a = length b \<Longrightarrow> \<exists>d. compute_distance metric a b = Inr d"
  by (simp add: compute_distance_def)

lemma scored_row_iff:
  "(\<exists>d. andthen (decode_vec eb) (compute_distance metric q) = Inr d) \<longleftrightarrow> length eb = 4 * length q"
proof
  assume "\<exists>d. andthen (decode_vec eb) (compute_distance metric q) = Inr d"
  then have "length eb mod 4 = 0" "length q = length eb div 4"
    by (auto simp: andthen_eq_Inr decode_vec_eq_Inr compute_distance_def split: if_splits)
  then show "length eb = 4 * length q" by (metis mod_0_imp_dvd dvd_mult_div_cancel)
next
  assume "length eb = 4 * length q"
  then have "decode_vec eb = Inr (vec_floats eb)" "length q = length (vec_floats eb)"
    by (simp_all add: decode_vec_eq_Inr)
  then show "\<exists>d. andthen (decode_vec eb) (compute_distance metric q) = Inr d"
    by (simp add: compute_distance_total)
qed

lemma andthen_assoc: "andthen (andthen r f) g = andthen r (\<lambda>x. andthen (f x) g)"
  by (cases r) auto

lemma search_rows_candidates:
  assumes "0 < k"
  shows "search_rows metric q k cap heap rows = Inr h \<Longrightarrow>
    h = fold (\<lambda>e h. bounded_push (\<lambda>x y. f64_gt (distance x) (distance y)) k h e)
          (search_candidates metric q rows) heap"
  using assms
  by (induction rows arbitrary: heap)
     (auto simp: andthen_eq_Inr search_offer_bounded_push split: option.splits sum.splits if_splits)

lemma search_offer_length:
  "length heap \<le> k \<Longrightarrow> 0 < k \<Longrightarrow> length (search_offer k heap e) = min k (Suc (length heap))"
  by (auto simp: search_offer_bounded_push length_bounded_push)

definition scored :: "chunk_row list \<Rightarrow> nat" where
  "scored rows = length (filter (\<lambda>row. row_emb row \<noteq> None) rows)"

lemma scored_simps [simp]:
  "scored [] = 0" "scored (row # rows) = (if row_emb row = None then scored rows else Suc (scored rows))"
  by (simp_all add: scored_def)

lemma search_rows_ok:
  "length heap \<le> min k cap \<Longrightarrow> 0 < k \<Longrightarrow>
   (\<exists>h. search_rows metric q k cap heap rows = Inr h) \<longleftrightarrow>
     (\<forall>row \<in> set rows. row_ok q row) \<and> min k (length heap + scored rows) \<le> cap"
proof (induction rows arbitrary: heap)
  case Nil
  then show ?case by auto
next
  case (Cons row rows)
  show ?case
  proof (cases "row_emb row")
    case None
    with Cons show ?thesis by (simp add: row_ok_def)
  next
    case (Some eb)
    have fits: "min k (length (search_offer k heap e) + n) = min k (length heap + Suc n)"
      "length heap < k \<and> cap \<le> length heap \<Longrightarrow> \<not> min k (length heap + Suc n) \<le> cap" for e n
      using Cons.prems by (auto simp: search_offer_length)
    have len: "length (search_offer k heap e) \<le> min k cap" if "\<not> (length heap < k \<and> cap \<le> length heap)" for e
      using Cons.prems that by (auto simp: search_offer_length)
    have "(\<exists>h. search_rows metric q k cap heap (row # rows) = Inr h) \<longleftrightarrow>
       (\<exists>d. andthen (decode_vec eb) (compute_distance metric q) = Inr d) \<and> (\<forall>row \<in> set rows. row_ok q row) \<and>
       min k (length heap + Suc (scored rows)) \<le> cap"
    proof (cases "length heap < k \<and> cap \<le> length heap")
      case True
      with fits(2) [OF True, of "scored rows"] Some show ?thesis by (auto simp: andthen_eq_Inr)
    next
      case False
      from Cons.IH [OF len [OF False] Cons.prems(2)] False Some show ?thesis by (auto simp: andthen_eq_Inr fits(1))
    qed
    with Some show ?thesis unfolding scored_row_iff by (simp add: row_ok_def)
  qed
qed

lemma search_rows_row_ok: "search_rows metric q k cap heap rows = Inr h \<Longrightarrow> row \<in> set rows \<Longrightarrow> row_ok q row"
proof (induction rows arbitrary: heap)
  case (Cons r rows)
  then show ?case
    using scored_row_iff [of _ metric q] by (force simp: andthen_eq_Inr row_ok_def split: option.splits if_splits)
qed simp

lemma search_rows_topk:
  assumes "search_rows metric q k cap [] rows = Inr h" and "0 < k"
    and "\<forall>e \<in> set (search_candidates metric q rows). entry_ok e"
  shows "topk entry_key k h (mset (search_candidates metric q rows))"
  using search_heap.fold_bounded_push_topk [OF topk_empty, of "search_candidates metric q rows" k]
    search_rows_candidates [OF assms(2,1)] assms(3) by simp

lemma cmp_distance_asc_eq: "cmp_distance_asc = cmp_dist_id distance chunk_id"
  by (intro ext) (simp add: cmp_distance_asc_def cmp_dist_id_def)

text \<open>What the emitted rows carry.\<close>

definition entry_of_result :: "search_result \<Rightarrow> HeapEntry" where
  "entry_of_result r = \<lparr>chunk_id = out_chunk_id r, source_text = out_source_text r,
     distance = out_distance r, similarity = out_similarity r\<rparr>"

lemma entries_emit_rows [simp]: "map entry_of_result (emit_rows i es) = es"
  by (induction es arbitrary: i) (auto simp: entry_of_result_def)

lemma length_emit_rows [simp]: "length (emit_rows i es) = length es"
  by (induction es arbitrary: i) auto

lemma ranks_emit_rows: "map out_rank (emit_rows i es) = map (\<lambda>n. of_nat (n + 1)) [i ..< i + length es]"
  by (induction es arbitrary: i) (auto simp: upt_rec)

lemma search_success:
  "maludb_exact_vector_search_c ctx qsort cid qb k m = Inr out \<longleftrightarrow>
   (\<exists>metric rows h. length qb mod 4 = 0 \<and> 0 < sint k \<and> search_metric m = Inr metric \<and>
      allows_materialize ctx \<and> composite_result ctx \<and> spi_connect ctx = SPI_OK_CONNECT \<and>
      spi_scan ctx cid = (SPI_OK_SELECT, rows) \<and>
      search_rows metric (vec_floats qb) (nat (sint k)) (nat (search_cap k (length rows))) [] rows = Inr h \<and>
      out = emit_rows 0 (qsort cmp_distance_asc h))"
  by (cases "spi_scan ctx cid")
     (auto simp: maludb_exact_vector_search_c_def andthen_eq_Inr decode_vec_eq_Inr)

section \<open>Correctness\<close>

text \<open>
  C1. The search returns the nearest chunks. When no candidate's distance is NaN, the distances
  of the emitted rows are exactly the \<open>k\<close> smallest candidate distances in ascending order, each
  emitted row is a candidate (none is emitted more often than the scan produced it), equal
  distances are ordered by chunk id, and the ranks count from one.
\<close>

theorem exact_search_returns_k_nearest:
  assumes "maludb_exact_vector_search_c ctx qsort cid qb k m = Inr out"
    and "qsort_ok qsort" and "search_metric m = Inr metric" and "spi_scan ctx cid = (ret, rows)"
    and "\<forall>e \<in> set (search_candidates metric (vec_floats qb) rows). \<not> f64_nan (distance e)"
  shows "map (\<lambda>r. f64_key (out_distance r)) out =
      take (nat (sint k)) (sort (map (\<lambda>e. f64_key (distance e)) (search_candidates metric (vec_floats qb) rows)))
    \<and> mset (map entry_of_result out) \<subseteq># mset (search_candidates metric (vec_floats qb) rows)
    \<and> sorted_wrt (\<lambda>r s. f64_key (out_distance r) < f64_key (out_distance s) \<or>
        f64_key (out_distance r) = f64_key (out_distance s) \<and> sint (out_chunk_id r) \<le> sint (out_chunk_id s)) out
    \<and> map out_rank out = map (\<lambda>n. of_nat (n + 1)) [0 ..< length out]"
proof -
  let ?cs = "search_candidates metric (vec_floats qb) rows" and ?k = "nat (sint k)"
  from assms(1,3,4) obtain h where k: "0 < ?k"
    and h: "search_rows metric (vec_floats qb) ?k (nat (search_cap k (length rows))) [] rows = Inr h"
    and out: "out = emit_rows 0 (qsort cmp_distance_asc h)"
    by (auto simp: search_success)
  let ?ys = "qsort (cmp_dist_id distance chunk_id) h"
  have tk: "topk entry_key ?k h (mset ?cs)"
    using search_rows_topk [OF h k] assms(5) by (simp add: entry_ok_def)
  then have sub: "mset h \<subseteq># mset ?cs" by (simp add: topk_def)
  have nn: "\<forall>x \<in> set h. \<not> f64_nan (distance x)"
    using sub assms(5) by (metis mset_subset_eqD set_mset_mset)
  note q = qsort_dist_id [OF assms(2), where dist = distance and cid = chunk_id and xs = h]
  have es: "map entry_of_result out = ?ys" by (simp add: out cmp_distance_asc_eq)
  have "sorted (map entry_key ?ys)"
    using sorted_keys_of_dist_id [OF q(2) [OF nn]] unfolding entry_key_def .
  then have keys: "map entry_key ?ys = take ?k (sort (map entry_key ?cs))"
    by (rule topk_sorted_keys [OF tk q(1)])
  have ro: "f64_key (out_distance r) = entry_key (entry_of_result r)"
    "out_chunk_id r = chunk_id (entry_of_result r)" for r
    by (simp_all add: entry_key_def entry_of_result_def)
  have "map (\<lambda>r. f64_key (out_distance r)) out = map entry_key (map entry_of_result out)"
    by (simp add: ro)
  moreover have "sorted_wrt (\<lambda>r s. f64_key (out_distance r) < f64_key (out_distance s) \<or>
        f64_key (out_distance r) = f64_key (out_distance s) \<and> sint (out_chunk_id r) \<le> sint (out_chunk_id s)) out"
    using q(2) [OF nn] unfolding es [symmetric] sorted_wrt_map by (simp add: entry_of_result_def)
  moreover have "map out_rank out = map (\<lambda>n. of_nat (n + 1)) [0 ..< length out]"
    by (simp add: out ranks_emit_rows)
  moreover have "entry_key = (\<lambda>e. f64_key (distance e))" by (rule ext) (rule entry_key_def)
  ultimately show ?thesis using keys q(1) sub es by simp
qed

definition sample_row :: "i64 \<Rightarrow> f32 list \<Rightarrow> chunk_row" where
  "sample_row i v = \<lparr>row_id = Some i, row_text = None, row_emb = Some (vec_bytes v)\<rparr>"

text \<open>A compartment of one-dimensional chunks; element 0x3F800000 is 1.0, 0x40000000 is 2.0.\<close>

definition sample_ctx :: search_ctx where
  "sample_ctx = \<lparr>allows_materialize = True, composite_result = True, spi_connect = 1,
     spi_scan = (\<lambda>_. (5, [sample_row 7 [0x40000000], sample_row 8 [0x3F800000]]))\<rparr>"

lemma decode_vec_vec_bytes [simp]: "decode_vec (vec_bytes v) = Inr v"
  by (simp add: decode_vec_eq_Inr)

lemma sample_distances:
  "compute_distance MALUDB_METRIC_L2 [0x3F800000] [0x40000000] = Inr 0x3FF0000000000000"
  "compute_distance MALUDB_METRIC_L2 [0x3F800000] [0x3F800000] = Inr 0"
  by code_simp+

lemma sample_candidates:
  "search_candidates MALUDB_METRIC_L2 [0x3F800000] [sample_row 7 [0x40000000], sample_row 8 [0x3F800000]] =
   [search_entry MALUDB_METRIC_L2 (sample_row 7 [0x40000000]) 0x3FF0000000000000,
    search_entry MALUDB_METRIC_L2 (sample_row 8 [0x3F800000]) 0]"
  by (simp add: sample_row_def sample_distances del: vec_bytes.simps)

lemma sample_row_ok: "row_ok [x] (sample_row i [y])"
  by (simp add: row_ok_def sample_row_def del: vec_bytes.simps)

lemma nat_sint_1: "nat (sint (1 :: i32)) = 1"
  by simp

lemma search_cap_1_2: "search_cap 1 2 = 1" "search_cap 1 (Suc (Suc 0)) = 1"
  by (simp_all add: search_cap_def)

lemma sample_search_defined:
  "\<exists>out. maludb_exact_vector_search_c sample_ctx qs 1 (vec_bytes [0x3F800000]) 1 (Some ''l2'') = Inr out"
proof -
  have "\<exists>h. search_rows MALUDB_METRIC_L2 [0x3F800000] (nat (sint (1 :: i32))) (nat (search_cap 1 2)) []
      [sample_row 7 [0x40000000], sample_row 8 [0x3F800000]] = Inr h"
    by (subst search_rows_ok) (simp_all add: sample_row_ok search_cap_1_2)
  then obtain h where "search_rows MALUDB_METRIC_L2 [0x3F800000] (nat (sint (1 :: i32))) (nat (search_cap 1 2)) []
      [sample_row 7 [0x40000000], sample_row 8 [0x3F800000]] = Inr h" by blast
  then show ?thesis
    by (simp add: search_success sample_ctx_def SPI_OK_CONNECT_def SPI_OK_SELECT_def search_metric_def search_cap_1_2
        del: vec_bytes.simps)
qed

theorem exact_search_returns_k_nearest_witness:
  "\<exists>out. maludb_exact_vector_search_c sample_ctx insertion_qsort 1 (vec_bytes [0x3F800000]) 1 (Some ''l2'')
     = Inr out \<and> map (\<lambda>r. f64_key (out_distance r)) out = [0]"
proof -
  obtain out where out: "maludb_exact_vector_search_c sample_ctx insertion_qsort 1 (vec_bytes [0x3F800000]) 1
      (Some ''l2'') = Inr out"
    using sample_search_defined by blast
  have m: "search_metric (Some ''l2'') = Inr MALUDB_METRIC_L2" by (simp add: search_metric_def)
  have r: "spi_scan sample_ctx 1 = (5, [sample_row 7 [0x40000000], sample_row 8 [0x3F800000]])"
    by (simp add: sample_ctx_def)
  have keys: "f64_key 0x3FF0000000000000 = 0x3FF0000000000000" "f64_key 0 = 0"
    "\<not> f64_nan 0x3FF0000000000000" by code_simp+
  let ?cs = "search_candidates MALUDB_METRIC_L2 [0x3F800000] [sample_row 7 [0x40000000], sample_row 8 [0x3F800000]]"
  have d: "map distance ?cs = [0x3FF0000000000000, 0]"
    unfolding sample_candidates by (simp only: search_entry_def list.map HeapEntry.select_convs)
  have nn: "\<forall>e \<in> set ?cs. \<not> f64_nan (distance e)"
    by (rule list_all_mapD [OF d]) (simp add: keys)
  have "map (\<lambda>e. f64_key (distance e)) ?cs = map f64_key (map distance ?cs)" by (simp only: map_map o_def)
  then have srt: "sort (map (\<lambda>e. f64_key (distance e)) ?cs) = [0, 0x3FF0000000000000]"
    unfolding d by (simp add: keys)
  note res = exact_search_returns_k_nearest [OF out insertion_qsort_ok m r, unfolded vec_floats_vec_bytes, OF nn]
  from res [THEN conjunct1] have "map (\<lambda>r. f64_key (out_distance r)) out = [0]"
    unfolding srt nat_sint_1 take_Suc_Cons One_nat_def take_0 .
  with out show ?thesis by (intro exI [of _ out] conjI)
qed

text \<open>
  Below \<open>2\<^sup>31\<close> rows the heap fits its allocation: whatever the distances, NaN included, the number of
  live entries is at most the number of entries reserved.
\<close>

definition heap_fits :: "i32 \<Rightarrow> chunk_row list \<Rightarrow> bool" where
  "heap_fits k rows \<longleftrightarrow> int (min (nat (sint k)) (scored rows)) \<le> search_cap k (length rows)"

lemma scored_le: "scored rows \<le> length rows"
  by (simp add: scored_def)

lemma heap_fits_below: "length rows < 2 ^ 31 \<Longrightarrow> heap_fits k rows"
  using scored_le [of rows]
  by (auto simp: heap_fits_def search_cap_def signed_of_nat signed_take_bit_int_eq_self Let_def)

text \<open>
  C10. When the search fails. It returns rows exactly when the query length is a multiple of four,
  the limit is positive, the metric is known, the executor accepts a materialised composite
  result, SPI answers, every non-NULL embedding has the query's dimension - a single embedding of
  another dimension aborts the whole search - and the heap fits the memory reserved for it, whose
  size is computed with a narrowing cast. It always fits when the scan has fewer than \<open>2\<^sup>31\<close> rows.
\<close>

theorem exact_search_defined_iff:
  "((\<exists>out. maludb_exact_vector_search_c ctx qsort cid qb k m = Inr out) \<longleftrightarrow>
     length qb mod 4 = 0 \<and> 0 < sint k \<and> m \<in> {None, Some ''cosine'', Some ''l2'', Some ''inner_product''} \<and>
     allows_materialize ctx \<and> composite_result ctx \<and> spi_connect ctx = SPI_OK_CONNECT \<and>
     fst (spi_scan ctx cid) = SPI_OK_SELECT \<and>
     (\<forall>row \<in> set (snd (spi_scan ctx cid)). row_ok (vec_floats qb) row) \<and> heap_fits k (snd (spi_scan ctx cid))) \<and>
   (length (snd (spi_scan ctx cid)) < 2 ^ 31 \<longrightarrow> heap_fits k (snd (spi_scan ctx cid)))"
proof -
  have m: "(\<exists>metric. search_metric m = Inr metric) \<longleftrightarrow>
      m \<in> {None, Some ''cosine'', Some ''l2'', Some ''inner_product''}"
    by (auto simp: search_metric_def split: option.splits if_splits)
  obtain ret rows where sc: "spi_scan ctx cid = (ret, rows)" by (cases "spi_scan ctx cid")
  have rows: "(\<exists>h. search_rows metric (vec_floats qb) (nat (sint k)) (nat (search_cap k (length rows))) [] rows = Inr h) \<longleftrightarrow>
      (\<forall>row \<in> set rows. row_ok (vec_floats qb) row) \<and> heap_fits k rows" if "0 < sint k" for metric
    using search_rows_ok [of "[]" "nat (sint k)" "nat (search_cap k (length rows))" metric "vec_floats qb" rows] that
    by (simp add: heap_fits_def) (auto simp: search_cap_def Let_def)
  show ?thesis unfolding search_success m [symmetric] using rows heap_fits_below [of rows k]
    by (simp add: sc) blast
qed

theorem exact_search_defined_iff_witness:
  "\<exists>out. maludb_exact_vector_search_c sample_ctx insertion_qsort 1 (vec_bytes [0x3F800000]) 1 (Some ''l2'') = Inr out"
proof -
  note iff = exact_search_defined_iff [of sample_ctx insertion_qsort 1 "vec_bytes [0x3F800000]" 1 "Some ''l2''"]
  have "length (snd (spi_scan sample_ctx 1)) < 2 ^ 31" by (simp add: sample_ctx_def)
  with iff have fits: "heap_fits 1 (snd (spi_scan sample_ctx 1))" by (rule conjunct2 [THEN mp])
  show ?thesis
    by (rule iff [THEN conjunct1, THEN iffD2])
      (use fits in \<open>simp add: sample_ctx_def sample_row_ok SPI_OK_CONNECT_def SPI_OK_SELECT_def del: vec_bytes.simps\<close>)
qed

text \<open>
  Outside the no-NaN case the selection is not the nearest one: a NaN distance at the root of a
  full heap is never replaced, because no distance compares below it.
\<close>

lemma search_rows_nan_root:
  "search_rows metric q k cap heap rows = Inr h \<Longrightarrow> length heap = k \<Longrightarrow> f64_nan (distance (heap ! 0)) \<Longrightarrow>
   h = heap"
proof (induction rows)
  case Nil
  then show ?case by simp
next
  case (Cons row rows)
  have "search_offer k heap e = heap" for e
    using Cons.prems(2,3) by (simp add: search_offer_def f64_nan_incomparable)
  with Cons show ?case by (auto simp: andthen_eq_Inr split: option.splits)
qed

lemma search_rows_first:
  "search_rows metric q k cap [] rows = Inr h \<Longrightarrow> search_candidates metric q rows = e # es \<Longrightarrow> k = 1 \<Longrightarrow>
   f64_nan (distance e) \<Longrightarrow> h = [e]"
proof (induction rows)
  case Nil
  then show ?case by simp
next
  case (Cons row rows)
  show ?case
  proof (cases "row_emb row")
    case None
    with Cons show ?thesis by simp
  next
    case (Some eb)
    with Cons.prems obtain d where e: "e = search_entry metric row d"
      and h: "search_rows metric q k cap (search_offer k [] e) rows = Inr h"
      by (auto simp: andthen_eq_Inr split: sum.splits if_splits)
    have "search_offer k [] e = [e]"
      using Cons.prems(3) by (simp add: search_offer_def sift_up_def)
    with h Cons.prems search_rows_nan_root [of metric q k cap "[e]" rows h] show ?thesis by simp
  qed
qed

text \<open>
  A chunk whose distance is NaN hides every other chunk from a search with limit one: if it is
  the first candidate of the scan it is the whole answer, however near the later ones are.
  (The text reader accepts \<open>nan\<close> and \<open>inf\<close> as elements, so such embeddings can be stored.)
\<close>

lemma exact_search_nan_hides_nearer:
  assumes "maludb_exact_vector_search_c ctx qsort cid qb k m = Inr out"
    and "qsort_ok qsort" and "search_metric m = Inr metric" and "spi_scan ctx cid = (ret, rows)"
    and "sint k = 1" and "search_candidates metric (vec_floats qb) rows = e # es"
    and "f64_nan (distance e)"
  shows "map entry_of_result out = [e]"
proof -
  from assms(1,3-5) obtain h where
    h: "search_rows metric (vec_floats qb) 1 (nat (search_cap k (length rows))) [] rows = Inr h"
    and out: "out = emit_rows 0 (qsort cmp_distance_asc h)"
    by (auto simp: search_success)
  from search_rows_first [OF h assms(6) refl assms(7)] have "h = [e]" .
  moreover have "mset (qsort cmp_distance_asc h) = mset h" using assms(2) by (simp add: qsort_ok_def)
  ultimately show ?thesis by (simp add: out entry_of_result_def)
qed

definition nan_ctx :: search_ctx where
  "nan_ctx = \<lparr>allows_materialize = True, composite_result = True, spi_connect = 1,
     spi_scan = (\<lambda>_. (5, [sample_row 7 [0x7FC00000], sample_row 8 [0x3F800000]]))\<rparr>"

lemma nan_candidates:
  "search_candidates MALUDB_METRIC_L2 [0x3F800000] [sample_row 7 [0x7FC00000], sample_row 8 [0x3F800000]] =
   [search_entry MALUDB_METRIC_L2 (sample_row 7 [0x7FC00000]) f64_nan_default,
    search_entry MALUDB_METRIC_L2 (sample_row 8 [0x3F800000]) 0]"
proof -
  have "compute_distance MALUDB_METRIC_L2 [0x3F800000] [0x7FC00000] = Inr f64_nan_default" by code_simp
  then show ?thesis by (simp add: sample_row_def sample_distances del: vec_bytes.simps)
qed

lemma exact_search_nan_hides_nearer_example:
  "\<exists>out. maludb_exact_vector_search_c nan_ctx insertion_qsort 1 (vec_bytes [0x3F800000]) 1 (Some ''l2'') = Inr out
   \<and> map out_chunk_id out = [7]"
proof -
  let ?rows = "[sample_row 7 [0x7FC00000], sample_row 8 [0x3F800000]]"
  have "\<exists>h. search_rows MALUDB_METRIC_L2 [0x3F800000] (nat (sint (1 :: i32))) (nat (search_cap 1 2)) [] ?rows = Inr h"
    by (subst search_rows_ok) (simp_all add: sample_row_ok search_cap_1_2)
  then obtain h where "search_rows MALUDB_METRIC_L2 [0x3F800000] (nat (sint (1 :: i32))) (nat (search_cap 1 2)) [] ?rows = Inr h"
    by blast
  then have "\<exists>out. maludb_exact_vector_search_c nan_ctx insertion_qsort 1 (vec_bytes [0x3F800000]) 1 (Some ''l2'') = Inr out"
    by (simp add: search_success nan_ctx_def SPI_OK_CONNECT_def SPI_OK_SELECT_def search_metric_def search_cap_1_2
        del: vec_bytes.simps)
  then obtain out where out:
    "maludb_exact_vector_search_c nan_ctx insertion_qsort 1 (vec_bytes [0x3F800000]) 1 (Some ''l2'') = Inr out" ..
  have m: "search_metric (Some ''l2'') = Inr MALUDB_METRIC_L2" by (simp add: search_metric_def)
  have r: "spi_scan nan_ctx 1 = (5, ?rows)" by (simp add: nan_ctx_def)
  have one: "sint (1 :: i32) = 1" by simp
  have nan: "f64_nan f64_nan_default" by code_simp
  then have "f64_nan (distance (search_entry MALUDB_METRIC_L2 (sample_row 7 [0x7FC00000]) f64_nan_default))"
    by (simp only: search_entry_def HeapEntry.select_convs)
  note res = exact_search_nan_hides_nearer
    [OF out insertion_qsort_ok m r one, unfolded vec_floats_vec_bytes, OF nan_candidates this]
  have "map out_chunk_id out = map chunk_id (map entry_of_result out)"
    by (simp add: entry_of_result_def)
  also have "\<dots> = [7]" unfolding res by (simp add: search_entry_def sample_row_def)
  finally show ?thesis using out by (intro exI [of _ out] conjI)
qed

end
