(* ===== verification/Topk_Aggregate.thy ===== *)
theory Topk_Aggregate
  imports Exact_Search
begin

text \<open>
  The parallel-safe aggregate \<open>topk_vector_search\<close> (\<open>src/src/maludb_topk.c\<close>): the transition
  function, the combine function that merges a worker's state into the leader's, serialisation
  and deserialisation of a state, and the final function that sorts and prints JSON.

  A state's \<open>n\<close> is the length of the live part of its heap and its \<open>qdim\<close> the length of its
  query copy. PostgreSQL's \<open>%.17g\<close> formatting, \<open>escape_json\<close> and \<open>jsonb_in\<close> are parameters of the
  final function.
\<close>

section \<open>State\<close>

record topk_entry =
  tk_chunk_id :: i64
  tk_source_text :: "bytes option"
  tk_source_len :: i32
  tk_distance :: f64
  tk_similarity :: f64

record TopKState =
  ts_capacity :: i32
  ts_metric :: i32
  ts_qvec :: "f32 list"
  ts_heap :: "topk_entry list"

section \<open>Helpers\<close>

definition topk_decode_vec :: "bytes \<Rightarrow> f32 list result" where
  "topk_decode_vec vb =
     (let len = length vb in
      if len mod MALUDB_VEC_BYTES_PER_ELEMENT \<noteq> 0
      then Inl (Ereport ERRCODE_INVALID_BINARY_REPRESENTATION
        (''vector length '' @ fmt_nat len @ '' not multiple of ''
           @ fmt_nat MALUDB_VEC_BYTES_PER_ELEMENT))
      else Inr (vec_floats vb))"

definition topk_compute_distance :: "int \<Rightarrow> f32 list \<Rightarrow> f32 list \<Rightarrow> f64 result" where
  "topk_compute_distance metric a b =
     (if length a \<noteq> length b
      then Inl (Ereport ERRCODE_DATA_EXCEPTION
        (''vector dim mismatch: '' @ fmt_nat (length a) @ '' vs '' @ fmt_nat (length b)))
      else if metric = MALUDB_METRIC_L2 then Inr (l2_loop a b)
      else let dot = dot_loop a b in
           if metric = MALUDB_METRIC_COSINE then Inr (f64_sub f64_one dot) else Inr (f64_neg dot))"

definition topk_gt :: "topk_entry \<Rightarrow> topk_entry \<Rightarrow> bool" where
  "topk_gt x y \<longleftrightarrow> f64_gt (tk_distance x) (tk_distance y)"

definition topk_sift_up :: "topk_entry list \<Rightarrow> nat \<Rightarrow> topk_entry list" where
  "topk_sift_up h i = sift_up_by topk_gt h i"

definition topk_sift_down :: "topk_entry list \<Rightarrow> nat \<Rightarrow> nat \<Rightarrow> topk_entry list" where
  "topk_sift_down h n i = sift_down_by topk_gt h n i"

definition topk_cmp_distance_asc :: "topk_entry compar" where
  "topk_cmp_distance_asc ea eb =
     (if f64_lt (tk_distance ea) (tk_distance eb) then - 1
      else if f64_gt (tk_distance ea) (tk_distance eb) then 1
      else if sint (tk_chunk_id ea) < sint (tk_chunk_id eb) then - 1
      else if sint (tk_chunk_id ea) > sint (tk_chunk_id eb) then 1
      else 0)"

definition parse_metric :: "string \<Rightarrow> int result" where
  "parse_metric m =
     (if m = ''cosine'' then Inr MALUDB_METRIC_COSINE
      else if m = ''l2'' then Inr MALUDB_METRIC_L2
      else if m = ''inner_product'' then Inr MALUDB_METRIC_INNER
      else Inl (Ereport ERRCODE_INVALID_PARAMETER_VALUE (''unknown distance metric: '' @ m)))"

definition state_new :: "i32 \<Rightarrow> i32 \<Rightarrow> TopKState" where
  "state_new k metric = \<lparr>ts_capacity = k, ts_metric = metric, ts_qvec = [], ts_heap = []\<rparr>"

definition state_set_query :: "TopKState \<Rightarrow> bytes \<Rightarrow> TopKState result" where
  "state_set_query state qb =
     andthen (topk_decode_vec qb) (\<lambda>src. Inr (state\<lparr>ts_qvec := src\<rparr>))"

text \<open>
  A copy of a non-empty text is stored with its length; an empty or NULL text is stored as NULL
  with length zero. \<open>txt_len\<close> is a C \<open>int\<close>.
\<close>

definition offer_entry :: "i64 \<Rightarrow> bytes option \<Rightarrow> f64 \<Rightarrow> f64 \<Rightarrow> topk_entry" where
  "offer_entry cid txt dist sim =
     (case txt of
        Some t \<Rightarrow>
          if 0 < length t
          then \<lparr>tk_chunk_id = cid, tk_source_text = Some t, tk_source_len = of_nat (length t),
                tk_distance = dist, tk_similarity = sim\<rparr>
          else \<lparr>tk_chunk_id = cid, tk_source_text = None, tk_source_len = 0,
                tk_distance = dist, tk_similarity = sim\<rparr>
      | None \<Rightarrow> \<lparr>tk_chunk_id = cid, tk_source_text = None, tk_source_len = 0,
                 tk_distance = dist, tk_similarity = sim\<rparr>)"

definition state_offer :: "TopKState \<Rightarrow> i64 \<Rightarrow> bytes option \<Rightarrow> f64 \<Rightarrow> f64 \<Rightarrow> TopKState" where
  "state_offer state cid txt dist sim =
     (let heap = ts_heap state; n = length heap; e = offer_entry cid txt dist sim in
      if int n < sint (ts_capacity state)
      then state\<lparr>ts_heap := topk_sift_up (heap @ [e]) n\<rparr>
      else if sint (ts_capacity state) > 0 \<and> f64_lt dist (tk_distance (heap ! 0))
      then state\<lparr>ts_heap := topk_sift_down (heap[0 := e]) n 0\<rparr>
      else state)"

section \<open>Transition and combine functions\<close>

text \<open>The SQL arguments of one call, each possibly NULL.\<close>

record sfunc_args =
  arg_embedding :: "bytes option"
  arg_chunk_id :: "i64 option"
  arg_source_text :: "bytes option"
  arg_query :: "bytes option"
  arg_k :: "i32 option"
  arg_metric :: "string option"

definition maludb_topk_vector_sfunc ::
  "bool \<Rightarrow> TopKState option \<Rightarrow> sfunc_args \<Rightarrow> TopKState option result" where
  "maludb_topk_vector_sfunc agg_context state args =
     (if \<not> agg_context
      then Inl (Ereport ERRCODE_FEATURE_NOT_SUPPORTED
        ''topk_vector_sfunc called outside aggregate context'')
      else case (arg_embedding args, arg_chunk_id args, arg_query args, arg_k args, arg_metric args) of
        (Some emb, Some cid, Some q, Some k, Some metric_txt) \<Rightarrow>
          andthen
            (case state of
               None \<Rightarrow>
                 if sint k \<le> 0
                 then Inl (Ereport ERRCODE_INVALID_PARAMETER_VALUE
                   ''topk_vector_search: limit must be positive'')
                 else andthen (parse_metric metric_txt) (\<lambda>m.
                   state_set_query (state_new k (of_int m)) q)
             | Some st \<Rightarrow> Inr st)
          (\<lambda>st.
          andthen (topk_decode_vec emb) (\<lambda>evec.
          andthen (topk_compute_distance (sint (ts_metric st)) (ts_qvec st) evec) (\<lambda>dist.
            let sim = (if sint (ts_metric st) = MALUDB_METRIC_COSINE then f64_sub f64_one dist
                       else f64_neg dist)
            in Inr (Some (state_offer st cid (arg_source_text args) dist sim)))))
      | _ \<Rightarrow> Inr state)"

primrec combine_loop :: "TopKState \<Rightarrow> topk_entry list \<Rightarrow> TopKState" where
  "combine_loop a [] = a"
| "combine_loop a (e # es) =
     combine_loop (state_offer a (tk_chunk_id e) (tk_source_text e) (tk_distance e) (tk_similarity e)) es"

definition maludb_topk_vector_combine ::
  "bool \<Rightarrow> TopKState option \<Rightarrow> TopKState option \<Rightarrow> TopKState option result" where
  "maludb_topk_vector_combine agg_context a b =
     (if \<not> agg_context
      then Inl (Ereport ERRCODE_FEATURE_NOT_SUPPORTED
        ''topk_vector_combine called outside aggregate context'')
      else case (a, b) of
        (None, None) \<Rightarrow> Inr None
      | (None, Some _) \<Rightarrow> Inr b
      | (Some _, None) \<Rightarrow> Inr a
      | (Some sa, Some sb) \<Rightarrow> Inr (Some (combine_loop sa (ts_heap sb))))"

section \<open>Serialisation\<close>

primrec send_entries :: "pqformat \<Rightarrow> bytes \<Rightarrow> topk_entry list \<Rightarrow> bytes" where
  "send_entries pq buf [] = buf"
| "send_entries pq buf (e # es) =
     send_entries pq
       (let b1 = pq_sendint64 pq buf (tk_chunk_id e);
            b2 = pq_sendfloat8 pq b1 (tk_distance e);
            b3 = pq_sendfloat8 pq b2 (tk_similarity e);
            b4 = pq_sendint32 pq b3 (tk_source_len e)
        in if sint (tk_source_len e) > 0
           then pq_sendbytes pq b4
             (take (nat (sint (tk_source_len e))) (case tk_source_text e of Some t \<Rightarrow> t | None \<Rightarrow> []))
           else b4) es"

definition maludb_topk_vector_serialize :: "pqformat \<Rightarrow> TopKState option \<Rightarrow> bytes result" where
  "maludb_topk_vector_serialize pq st =
     (case st of
        None \<Rightarrow> Inl (Ereport ERRCODE_NULL_VALUE_NOT_ALLOWED ''topk_vector_serialize: NULL state'')
      | Some s \<Rightarrow>
          let b1 = pq_sendint32 pq [] (ts_capacity s);
              b2 = pq_sendint32 pq b1 (of_nat (length (ts_heap s)));
              b3 = pq_sendint32 pq b2 (ts_metric s);
              b4 = pq_sendint32 pq b3 (of_nat (length (ts_qvec s)));
              b5 = (if length (ts_qvec s) > 0 then pq_sendbytes pq b4 (vec_bytes (ts_qvec s)) else b4)
          in Inr (send_entries pq b5 (ts_heap s)))"

text \<open>
  The loop that reads \<open>n\<close> entries into a heap with \<open>cap\<close> free slots. The count comes from the message
  and is not compared with the capacity: a further entry is stored behind the allocation.
\<close>

primrec recv_entries :: "pqformat \<Rightarrow> nat \<Rightarrow> nat \<Rightarrow> StringInfo \<Rightarrow> (topk_entry list \<times> StringInfo) result" where
  "recv_entries pq cap 0 buf = Inr ([], buf)"
| "recv_entries pq cap (Suc n) buf =
     andthen (pq_getmsgint64 pq buf) (\<lambda>(cid, b1).
     if cap = 0 then Inl OutOfBounds else
     andthen (pq_getmsgfloat8 pq b1) (\<lambda>(dist, b2).
     andthen (pq_getmsgfloat8 pq b2) (\<lambda>(sim, b3).
     andthen (pq_getmsgint4 pq b3) (\<lambda>(slen, b4).
     andthen (if sint slen > 0
              then andthen (pq_copymsgbytes pq b4 (nat (sint slen))) (\<lambda>(t, b5). Inr (Some t, b5))
              else Inr (None, b4)) (\<lambda>(txt, b5).
     andthen (recv_entries pq (cap - 1) n b5) (\<lambda>(es, b6).
       Inr (\<lparr>tk_chunk_id = cid, tk_source_text = txt, tk_source_len = slen,
             tk_distance = dist, tk_similarity = sim\<rparr> # es, b6)))))))"

definition maludb_topk_vector_deserialize ::
  "pqformat \<Rightarrow> bool \<Rightarrow> bytes option \<Rightarrow> TopKState result" where
  "maludb_topk_vector_deserialize pq agg_context arg =
     (if \<not> agg_context
      then Inl (Ereport ERRCODE_FEATURE_NOT_SUPPORTED
        ''topk_vector_deserialize called outside aggregate context'')
      else case arg of
        None \<Rightarrow> Inl (Ereport ERRCODE_NULL_VALUE_NOT_ALLOWED ''topk_vector_deserialize: NULL bytea'')
      | Some sbytes \<Rightarrow>
          andthen (pq_getmsgint4 pq \<lparr>si_data = sbytes, si_cursor = 0\<rparr>) (\<lambda>(k, b1).
          andthen (pq_getmsgint4 pq b1) (\<lambda>(n, b2).
          andthen (pq_getmsgint4 pq b2) (\<lambda>(metric, b3).
          andthen (pq_getmsgint4 pq b3) (\<lambda>(qdim, b4).
          andthen (if sint qdim > 0
                   then andthen (pq_copymsgbytes pq b4 (4 * nat (sint qdim))) (\<lambda>(q, b5).
                     Inr (vec_floats q, b5))
                   else Inr ([], b4)) (\<lambda>(qvec, b5).
          andthen (recv_entries pq (if sint k > 0 then nat (sint k) else 1) (nat (sint n)) b5) (\<lambda>(es, b6).
          andthen (pq_getmsgend pq b6) (\<lambda>_.
            Inr \<lparr>ts_capacity = k, ts_metric = metric, ts_qvec = qvec, ts_heap = es\<rparr>))))))))"

section \<open>The final function\<close>

definition json_entry :: "(f64 \<Rightarrow> string) \<Rightarrow> (bytes \<Rightarrow> string) \<Rightarrow> nat \<Rightarrow> topk_entry \<Rightarrow> string" where
  "json_entry fmt_g17 escape_json i e =
     ''{\"chunk_id\":'' @ fmt_d (sint (tk_chunk_id e)) @ '',\"distance\":'' @ fmt_g17 (tk_distance e)
     @ '',\"similarity\":'' @ fmt_g17 (tk_similarity e) @ '',\"rank_no\":'' @ fmt_nat (i + 1)
     @ (case tk_source_text e of
          Some t \<Rightarrow> '',\"source_text\":'' @ escape_json t
        | None \<Rightarrow> '',\"source_text\":null'')
     @ ''}''"

primrec json_entries :: "(f64 \<Rightarrow> string) \<Rightarrow> (bytes \<Rightarrow> string) \<Rightarrow> nat \<Rightarrow> topk_entry list \<Rightarrow> string" where
  "json_entries g esc i [] = []"
| "json_entries g esc i (e # es) =
     (if i > 0 then '','' else []) @ json_entry g esc i e @ json_entries g esc (Suc i) es"

definition maludb_topk_vector_finalize ::
  "(topk_entry compar \<Rightarrow> topk_entry list \<Rightarrow> topk_entry list) \<Rightarrow> (f64 \<Rightarrow> string) \<Rightarrow> (bytes \<Rightarrow> string) \<Rightarrow>
   (string \<Rightarrow> 'j result) \<Rightarrow> TopKState option \<Rightarrow> 'j option result" where
  "maludb_topk_vector_finalize qsort fmt_g17 escape_json jsonb_in state =
     (case state of
        None \<Rightarrow> Inr None
      | Some st \<Rightarrow>
          andthen (jsonb_in (''['' @ json_entries fmt_g17 escape_json 0
                               (qsort topk_cmp_distance_asc (ts_heap st)) @ '']''))
            (\<lambda>j. Inr (Some j)))"

section \<open>Running the aggregate; its specification\<close>

primrec topk_run :: "TopKState option \<Rightarrow> sfunc_args list \<Rightarrow> TopKState option result" where
  "topk_run state [] = Inr state"
| "topk_run state (a # as) = andthen (maludb_topk_vector_sfunc True state a) (\<lambda>st. topk_run st as)"

definition args_complete :: "sfunc_args \<Rightarrow> bool" where
  "args_complete a \<longleftrightarrow> arg_embedding a \<noteq> None \<and> arg_chunk_id a \<noteq> None \<and> arg_query a \<noteq> None
     \<and> arg_k a \<noteq> None \<and> arg_metric a \<noteq> None"

definition score_args :: "int \<Rightarrow> f32 list \<Rightarrow> sfunc_args \<Rightarrow> f64 result" where
  "score_args metric q a =
     andthen (topk_decode_vec (the (arg_embedding a))) (topk_compute_distance metric q)"

definition args_entry :: "int \<Rightarrow> sfunc_args \<Rightarrow> f64 \<Rightarrow> topk_entry" where
  "args_entry metric a dist =
     offer_entry (the (arg_chunk_id a)) (arg_source_text a) dist
       (if metric = MALUDB_METRIC_COSINE then f64_sub f64_one dist else f64_neg dist)"

text \<open>The scored rows: complete rows only, all scored against one query with one metric.\<close>

fun topk_candidates :: "int \<Rightarrow> f32 list \<Rightarrow> sfunc_args list \<Rightarrow> topk_entry list" where
  "topk_candidates metric q [] = []"
| "topk_candidates metric q (a # as) =
     (if args_complete a
      then (case score_args metric q a of
              Inl e \<Rightarrow> topk_candidates metric q as
            | Inr d \<Rightarrow> args_entry metric a d # topk_candidates metric q as)
      else topk_candidates metric q as)"

definition topk_key :: "topk_entry \<Rightarrow> int" where
  "topk_key e = f64_key (tk_distance e)"

definition topk_entry_ok :: "topk_entry \<Rightarrow> bool" where
  "topk_entry_ok e \<longleftrightarrow> \<not> f64_nan (tk_distance e)"

interpretation topk_heap: keyed_order topk_gt topk_key topk_entry_ok
  by unfold_locales (simp add: topk_gt_def topk_key_def topk_entry_ok_def f64_gt_key)

definition ts_cap :: "TopKState \<Rightarrow> nat" where
  "ts_cap st = nat (sint (ts_capacity st))"

lemma tk_distance_offer_entry [simp]: "tk_distance (offer_entry cid txt dist sim) = dist"
  by (simp add: offer_entry_def split: option.split)

lemma state_offer_push:
  "state_offer st cid txt dist sim =
   st\<lparr>ts_heap := bounded_push topk_gt (ts_cap st) (ts_heap st) (offer_entry cid txt dist sim)\<rparr>"
  by (auto simp: state_offer_def bounded_push_def topk_sift_up_def topk_sift_down_def topk_gt_def
      f64_gt_def ts_cap_def Let_def zless_nat_eq_int_zless)

abbreviation offer_all :: "nat \<Rightarrow> topk_entry list \<Rightarrow> topk_entry list \<Rightarrow> topk_entry list" where
  "offer_all cap es h \<equiv> fold (\<lambda>e h. bounded_push topk_gt cap h e) es h"

lemma sfunc_incomplete: "\<not> args_complete a \<Longrightarrow> maludb_topk_vector_sfunc True state a = Inr state"
  by (auto simp: maludb_topk_vector_sfunc_def args_complete_def split: option.splits)

lemma sfunc_some:
  assumes "args_complete a"
  shows "maludb_topk_vector_sfunc True (Some st) a =
    andthen (score_args (sint (ts_metric st)) (ts_qvec st) a) (\<lambda>d.
      Inr (Some (st\<lparr>ts_heap := bounded_push topk_gt (ts_cap st) (ts_heap st)
        (args_entry (sint (ts_metric st)) a d)\<rparr>)))"
proof -
  from assms obtain emb cid q k m where a: "arg_embedding a = Some emb" "arg_chunk_id a = Some cid"
    "arg_query a = Some q" "arg_k a = Some k" "arg_metric a = Some m"
    by (auto simp: args_complete_def)
  show ?thesis
    by (cases "topk_decode_vec emb")
       (simp_all add: maludb_topk_vector_sfunc_def a score_args_def args_entry_def state_offer_push Let_def)
qed

text \<open>The first complete row fixes capacity, metric and query.\<close>

definition topk_init :: "sfunc_args \<Rightarrow> TopKState result" where
  "topk_init a =
     (if sint (the (arg_k a)) \<le> 0
      then Inl (Ereport ERRCODE_INVALID_PARAMETER_VALUE ''topk_vector_search: limit must be positive'')
      else andthen (parse_metric (the (arg_metric a))) (\<lambda>m.
        state_set_query (state_new (the (arg_k a)) (of_int m)) (the (arg_query a))))"

lemma sfunc_none:
  assumes "args_complete a"
  shows "maludb_topk_vector_sfunc True None a =
    andthen (topk_init a) (\<lambda>st. maludb_topk_vector_sfunc True (Some st) a)"
  using assms
  by (auto simp: maludb_topk_vector_sfunc_def args_complete_def topk_init_def andthen_assoc
      split: option.splits)

lemma topk_run_some:
  "topk_run (Some st) rows = Inr r \<Longrightarrow>
   r = Some (st\<lparr>ts_heap := offer_all (ts_cap st)
     (topk_candidates (sint (ts_metric st)) (ts_qvec st) rows) (ts_heap st)\<rparr>)"
proof (induction rows arbitrary: st)
  case Nil
  then show ?case by simp
next
  case (Cons a rows)
  show ?case
  proof (cases "args_complete a")
    case True
    with Cons.prems obtain d where d: "score_args (sint (ts_metric st)) (ts_qvec st) a = Inr d"
      and r: "topk_run (Some (st\<lparr>ts_heap := bounded_push topk_gt (ts_cap st) (ts_heap st)
        (args_entry (sint (ts_metric st)) a d)\<rparr>)) rows = Inr r"
      by (auto simp: sfunc_some andthen_eq_Inr)
    from Cons.IH [OF r] True d show ?thesis by (simp add: ts_cap_def)
  next
    case False
    with Cons show ?thesis by (simp add: sfunc_incomplete)
  qed
qed

lemma topk_run_none:
  "topk_run None rows = Inr (Some st) \<Longrightarrow>
   \<exists>a as st0. filter args_complete rows = a # as \<and> topk_init a = Inr st0 \<and>
     topk_run (Some st0) rows = Inr (Some st)"
proof (induction rows)
  case Nil
  then show ?case by simp
next
  case (Cons a rows)
  show ?case
  proof (cases "args_complete a")
    case True
    with Cons.prems show ?thesis by (auto simp: sfunc_none andthen_eq_Inr)
  next
    case False
    with Cons show ?thesis by (simp add: sfunc_incomplete)
  qed
qed

lemma topk_decode_vec_eq_Inr: "topk_decode_vec vb = Inr v \<longleftrightarrow> length vb mod 4 = 0 \<and> v = vec_floats vb"
  by (auto simp: topk_decode_vec_def MALUDB_VEC_BYTES_PER_ELEMENT_def Let_def)

lemma parse_metric_range: "parse_metric m = Inr x \<Longrightarrow> sint (of_int x :: i32) = x"
  by (auto simp: parse_metric_def metric_defs split: if_splits)

lemma topk_init_fields:
  assumes "topk_init a = Inr st" and "args_complete a"
  shows "arg_k a = Some (ts_capacity st)" "0 < sint (ts_capacity st)" "ts_heap st = []"
    "parse_metric (the (arg_metric a)) = Inr (sint (ts_metric st))"
    "arg_query a = Some (vec_bytes (ts_qvec st))"
proof -
  from assms(2) obtain q k where a: "arg_query a = Some q" "arg_k a = Some k"
    by (auto simp: args_complete_def)
  from assms(1) a obtain m where k: "0 < sint k" and m: "parse_metric (the (arg_metric a)) = Inr m"
    and q: "length q mod 4 = 0"
    and st: "st = \<lparr>ts_capacity = k, ts_metric = of_int m, ts_qvec = vec_floats q, ts_heap = []\<rparr>"
    by (auto simp: topk_init_def state_set_query_def state_new_def andthen_eq_Inr topk_decode_vec_eq_Inr
        split: if_splits)
  from st a k show "arg_k a = Some (ts_capacity st)" "0 < sint (ts_capacity st)" "ts_heap st = []"
    by simp_all
  from parse_metric_range [OF m] m st show "parse_metric (the (arg_metric a)) = Inr (sint (ts_metric st))"
    by simp
  from st a q show "arg_query a = Some (vec_bytes (ts_qvec st))" by (simp add: vec_bytes_vec_floats)
qed

lemma topk_run_state:
  assumes "topk_run None rows = Inr (Some st)"
  shows "ts_heap st = offer_all (ts_cap st) (topk_candidates (sint (ts_metric st)) (ts_qvec st) rows) []"
    and "0 < ts_cap st"
    and "\<exists>a as. filter args_complete rows = a # as \<and> arg_k a = Some (ts_capacity st) \<and>
      parse_metric (the (arg_metric a)) = Inr (sint (ts_metric st)) \<and>
      arg_query a = Some (vec_bytes (ts_qvec st))"
proof -
  from topk_run_none [OF assms] obtain a as st0 where f: "filter args_complete rows = a # as"
    and i: "topk_init a = Inr st0" and r: "topk_run (Some st0) rows = Inr (Some st)" by blast
  from f have c: "args_complete a" by (metis filter_eq_ConsD)
  note fields = topk_init_fields [OF i c]
  from topk_run_some [OF r] fields(3)
  have st: "st = st0\<lparr>ts_heap := offer_all (ts_cap st0)
      (topk_candidates (sint (ts_metric st0)) (ts_qvec st0) rows) []\<rparr>" by simp
  then show "ts_heap st = offer_all (ts_cap st) (topk_candidates (sint (ts_metric st)) (ts_qvec st) rows) []"
    by (simp add: ts_cap_def)
  from st fields(2) show "0 < ts_cap st" by (simp add: ts_cap_def)
  from st f fields show "\<exists>a as. filter args_complete rows = a # as \<and> arg_k a = Some (ts_capacity st) \<and>
      parse_metric (the (arg_metric a)) = Inr (sint (ts_metric st)) \<and>
      arg_query a = Some (vec_bytes (ts_qvec st))"
    by simp
qed

lemma topk_run_topk:
  assumes "topk_run None rows = Inr (Some st)"
    and "\<forall>e \<in> set (topk_candidates (sint (ts_metric st)) (ts_qvec st) rows). topk_entry_ok e"
  shows "topk topk_key (ts_cap st) (ts_heap st) (mset (topk_candidates (sint (ts_metric st)) (ts_qvec st) rows))"
  using topk_heap.fold_bounded_push_topk [OF topk_empty _ assms(2), of "ts_cap st"]
    topk_run_state(1) [OF assms(1)] by simp

section \<open>Combining partial aggregates\<close>

definition reoffer :: "topk_entry \<Rightarrow> topk_entry" where
  "reoffer e = offer_entry (tk_chunk_id e) (tk_source_text e) (tk_distance e) (tk_similarity e)"

lemma reoffer_offer_entry [simp]: "reoffer (offer_entry cid txt dist sim) = offer_entry cid txt dist sim"
  by (auto simp: reoffer_def offer_entry_def split: option.splits)

lemma reoffer_candidate: "e \<in> set (topk_candidates metric q rows) \<Longrightarrow> reoffer e = e"
  by (induction rows) (auto simp: args_entry_def split: if_splits sum.splits)

lemma set_offer_all: "length h \<le> cap \<Longrightarrow> set (offer_all cap es h) \<subseteq> set es \<union> set h"
proof (induction es arbitrary: h)
  case Nil
  then show ?case by simp
next
  case (Cons e es)
  from Cons.IH [OF length_bounded_push_le [OF Cons.prems]] set_bounded_push [OF Cons.prems]
  show ?case by fastforce
qed

lemma combine_loop_offer_all:
  "\<forall>e \<in> set es. reoffer e = e \<Longrightarrow>
   combine_loop a es = a\<lparr>ts_heap := offer_all (ts_cap a) es (ts_heap a)\<rparr>"
proof (induction es arbitrary: a)
  case Nil
  then show ?case by simp
next
  case (Cons e es)
  from Cons.prems have "offer_entry (tk_chunk_id e) (tk_source_text e) (tk_distance e) (tk_similarity e) = e"
    by (simp add: reoffer_def)
  with Cons show ?case by (simp add: state_offer_push ts_cap_def)
qed

lemma combine_loop_fields:
  "ts_capacity (combine_loop a es) = ts_capacity a"
  "ts_metric (combine_loop a es) = ts_metric a"
  "ts_qvec (combine_loop a es) = ts_qvec a"
  by (induction es arbitrary: a) (simp_all add: state_offer_push)

lemma topk_run_append:
  "topk_run st (rows1 @ rows2) = andthen (topk_run st rows1) (\<lambda>st. topk_run st rows2)"
  by (induction rows1 arbitrary: st) (simp_all add: andthen_assoc)

lemma topk_candidates_append:
  "topk_candidates metric q (rows1 @ rows2) = topk_candidates metric q rows1 @ topk_candidates metric q rows2"
  by (induction rows1) (auto split: sum.splits)

lemma topk_run_defined:
  "(\<exists>r. topk_run (Some st) rows = Inr r) \<longleftrightarrow>
   (\<forall>a \<in> set rows. args_complete a \<longrightarrow> (\<exists>d. score_args (sint (ts_metric st)) (ts_qvec st) a = Inr d))"
proof (induction rows arbitrary: st)
  case Nil
  then show ?case by simp
next
  case (Cons a rows)
  show ?case
  proof (cases "args_complete a")
    case True
    show ?thesis
    proof (cases "score_args (sint (ts_metric st)) (ts_qvec st) a")
      case (Inl e)
      with True show ?thesis by (auto simp: sfunc_some)
    next
      case (Inr d)
      with True Cons [of "st\<lparr>ts_heap := bounded_push topk_gt (ts_cap st) (ts_heap st)
        (args_entry (sint (ts_metric st)) a d)\<rparr>"] show ?thesis by (simp add: sfunc_some)
    qed
  next
    case False
    with Cons show ?thesis by (simp add: sfunc_incomplete)
  qed
qed

text \<open>Two states built for the same search.\<close>

definition same_search :: "TopKState \<Rightarrow> TopKState \<Rightarrow> bool" where
  "same_search a b \<longleftrightarrow> ts_capacity a = ts_capacity b \<and> ts_metric a = ts_metric b \<and> ts_qvec a = ts_qvec b"

lemma combine_topk:
  assumes a: "topk_run None rows1 = Inr (Some a)" and b: "topk_run None rows2 = Inr (Some b)"
    and same: "same_search a b"
    and ok: "\<forall>e \<in> set (topk_candidates (sint (ts_metric a)) (ts_qvec a) (rows1 @ rows2)). topk_entry_ok e"
  shows "topk topk_key (ts_cap a) (ts_heap (combine_loop a (ts_heap b)))
    (mset (topk_candidates (sint (ts_metric a)) (ts_qvec a) (rows1 @ rows2)))"
proof -
  let ?c1 = "topk_candidates (sint (ts_metric a)) (ts_qvec a) rows1"
  let ?c2 = "topk_candidates (sint (ts_metric a)) (ts_qvec a) rows2"
  have cap: "ts_cap b = ts_cap a" and mq: "ts_metric b = ts_metric a" "ts_qvec b = ts_qvec a"
    using same by (simp_all add: same_search_def ts_cap_def)
  have ok1: "\<forall>e \<in> set ?c1. topk_entry_ok e" and ok2: "\<forall>e \<in> set ?c2. topk_entry_ok e"
    using ok by (simp_all add: topk_candidates_append)
  have ta: "topk topk_key (ts_cap a) (ts_heap a) (mset ?c1)" by (rule topk_run_topk [OF a ok1])
  have tb: "topk topk_key (ts_cap a) (ts_heap b) (mset ?c2)"
    using topk_run_topk [OF b] ok2 cap mq by simp
  then have "mset (ts_heap b) \<subseteq># mset ?c2" by (simp add: topk_def)
  then have sub: "set (ts_heap b) \<subseteq> set ?c2" by (metis set_mset_mono set_mset_mset)
  then have "\<forall>e \<in> set (ts_heap b). reoffer e = e" using reoffer_candidate by blast
  then have "ts_heap (combine_loop a (ts_heap b)) = offer_all (ts_cap a) (ts_heap b) (ts_heap a)"
    by (simp add: combine_loop_offer_all)
  moreover have "topk topk_key (ts_cap a) (offer_all (ts_cap a) (ts_heap b) (ts_heap a))
      (mset ?c1 + mset (ts_heap b))"
    by (rule topk_heap.fold_bounded_push_topk [OF ta]) (use ok1 ok2 sub in auto)
  ultimately have "topk topk_key (ts_cap a) (ts_heap (combine_loop a (ts_heap b))) (mset ?c1 + mset ?c2)"
    using topk_merge [OF tb] by simp
  then show ?thesis by (simp add: topk_candidates_append)
qed

lemma topk_sort_keys: "topk key cap h (mset cs) \<Longrightarrow> sort (map key h) = take cap (sort (map key cs))"
  using topk_sorted_keys [of key cap h cs "sort_key key h"] by (metis mset_sort sorted_sort_key mset_map properties_for_sort)

text \<open>
  C8. The aggregate keeps the nearest rows. After any sequence of rows, with no NaN distance, the
  entries in the order the final function prints them carry exactly the smallest candidate
  distances, as many as the capacity allows, in ascending order; capacity, metric and query are
  those of the first complete row; rows with a NULL among the required arguments contribute
  nothing.
\<close>

theorem aggregate_keeps_k_nearest:
  assumes "topk_run None rows = Inr (Some st)" and "qsort_ok qsort"
    and "\<forall>e \<in> set (topk_candidates (sint (ts_metric st)) (ts_qvec st) rows). \<not> f64_nan (tk_distance e)"
  shows "map (\<lambda>e. f64_key (tk_distance e)) (qsort topk_cmp_distance_asc (ts_heap st)) =
      take (nat (sint (ts_capacity st)))
        (sort (map (\<lambda>e. f64_key (tk_distance e)) (topk_candidates (sint (ts_metric st)) (ts_qvec st) rows)))
    \<and> mset (ts_heap st) \<subseteq># mset (topk_candidates (sint (ts_metric st)) (ts_qvec st) rows)
    \<and> (\<exists>a as. filter args_complete rows = a # as \<and> arg_k a = Some (ts_capacity st) \<and>
        parse_metric (the (arg_metric a)) = Inr (sint (ts_metric st)) \<and>
        arg_query a = Some (vec_bytes (ts_qvec st)))"
proof -
  let ?cs = "topk_candidates (sint (ts_metric st)) (ts_qvec st) rows"
  have tk: "topk topk_key (ts_cap st) (ts_heap st) (mset ?cs)"
    using topk_run_topk [OF assms(1)] assms(3) by (simp add: topk_entry_ok_def)
  then have sub: "mset (ts_heap st) \<subseteq># mset ?cs" by (simp add: topk_def)
  have cmp: "topk_cmp_distance_asc = cmp_dist_id tk_distance tk_chunk_id"
    by (intro ext) (simp add: topk_cmp_distance_asc_def cmp_dist_id_def)
  have nn: "\<forall>x \<in> set (ts_heap st). \<not> f64_nan (tk_distance x)"
    using sub assms(3) by (metis mset_subset_eqD set_mset_mset)
  note q = qsort_dist_id [OF assms(2), where dist = tk_distance and cid = tk_chunk_id and xs = "ts_heap st"]
  have key: "topk_key = (\<lambda>e. f64_key (tk_distance e))" by (rule ext) (rule topk_key_def)
  have "sorted (map topk_key (qsort topk_cmp_distance_asc (ts_heap st)))"
    using sorted_keys_of_dist_id [OF q(2) [OF nn]] unfolding cmp key .
  with topk_sorted_keys [OF tk] q(1)
  have "map topk_key (qsort topk_cmp_distance_asc (ts_heap st)) = take (ts_cap st) (sort (map topk_key ?cs))"
    unfolding cmp by blast
  then show ?thesis using sub topk_run_state(3) [OF assms(1)] unfolding key ts_cap_def by blast
qed

text \<open>
  C3. Parallel aggregation is sound: when two parts of the input are aggregated with the same capacity,
  metric and query, and no candidate distance of either part is NaN, combining the two states gives
  the same distances as running the aggregate on the whole input, which then succeeds too.
\<close>

theorem combine_is_sequential_aggregate:
  assumes "topk_run None rows1 = Inr (Some a)" and "topk_run None rows2 = Inr (Some b)"
    and "same_search a b"
    and "\<forall>e \<in> set (topk_candidates (sint (ts_metric a)) (ts_qvec a) (rows1 @ rows2)). \<not> f64_nan (tk_distance e)"
  shows "\<exists>c d. maludb_topk_vector_combine True (Some a) (Some b) = Inr (Some c) \<and>
    topk_run None (rows1 @ rows2) = Inr (Some d) \<and> same_search c d \<and>
    sort (map (\<lambda>e. f64_key (tk_distance e)) (ts_heap c)) = sort (map (\<lambda>e. f64_key (tk_distance e)) (ts_heap d))"
proof -
  let ?cs = "topk_candidates (sint (ts_metric a)) (ts_qvec a) (rows1 @ rows2)"
  have ok: "\<forall>e \<in> set ?cs. topk_entry_ok e" using assms(4) by (simp add: topk_entry_ok_def)
  let ?c = "combine_loop a (ts_heap b)"
  have c: "maludb_topk_vector_combine True (Some a) (Some b) = Inr (Some ?c)"
    by (simp add: maludb_topk_vector_combine_def)
  from topk_run_none [OF assms(2)] obtain a0 as st0 where i: "topk_init a0 = Inr st0"
    and r0: "topk_run (Some st0) rows2 = Inr (Some b)" by blast
  from topk_run_some [OF r0] have b0: "ts_metric b = ts_metric st0" "ts_qvec b = ts_qvec st0" by simp_all
  have "\<exists>r. topk_run (Some st0) rows2 = Inr r" using r0 by blast
  then have "\<exists>r. topk_run (Some a) rows2 = Inr r"
    using assms(3) b0 by (simp add: topk_run_defined same_search_def)
  then obtain r where r: "topk_run (Some a) rows2 = Inr r" by blast
  from topk_run_some [OF r] obtain d where d: "r = Some d"
    "ts_capacity d = ts_capacity a" "ts_metric d = ts_metric a" "ts_qvec d = ts_qvec a" by simp
  have rd: "topk_run None (rows1 @ rows2) = Inr (Some d)"
    using assms(1) r d(1) by (simp add: topk_run_append)
  have td: "topk topk_key (ts_cap a) (ts_heap d) (mset ?cs)"
    using topk_run_topk [OF rd] ok d by (simp add: ts_cap_def)
  have tc: "topk topk_key (ts_cap a) (ts_heap ?c) (mset ?cs)"
    by (rule combine_topk [OF assms(1,2,3) ok])
  have "sort (map topk_key (ts_heap ?c)) = sort (map topk_key (ts_heap d))"
    using topk_sort_keys [OF tc] topk_sort_keys [OF td] by simp
  moreover have "topk_key = (\<lambda>e. f64_key (tk_distance e))" by (rule ext) (rule topk_key_def)
  moreover have "same_search ?c d" using d by (simp add: same_search_def combine_loop_fields)
  ultimately show ?thesis using c rd by metis
qed

section \<open>The serialised form\<close>

text \<open>Well-formed states: what the transition and combine functions build.\<close>

definition entry_wf :: "topk_entry \<Rightarrow> bool" where
  "entry_wf e \<longleftrightarrow>
     (case tk_source_text e of
        None \<Rightarrow> tk_source_len e = 0
      | Some t \<Rightarrow> 0 < length t \<and> length t < 2 ^ 31 \<and> tk_source_len e = of_nat (length t))"

definition state_wf :: "TopKState \<Rightarrow> bool" where
  "state_wf st \<longleftrightarrow> 0 < sint (ts_capacity st) \<and> int (length (ts_heap st)) \<le> sint (ts_capacity st) \<and>
     length (ts_qvec st) < 2 ^ 31 \<and> (\<forall>e \<in> set (ts_heap st). entry_wf e)"

lemma sint_of_nat_i32: "n < 2 ^ 31 \<Longrightarrow> sint (of_nat n :: i32) = int n"
  by (simp add: signed_of_nat signed_take_bit_int_eq_self)

lemma sint_i32_less: "sint (w :: i32) < 2 ^ 31"
  using sint_less [of w] by simp

lemma entry_wf_offer:
  "(\<forall>t. txt = Some t \<longrightarrow> length t < 2 ^ 31) \<Longrightarrow> entry_wf (offer_entry cid txt dist sim)"
  by (auto simp: entry_wf_def offer_entry_def split: option.splits)

lemma entry_wf_reoffer: "entry_wf e \<Longrightarrow> entry_wf (reoffer e)"
  unfolding reoffer_def by (rule entry_wf_offer) (simp add: entry_wf_def split: option.splits)

lemma state_wf_push:
  assumes "state_wf st" and "entry_wf e"
  shows "state_wf (st\<lparr>ts_heap := bounded_push topk_gt (ts_cap st) (ts_heap st) e\<rparr>)"
proof -
  from assms(1) have len: "length (ts_heap st) \<le> ts_cap st" by (auto simp: state_wf_def ts_cap_def)
  have "int (length (bounded_push topk_gt (ts_cap st) (ts_heap st) e)) \<le> sint (ts_capacity st)"
    using length_bounded_push_le [OF len, of topk_gt e] assms(1) unfolding ts_cap_def state_wf_def by linarith
  with set_bounded_push [OF len, of topk_gt e] assms show ?thesis by (auto simp: state_wf_def)
qed

text \<open>The encoding of an entry, and the two loops over it.\<close>

definition enc_text :: "topk_entry \<Rightarrow> bytes" where
  "enc_text e = (case tk_source_text e of Some t \<Rightarrow> t | None \<Rightarrow> [])"

definition enc_entry :: "(i32 \<Rightarrow> bytes) \<Rightarrow> (i64 \<Rightarrow> bytes) \<Rightarrow> (f64 \<Rightarrow> bytes) \<Rightarrow> topk_entry \<Rightarrow> bytes" where
  "enc_entry e32 e64 ef8 e =
     e64 (tk_chunk_id e) @ ef8 (tk_distance e) @ ef8 (tk_similarity e) @ e32 (tk_source_len e) @ enc_text e"

lemma entry_wf_text:
  assumes "entry_wf e"
  shows "0 < sint (tk_source_len e) \<Longrightarrow>
      nat (sint (tk_source_len e)) = length (enc_text e) \<and> tk_source_text e = Some (enc_text e)"
    and "\<not> 0 < sint (tk_source_len e) \<Longrightarrow> enc_text e = [] \<and> tk_source_text e = None"
  using assms sint_of_nat_i32 [of "length (enc_text e)"]
  by (auto simp: entry_wf_def enc_text_def split: option.splits)

context wire_format
begin

lemma send_entries_enc:
  "\<forall>e \<in> set es. entry_wf e \<Longrightarrow>
   send_entries pq buf es = buf @ concat (map (enc_entry e32 e64 ef8) es)"
proof (induction es arbitrary: buf)
  case Nil
  then show ?case by simp
next
  case (Cons e es)
  then have wf: "entry_wf e" by simp
  have "(if 0 < sint (tk_source_len e)
      then pq_sendbytes pq b (take (nat (sint (tk_source_len e))) (case tk_source_text e of Some t \<Rightarrow> t | None \<Rightarrow> []))
      else b) = b @ enc_text e" for b
    using entry_wf_text [OF wf] by (auto simp: sendbytes enc_text_def)
  with Cons show ?case by (simp add: Let_def send32 send64 sendf8 enc_entry_def)
qed

lemma recv_entries_enc:
  "\<forall>e \<in> set es. entry_wf e \<Longrightarrow> length es \<le> cap \<Longrightarrow>
   si_rest b = concat (map (enc_entry e32 e64 ef8) es) @ rest \<Longrightarrow>
   \<exists>b'. recv_entries pq cap (length es) b = Inr (es, b') \<and> si_rest b' = rest"
proof (induction es arbitrary: b cap)
  case Nil
  then show ?case by simp
next
  case (Cons e es)
  let ?tail = "concat (map (enc_entry e32 e64 ef8) es) @ rest"
  from Cons.prems have wf: "entry_wf e"
    and r: "si_rest b = e64 (tk_chunk_id e) @ ef8 (tk_distance e) @ ef8 (tk_similarity e) @
      e32 (tk_source_len e) @ enc_text e @ ?tail"
    by (simp_all add: enc_entry_def [of e32 e64 ef8 e])
  note 1 = recv64 [OF r]
  note 2 = recvf8 [OF 1 [THEN conjunct2]]
  note 3 = recvf8 [OF 2 [THEN conjunct2]]
  note 4 = recv32 [OF 3 [THEN conjunct2]]
  let ?b4 = "si_advance (si_advance (si_advance (si_advance b 8) 8) 8) 4"
  obtain b5 where 5: "(if 0 < sint (tk_source_len e)
        then andthen (pq_copymsgbytes pq ?b4 (nat (sint (tk_source_len e)))) (\<lambda>(t, b5). Inr (Some t, b5))
        else Inr (None, ?b4)) = Inr (tk_source_text e, b5) \<and> si_rest b5 = ?tail"
  proof (cases "0 < sint (tk_source_len e)")
    case True
    with that recvbytes [OF 4 [THEN conjunct2], of "length (enc_text e)"] entry_wf_text(1) [OF wf True]
    show ?thesis by auto
  next
    case False
    with that 4 entry_wf_text(2) [OF wf False] show ?thesis by auto
  qed
  have "\<exists>b'. recv_entries pq (cap - 1) (length es) b5 = Inr (es, b') \<and> si_rest b' = rest"
    by (rule Cons.IH) (use Cons.prems 5 in auto)
  then obtain b6 where 6: "recv_entries pq (cap - 1) (length es) b5 = Inr (es, b6)" "si_rest b6 = rest" by blast
  from 1 2 3 4 5 6 Cons.prems(2) show ?case by simp
qed

lemma state_roundtrip:
  assumes wf: "state_wf st"
  shows "andthen (maludb_topk_vector_serialize pq (Some st))
      (\<lambda>bs. maludb_topk_vector_deserialize pq True (Some bs)) = Inr st"
proof -
  let ?q = "vec_bytes (ts_qvec st)" and ?es = "concat (map (enc_entry e32 e64 ef8) (ts_heap st))"
  let ?bs = "e32 (ts_capacity st) @ e32 (of_nat (length (ts_heap st))) @ e32 (ts_metric st) @
    e32 (of_nat (length (ts_qvec st))) @ ?q @ ?es @ []"
  from wf have ewf: "\<forall>e \<in> set (ts_heap st). entry_wf e" and ql: "length (ts_qvec st) < 2 ^ 31"
    and hl: "length (ts_heap st) < 2 ^ 31"
    using sint_i32_less [of "ts_capacity st"] by (auto simp: state_wf_def)
  have ser: "maludb_topk_vector_serialize pq (Some st) = Inr ?bs"
    using send_entries_enc [OF ewf]
    by (simp add: maludb_topk_vector_serialize_def Let_def send32 sendbytes del: vec_bytes.simps) auto
  have r: "si_rest \<lparr>si_data = ?bs, si_cursor = 0\<rparr> = ?bs" by (simp add: si_rest_def)
  let ?b = "\<lparr>si_data = ?bs, si_cursor = 0\<rparr>"
  note 1 = recv32 [OF r]
  note 2 = recv32 [OF 1 [THEN conjunct2]]
  note 3 = recv32 [OF 2 [THEN conjunct2]]
  note 4 = recv32 [OF 3 [THEN conjunct2]]
  let ?b4 = "si_advance (si_advance (si_advance (si_advance ?b 4) 4) 4) 4"
  obtain b5 where 5: "(if 0 < sint (of_nat (length (ts_qvec st)) :: i32)
        then andthen (pq_copymsgbytes pq ?b4 (4 * nat (sint (of_nat (length (ts_qvec st)) :: i32))))
          (\<lambda>(q, b5). Inr (vec_floats q, b5))
        else Inr ([], ?b4)) = Inr (ts_qvec st, b5) \<and> si_rest b5 = ?es @ []"
  proof (cases "ts_qvec st = []")
    case True
    with that 4 show ?thesis by auto
  next
    case False
    with that recvbytes [OF 4 [THEN conjunct2], of "length ?q"] sint_of_nat_i32 [OF ql] show ?thesis by auto
  qed
  let ?cap = "if 0 < sint (ts_capacity st) then nat (sint (ts_capacity st)) else 1"
  have "length (ts_heap st) \<le> ?cap" using wf by (auto simp: state_wf_def)
  from recv_entries_enc [OF ewf this 5 [THEN conjunct2]] obtain b6 where
    6: "recv_entries pq ?cap (length (ts_heap st)) b5 = Inr (ts_heap st, b6)" "si_rest b6 = []" by blast
  have n: "nat (sint (of_nat (length (ts_heap st)) :: i32)) = length (ts_heap st)"
    using sint_of_nat_i32 [OF hl] by simp
  have "maludb_topk_vector_deserialize pq True (Some ?bs) = Inr st"
    unfolding maludb_topk_vector_deserialize_def
    by (simp only: simp_thms if_False option.case prod.case andthen_Inr n 6(1) recvend [OF 6(2)]
        1 [THEN conjunct1] 2 [THEN conjunct1] 3 [THEN conjunct1] 4 [THEN conjunct1] 5 [THEN conjunct1])
       simp
  with ser show ?thesis by simp
qed

end

section \<open>Correctness of the wire form and of the invariant\<close>

text \<open>
  C9. A worker's state survives the trip to the leader: deserialising a serialised well-formed
  state gives the same state back, for any message format whose readers undo its writers.
\<close>

theorem topk_state_wire_roundtrip:
  assumes "pqformat_ok pq" and "state_wf st"
  shows "andthen (maludb_topk_vector_serialize pq (Some st))
      (\<lambda>bs. maludb_topk_vector_deserialize pq True (Some bs)) = Inr st"
proof -
  from assms(1) obtain e32 e64 ef8 where "wire_format pq e32 e64 ef8" by (rule pqformat_ok_wire)
  from wire_format.state_roundtrip [OF this assms(2)] show ?thesis .
qed

definition sample_state :: TopKState where
  "sample_state = \<lparr>ts_capacity = 2, ts_metric = 2, ts_qvec = [0x3F800000],
     ts_heap = [\<lparr>tk_chunk_id = 7, tk_source_text = Some [104, 105], tk_source_len = 2,
       tk_distance = 0x3FF0000000000000, tk_similarity = 0xBFF0000000000000\<rparr>]\<rparr>"

lemma sample_state_wf: "state_wf sample_state"
  by (simp add: state_wf_def sample_state_def entry_wf_def)

theorem topk_state_wire_roundtrip_witness:
  "pqformat_ok pq_network \<and> state_wf sample_state \<and>
   andthen (maludb_topk_vector_serialize pq_network (Some sample_state))
     (\<lambda>bs. maludb_topk_vector_deserialize pq_network True (Some bs)) = Inr sample_state"
  using topk_state_wire_roundtrip [OF pq_network_ok sample_state_wf] pq_network_ok sample_state_wf
  by (intro conjI)

text \<open>What a varlena argument satisfies: it is shorter than one gigabyte.\<close>

definition args_sane :: "sfunc_args \<Rightarrow> bool" where
  "args_sane a \<longleftrightarrow> (\<forall>t. arg_source_text a = Some t \<longrightarrow> length t < 2 ^ 30) \<and>
     (\<forall>q. arg_query a = Some q \<longrightarrow> length q < 2 ^ 30)"

lemma topk_init_wf:
  assumes "topk_init a = Inr st" and "args_complete a" and "args_sane a"
  shows "state_wf st"
proof -
  note f = topk_init_fields [OF assms(1,2)]
  from f(5) assms(3) have "4 * length (ts_qvec st) < 2 ^ 30" by (auto simp: args_sane_def)
  with f(2,3) show ?thesis by (simp add: state_wf_def)
qed

lemma sfunc_some_wf:
  assumes "maludb_topk_vector_sfunc True (Some st) a = Inr (Some st')" and "state_wf st" and "args_sane a"
  shows "state_wf st'"
proof (cases "args_complete a")
  case True
  with assms(1) obtain d where
    "st' = st\<lparr>ts_heap := bounded_push topk_gt (ts_cap st) (ts_heap st) (args_entry (sint (ts_metric st)) a d)\<rparr>"
    by (auto simp: sfunc_some andthen_eq_Inr)
  moreover have "entry_wf (args_entry (sint (ts_metric st)) a d)"
    unfolding args_entry_def by (rule entry_wf_offer) (use assms(3) in \<open>auto simp: args_sane_def\<close>)
  ultimately show ?thesis using state_wf_push [OF assms(2)] by simp
next
  case False
  with assms show ?thesis by (simp add: sfunc_incomplete)
qed

lemma combine_loop_wf: "state_wf a \<Longrightarrow> \<forall>e \<in> set es. entry_wf e \<Longrightarrow> state_wf (combine_loop a es)"
proof (induction es arbitrary: a)
  case Nil
  then show ?case by simp
next
  case (Cons e es)
  have "state_wf (state_offer a (tk_chunk_id e) (tk_source_text e) (tk_distance e) (tk_similarity e))"
    using state_wf_push [OF Cons.prems(1) entry_wf_reoffer] Cons.prems(2)
    by (simp add: state_offer_push reoffer_def)
  with Cons show ?case by simp
qed

text \<open>
  Every state the aggregate builds is well-formed: the transition function and the combine
  function keep the heap within the capacity (every heap store is in bounds), the recorded
  text lengths equal to the stored texts, and all counts representable in the wire fields.
\<close>

lemma topk_state_invariant:
  assumes "\<forall>s. state = Some s \<longrightarrow> state_wf s" and "args_sane args"
  shows "(maludb_topk_vector_sfunc agg state args = Inr (Some st) \<longrightarrow> state_wf st) \<and>
    (\<forall>other. maludb_topk_vector_combine agg state (Some other) = Inr (Some st) \<longrightarrow> state_wf other \<longrightarrow> state_wf st)"
proof (intro conjI allI impI)
  assume s: "maludb_topk_vector_sfunc agg state args = Inr (Some st)"
  then have agg: "agg" by (auto simp: maludb_topk_vector_sfunc_def split: if_splits)
  show "state_wf st"
  proof (cases state)
    case (Some s0)
    with s agg assms sfunc_some_wf [of s0 args st] show ?thesis by simp
  next
    case None
    then have c: "args_complete args" using s agg sfunc_incomplete [of args None] by auto
    with s agg None obtain st0 where "topk_init args = Inr st0"
      "maludb_topk_vector_sfunc True (Some st0) args = Inr (Some st)"
      by (auto simp: sfunc_none andthen_eq_Inr)
    with topk_init_wf [OF _ c assms(2)] sfunc_some_wf assms(2) show ?thesis by blast
  qed
next
  fix other assume c: "maludb_topk_vector_combine agg state (Some other) = Inr (Some st)" and o: "state_wf other"
  from o have "\<forall>e \<in> set (ts_heap other). entry_wf e" by (simp add: state_wf_def)
  then show "state_wf st"
    using c o assms(1) combine_loop_wf
    by (auto simp: maludb_topk_vector_combine_def split: if_splits option.splits)
qed

text \<open>A search for the two nearest of three one-dimensional rows, one of them incomplete.\<close>

definition sample_args :: "i64 \<Rightarrow> f32 \<Rightarrow> sfunc_args" where
  "sample_args i x = \<lparr>arg_embedding = Some (vec_bytes [x]), arg_chunk_id = Some i,
     arg_source_text = None, arg_query = Some (vec_bytes [0x3F800000]), arg_k = Some 1,
     arg_metric = Some ''l2''\<rparr>"

definition sample_init :: TopKState where
  "sample_init = \<lparr>ts_capacity = 1, ts_metric = 2, ts_qvec = [0x3F800000], ts_heap = []\<rparr>"

lemma topk_decode_vec_vec_bytes [simp]: "topk_decode_vec (vec_bytes v) = Inr v"
  by (simp add: topk_decode_vec_eq_Inr)

lemma sample_args_complete: "args_complete (sample_args i x)"
  by (simp add: args_complete_def sample_args_def)

lemma sample_topk_init: "topk_init (sample_args i x) = Inr sample_init"
  by (simp add: topk_init_def sample_args_def sample_init_def parse_metric_def metric_defs
      state_set_query_def state_new_def del: vec_bytes.simps)

lemma sample_scores:
  "score_args 2 [0x3F800000] (sample_args i 0x40000000) = Inr 0x3FF0000000000000"
  "score_args 2 [0x3F800000] (sample_args i 0x3F800000) = Inr 0"
proof -
  have "topk_compute_distance 2 [0x3F800000] [0x40000000] = Inr 0x3FF0000000000000"
    "topk_compute_distance 2 [0x3F800000] [0x3F800000] = Inr 0" by code_simp+
  then show "score_args 2 [0x3F800000] (sample_args i 0x40000000) = Inr 0x3FF0000000000000"
    "score_args 2 [0x3F800000] (sample_args i 0x3F800000) = Inr 0"
    by (simp_all add: score_args_def sample_args_def del: vec_bytes.simps)
qed

lemma topk_state_invariant_example:
  "\<exists>st. maludb_topk_vector_sfunc True None (sample_args 7 0x40000000) = Inr (Some st) \<and> state_wf st"
proof -
  have sane: "args_sane (sample_args 7 0x40000000)"
    by (simp add: args_sane_def sample_args_def del: vec_bytes.simps)
  have "\<exists>st. maludb_topk_vector_sfunc True None (sample_args 7 0x40000000) = Inr (Some st)"
    using sample_scores(1) [of 7]
    by (simp add: sfunc_none sample_args_complete sample_topk_init sfunc_some sample_init_def)
  then obtain st where st: "maludb_topk_vector_sfunc True None (sample_args 7 0x40000000) = Inr (Some st)" ..
  from topk_state_invariant [of None "sample_args 7 0x40000000" True st] st sane show ?thesis by auto
qed

lemma sample_run:
  assumes "\<forall>a \<in> set (sample_args i x # rows). \<exists>j y. a = sample_args j y \<and> y \<in> {0x40000000, 0x3F800000}"
  shows "\<exists>st. topk_run None (sample_args i x # rows) = Inr (Some st) \<and>
    ts_capacity st = 1 \<and> ts_metric st = 2 \<and> ts_qvec st = [0x3F800000]"
proof -
  let ?rows = "sample_args i x # rows"
  have "\<exists>d. score_args 2 [0x3F800000] a = Inr d" if "a \<in> set ?rows" for a
  proof -
    from assms that obtain j y where "a = sample_args j y" "y \<in> {0x40000000, 0x3F800000}" by blast
    then show ?thesis using sample_scores [of j] by auto
  qed
  then have "\<exists>r. topk_run (Some sample_init) ?rows = Inr r"
    unfolding topk_run_defined by (simp add: sample_init_def)
  moreover have "topk_run None ?rows = topk_run (Some sample_init) ?rows"
    by (simp add: sfunc_none sample_args_complete sample_topk_init)
  ultimately obtain r where r: "topk_run (Some sample_init) ?rows = Inr r" "topk_run None ?rows = Inr r" by auto
  from topk_run_some [OF r(1)] r(2) show ?thesis by (simp add: sample_init_def)
qed

lemma sample_topk_candidates:
  "map tk_distance (topk_candidates 2 [0x3F800000] [sample_args 7 0x40000000, sample_args 8 0x3F800000])
   = [0x3FF0000000000000, 0]"
  by (simp add: sample_args_complete sample_scores args_entry_def)

theorem aggregate_keeps_k_nearest_witness:
  "\<exists>st. topk_run None [sample_args 7 0x40000000, sample_args 8 0x3F800000] = Inr (Some st) \<and>
     map (\<lambda>e. f64_key (tk_distance e)) (insertion_qsort topk_cmp_distance_asc (ts_heap st)) = [0]"
proof -
  let ?rows = "[sample_args 7 0x40000000, sample_args 8 0x3F800000]"
  obtain st where st: "topk_run None ?rows = Inr (Some st)" "ts_capacity st = 1" "ts_metric st = 2"
    "ts_qvec st = [0x3F800000]"
    using sample_run [of 7 "0x40000000" "[sample_args 8 0x3F800000]"] by auto
  have m: "sint (2 :: i32) = 2" by simp
  have keys: "f64_key 0x3FF0000000000000 = 0x3FF0000000000000" "f64_key 0 = 0"
    "\<not> f64_nan 0x3FF0000000000000" by code_simp+
  let ?cs = "topk_candidates 2 [0x3F800000] ?rows"
  have nn: "\<forall>e \<in> set ?cs. \<not> f64_nan (tk_distance e)"
    by (rule list_all_mapD [OF sample_topk_candidates]) (simp add: keys)
  have "map (\<lambda>e. f64_key (tk_distance e)) ?cs = map f64_key (map tk_distance ?cs)"
    by (simp only: map_map o_def)
  then have srt: "sort (map (\<lambda>e. f64_key (tk_distance e)) ?cs) = [0, 0x3FF0000000000000]"
    unfolding sample_topk_candidates by (simp add: keys)
  note res = aggregate_keeps_k_nearest [OF st(1) insertion_qsort_ok, unfolded st(2-4) m, OF nn]
  from res [THEN conjunct1] have "map (\<lambda>e. f64_key (tk_distance e)) (insertion_qsort topk_cmp_distance_asc (ts_heap st)) = [0]"
    unfolding srt nat_sint_1 take_Suc_Cons One_nat_def take_0 .
  with st(1) show ?thesis by (intro exI [of _ st] conjI)
qed

theorem combine_is_sequential_aggregate_witness:
  "\<exists>a b c d. topk_run None [sample_args 7 0x40000000] = Inr (Some a) \<and>
     topk_run None [sample_args 8 0x3F800000] = Inr (Some b) \<and>
     maludb_topk_vector_combine True (Some a) (Some b) = Inr (Some c) \<and>
     topk_run None ([sample_args 7 0x40000000] @ [sample_args 8 0x3F800000]) = Inr (Some d) \<and>
     sort (map (\<lambda>e. f64_key (tk_distance e)) (ts_heap c)) = sort (map (\<lambda>e. f64_key (tk_distance e)) (ts_heap d))"
proof -
  obtain a where a: "topk_run None [sample_args 7 0x40000000] = Inr (Some a)" "ts_capacity a = 1"
    "ts_metric a = 2" "ts_qvec a = [0x3F800000]"
    using sample_run [of 7 "0x40000000" "[]"] by auto
  obtain b where b: "topk_run None [sample_args 8 0x3F800000] = Inr (Some b)" "ts_capacity b = 1"
    "ts_metric b = 2" "ts_qvec b = [0x3F800000]"
    using sample_run [of 8 "0x3F800000" "[]"] by auto
  have same: "same_search a b" using a b by (simp add: same_search_def)
  have m: "sint (2 :: i32) = 2" by simp
  have nan: "\<not> f64_nan 0x3FF0000000000000" by code_simp
  have nn: "\<forall>e \<in> set (topk_candidates 2 [0x3F800000] [sample_args 7 0x40000000, sample_args 8 0x3F800000]).
      \<not> f64_nan (tk_distance e)"
    by (rule list_all_mapD [OF sample_topk_candidates]) (simp add: nan)
  have app: "[sample_args 7 0x40000000] @ [sample_args 8 0x3F800000] =
      [sample_args 7 0x40000000, sample_args 8 0x3F800000]" by simp
  from combine_is_sequential_aggregate [OF a(1) b(1) same, unfolded a(3,4) m app, OF nn] a(1) b(1)
  show ?thesis unfolding app by blast
qed

end
