(* ===== verification/Search_Agreement.thy ===== *)
theory Search_Agreement
  imports Topk_Aggregate "HOL-Library.Product_Lexorder"
begin

text \<open>
  The exact search (src/src/maludb_search.c) and the top-k aggregate (src/src/maludb_topk.c) are two
  implementations of the same query. Their heaps hold different records but make the same
  comparisons; here both are mapped to pairs of distance and chunk id, on which they are one heap.
\<close>

definition entry_pair :: "HeapEntry \<Rightarrow> f64 \<times> i64" where
  "entry_pair e = (distance e, chunk_id e)"

definition topk_pair :: "topk_entry \<Rightarrow> f64 \<times> i64" where
  "topk_pair e = (tk_distance e, tk_chunk_id e)"

definition pair_gt :: "f64 \<times> i64 \<Rightarrow> f64 \<times> i64 \<Rightarrow> bool" where
  "pair_gt x y \<longleftrightarrow> f64_gt (fst x) (fst y)"

text \<open>A row of the scan as the arguments of the aggregate; the text is passed as its bytes.\<close>

definition args_of_row :: "(string \<Rightarrow> bytes) \<Rightarrow> bytes \<Rightarrow> i32 \<Rightarrow> string \<Rightarrow> chunk_row \<Rightarrow> sfunc_args" where
  "args_of_row enc qb k m row =
     \<lparr>arg_embedding = row_emb row, arg_chunk_id = row_id row, arg_source_text = map_option enc (row_text row),
      arg_query = Some qb, arg_k = Some k, arg_metric = Some m\<rparr>"

lemma tk_chunk_id_offer_entry [simp]: "tk_chunk_id (offer_entry cid txt dist sim) = cid"
  by (simp add: offer_entry_def split: option.split)

lemma scores_agree:
  "andthen (topk_decode_vec eb) (topk_compute_distance metric q) = Inr d \<longleftrightarrow>
   andthen (decode_vec eb) (compute_distance metric q) = Inr d"
  by (auto simp: andthen_eq_Inr topk_decode_vec_def decode_vec_def topk_compute_distance_def compute_distance_def Let_def
      split: if_splits)

lemma score_args_row:
  assumes "row_emb row = Some eb"
  shows "score_args metric q (args_of_row enc qb k m row) = Inr d \<longleftrightarrow>
    andthen (decode_vec eb) (compute_distance metric q) = Inr d"
  using scores_agree [of eb metric q d] assms by (simp add: score_args_def args_of_row_def)

lemma candidates_agree:
  assumes "\<forall>row \<in> set rows. row_id row \<noteq> None"
  shows "map topk_pair (topk_candidates metric q (map (args_of_row enc qb k m) rows)) =
    map entry_pair (search_candidates metric q rows)"
  using assms
proof (induction rows)
  case (Cons row rows)
  show ?case
  proof (cases "row_emb row")
    case None
    with Cons show ?thesis by (simp add: args_complete_def args_of_row_def)
  next
    case (Some eb)
    with Cons.prems have c: "args_complete (args_of_row enc qb k m row)"
      by (simp add: args_complete_def args_of_row_def)
    from Cons.prems obtain i where i: "row_id row = Some i" by auto
    show ?thesis
    proof (cases "andthen (decode_vec eb) (compute_distance metric q)")
      case (Inl e)
      then obtain e' where "score_args metric q (args_of_row enc qb k m row) = Inl e'"
        using score_args_row [OF Some, of metric q enc qb k m] by (metis Inl_Inr_False obj_sumE)
      with Cons Some c Inl show ?thesis by simp
    next
      case (Inr d)
      then have "score_args metric q (args_of_row enc qb k m row) = Inr d"
        using score_args_row [OF Some, of metric q enc qb k m] by simp
      with Cons Some c Inr i show ?thesis
        by (simp add: topk_pair_def entry_pair_def args_entry_def search_entry_def args_of_row_def)
    qed
  qed
qed simp

lemma heaps_agree:
  assumes "map topk_pair ts = map entry_pair es"
  shows "map topk_pair (fold (\<lambda>e h. bounded_push topk_gt cap h e) ts []) =
    map entry_pair (fold (\<lambda>e h. bounded_push (\<lambda>x y. f64_gt (distance x) (distance y)) cap h e) es [])"
proof -
  have t: "pair_gt (topk_pair x) (topk_pair y) = topk_gt x y" for x y
    by (simp add: pair_gt_def topk_pair_def topk_gt_def)
  have e: "pair_gt (entry_pair x) (entry_pair y) = f64_gt (distance x) (distance y)" for x y
    by (simp add: pair_gt_def entry_pair_def)
  have "map topk_pair (fold (\<lambda>e h. bounded_push topk_gt cap h e) ts []) =
      fold (\<lambda>e h. bounded_push pair_gt cap h e) (map topk_pair ts) []"
    using fold_bounded_push_map [of pair_gt topk_pair topk_gt "[]" cap ts] t by simp
  also have "\<dots> = map entry_pair (fold (\<lambda>e h. bounded_push (\<lambda>x y. f64_gt (distance x) (distance y)) cap h e) es [])"
    using fold_bounded_push_map [of pair_gt entry_pair "\<lambda>x y. f64_gt (distance x) (distance y)" "[]" cap es] e assms
    by simp
  finally show ?thesis .
qed

text \<open>Two sorts of heaps with the same pairs agree on the order of key and id.\<close>

lemma sorted_unique:
  fixes xs ys :: "'a :: linorder list"
  shows "sorted xs \<Longrightarrow> sorted ys \<Longrightarrow> mset xs = mset ys \<Longrightarrow> xs = ys"
  using properties_for_sort [of xs ys] by (simp add: sorted_sort_id)

lemma sorted_key_sint:
  assumes "sorted_wrt (\<lambda>a b. f64_key (dist a) < f64_key (dist b) \<or>
      f64_key (dist a) = f64_key (dist b) \<and> sint (cid a) \<le> sint (cid b)) xs"
  shows "sorted (map (\<lambda>a. (f64_key (dist a), sint (cid a))) xs)"
  unfolding sorted_map using assms by (rule sorted_wrt_mono_rel [rotated]) auto

lemma same_order:
  fixes cid :: "'a \<Rightarrow> i64" and cid' :: "'b \<Rightarrow> i64"
  assumes "mset (map (\<lambda>a. (f64_key (dist a), cid a)) xs) = mset (map (\<lambda>b. (f64_key (dist' b), cid' b)) ys)"
    and "sorted (map (\<lambda>a. (f64_key (dist a), sint (cid a))) xs)"
    and "sorted (map (\<lambda>b. (f64_key (dist' b), sint (cid' b))) ys)"
  shows "map (\<lambda>a. (f64_key (dist a), cid a)) xs = map (\<lambda>b. (f64_key (dist' b), cid' b)) ys"
proof -
  let ?g = "\<lambda>(k, i). (k :: int, sint (i :: i64))"
  have inj: "inj ?g" by (auto intro!: injI simp: signed_word_eqI)
  let ?A = "map ?g (map (\<lambda>a. (f64_key (dist a), cid a)) xs)"
  let ?B = "map ?g (map (\<lambda>b. (f64_key (dist' b), cid' b)) ys)"
  have "sorted ?A" "sorted ?B" using assms(2,3) by (simp_all add: o_def)
  moreover have "mset ?A = mset ?B" using assms(1) by (simp only: mset_map)
  ultimately have "?A = ?B" by (rule sorted_unique)
  then show ?thesis using inj by (simp only: inj_map_eq_map)
qed

lemma topk_cmp_eq: "topk_cmp_distance_asc = cmp_dist_id tk_distance tk_chunk_id"
  by (intro ext) (simp add: topk_cmp_distance_asc_def cmp_dist_id_def)

lemma pairs_sorted_alike:
  assumes "qsort_ok qsort" "qsort_ok qsort'" and pairs: "map topk_pair ts = map entry_pair es"
    and nan: "\<forall>e \<in> set ts. \<not> f64_nan (tk_distance e)"
  shows "map (\<lambda>e. (f64_key (distance e), chunk_id e)) (qsort cmp_distance_asc es) =
    map (\<lambda>e. (f64_key (tk_distance e), tk_chunk_id e)) (qsort' topk_cmp_distance_asc ts)"
proof -
  let ?F = "\<lambda>e. (f64_key (distance e), chunk_id e)" and ?G = "\<lambda>e. (f64_key (tk_distance e), tk_chunk_id e)"
  note qe = qsort_dist_id [OF assms(1), where dist = distance and cid = chunk_id and xs = es]
  note qt = qsort_dist_id [OF assms(2), where dist = tk_distance and cid = tk_chunk_id and xs = ts]
  have nn: "\<forall>x \<in> set es. \<not> f64_nan (distance x)"
  proof
    fix x assume "x \<in> set es"
    then have "entry_pair x \<in> topk_pair ` set ts" using pairs by (metis image_eqI list.set_map)
    with nan show "\<not> f64_nan (distance x)" by (auto simp: entry_pair_def topk_pair_def)
  qed
  have "map (\<lambda>p. (f64_key (fst p), snd p)) (map entry_pair es) = map (\<lambda>p. (f64_key (fst p), snd p)) (map topk_pair ts)"
    by (simp only: pairs)
  then have eq: "map ?F es = map ?G ts" by (simp add: entry_pair_def topk_pair_def o_def)
  have "mset (map ?F (qsort cmp_distance_asc es)) = mset (map ?F es)"
    unfolding mset_map cmp_distance_asc_eq qe(1) ..
  also have "\<dots> = mset (map ?G (qsort' topk_cmp_distance_asc ts))"
    unfolding eq mset_map topk_cmp_eq qt(1) ..
  finally show ?thesis
    using same_order sorted_key_sint [OF qe(2) [OF nn]] sorted_key_sint [OF qt(2) [OF nan]]
    unfolding cmp_distance_asc_eq topk_cmp_eq by blast
qed

lemma mset_subset_set: "mset xs \<subseteq># mset ys \<Longrightarrow> \<forall>y \<in> set ys. P y \<Longrightarrow> \<forall>x \<in> set xs. P x"
  by (metis mset_subset_eqD set_mset_mset)

end
