(* ===== verification/Visited_Bitset.thy ===== *)
theory Visited_Bitset
  imports Prelude
begin

text \<open>
  The \<open>Bitset\<close> of \<open>src/src/maludb_ann.c\<close> that records visited graph nodes, at the level of its
  64-bit words. An access outside the allocated words is \<open>None\<close>.

  The locale \<open>visited_set\<close> is the contract the graph search relies on: a set of the naturals below
  a bound, with the counting facts that bound the number of visits. It is interpreted on the
  word-level operations.
\<close>

unbundle bit_operations_syntax

section \<open>Operations\<close>

type_synonym Bitset = "64 word list"

definition bitset_new :: "nat \<Rightarrow> Bitset" where
  "bitset_new n = replicate ((n + 63) div 64) 0"

definition bitset_reset :: "Bitset \<Rightarrow> Bitset" where
  "bitset_reset b = replicate (length b) 0"

definition bitset_test :: "Bitset \<Rightarrow> nat \<Rightarrow> bool option" where
  "bitset_test b i =
     (if i div 64 < length b then Some ((drop_bit (i mod 64) (b ! (i div 64)) AND 1) \<noteq> 0) else None)"

definition bitset_set :: "Bitset \<Rightarrow> nat \<Rightarrow> Bitset option" where
  "bitset_set b i =
     (if i div 64 < length b
      then Some (b[i div 64 := b ! (i div 64) OR push_bit (i mod 64) 1]) else None)"

section \<open>The contract\<close>

locale visited_set =
  fixes bound :: "'b \<Rightarrow> nat"
    and test :: "'b \<Rightarrow> nat \<Rightarrow> bool option"
    and mark :: "'b \<Rightarrow> nat \<Rightarrow> 'b option"
    and reset :: "'b \<Rightarrow> 'b"
    and members :: "'b \<Rightarrow> nat set"
  assumes test_iff: "i < bound b \<Longrightarrow> test b i = Some (i \<in> members b)"
    and test_out: "\<not> i < bound b \<Longrightarrow> test b i = None"
    and mark_in: "i < bound b \<Longrightarrow> \<exists>b'. mark b i = Some b' \<and> bound b' = bound b \<and> members b' = insert i (members b)"
    and mark_out: "\<not> i < bound b \<Longrightarrow> mark b i = None"
    and reset_empty: "members (reset b) = {}"
    and bound_reset: "bound (reset b) = bound b"
    and members_bound: "members b \<subseteq> {..< bound b}"
begin

definition unvisited :: "'b \<Rightarrow> nat" where
  "unvisited b = card ({..< bound b} - members b)"

lemma finite_members: "finite (members b)"
  using members_bound finite_subset finite_lessThan by blast

lemma unvisited_count: "unvisited b + card (members b) = bound b"
proof -
  have "card ({..< bound b} - members b) = card {..< bound b} - card (members b)"
    by (rule card_Diff_subset [OF finite_members members_bound])
  moreover have "card (members b) \<le> card {..< bound b}"
    by (rule card_mono) (simp_all add: members_bound)
  ultimately show ?thesis by (simp add: unvisited_def)
qed

lemma unvisited_mark:
  assumes "test b i = Some False" and "mark b i = Some b'"
  shows "Suc (unvisited b') = unvisited b"
proof -
  from assms(1) have i: "i < bound b" using test_out by (metis option.distinct(1))
  with assms test_iff mark_in [OF i] have new: "i \<notin> members b" "members b' = insert i (members b)"
    "bound b' = bound b" by auto
  then have "card (members b') = Suc (card (members b))" by (simp add: finite_members)
  with unvisited_count [of b] unvisited_count [of b'] new show ?thesis by simp
qed

lemma mark_members: "mark b i = Some b' \<Longrightarrow> members b' = insert i (members b) \<and> bound b' = bound b"
  using mark_in mark_out by (metis option.distinct(1) option.inject)

lemma test_members: "test b i = Some v \<Longrightarrow> v = (i \<in> members b) \<and> i < bound b"
  using test_iff test_out by (metis option.distinct(1) option.inject)

end

section \<open>The words implement it\<close>

definition bitset_bound :: "Bitset \<Rightarrow> nat" where
  "bitset_bound b = 64 * length b"

definition bitset_members :: "Bitset \<Rightarrow> nat set" where
  "bitset_members b = {i. i div 64 < length b \<and> bit (b ! (i div 64)) (i mod 64)}"

lemma div_64_less_iff: "i div 64 < n \<longleftrightarrow> i < 64 * (n :: nat)"
  by (simp add: less_mult_imp_div_less div_less_iff_less_mult mult.commute)

lemma low_bit_iff: "((drop_bit n w AND 1) \<noteq> 0) \<longleftrightarrow> bit (w :: 64 word) n"
  by (simp add: and_one_eq bit_iff_odd_drop_bit odd_iff_mod_2_eq_one)

lemma bitset_set_members:
  assumes "i div 64 < length b"
  shows "bitset_members (b[i div 64 := b ! (i div 64) OR push_bit (i mod 64) 1]) = insert i (bitset_members b)"
proof -
  have "bit (b[i div 64 := b ! (i div 64) OR push_bit (i mod 64) 1] ! (j div 64)) (j mod 64) \<longleftrightarrow>
      j = i \<or> bit (b ! (j div 64)) (j mod 64)" if j: "j div 64 < length b" for j
  proof (cases "j div 64 = i div 64")
    case True
    have "bit (push_bit (i mod 64) (1 :: 64 word)) (j mod 64) \<longleftrightarrow> j mod 64 = i mod 64"
      by (auto simp: bit_simps)
    moreover have "j mod 64 = i mod 64 \<longleftrightarrow> j = i" using True by (metis div_mult_mod_eq)
    ultimately show ?thesis using True assms by (auto simp: bit_or_iff)
  next
    case False
    then show ?thesis by auto
  qed
  with assms show ?thesis unfolding bitset_members_def by auto
qed

interpretation bitset: visited_set bitset_bound bitset_test bitset_set bitset_reset bitset_members
proof
  show "bitset_test b i = Some (i \<in> bitset_members b)" if "i < bitset_bound b" for b i
    using that by (simp add: bitset_test_def bitset_bound_def bitset_members_def div_64_less_iff low_bit_iff)
  show "bitset_test b i = None" if "\<not> i < bitset_bound b" for b i
    using that by (simp add: bitset_test_def bitset_bound_def div_64_less_iff)
  show "\<exists>b'. bitset_set b i = Some b' \<and> bitset_bound b' = bitset_bound b \<and>
      bitset_members b' = insert i (bitset_members b)" if "i < bitset_bound b" for b i
    using that bitset_set_members [of i b]
    by (simp add: bitset_set_def bitset_bound_def div_64_less_iff)
  show "bitset_set b i = None" if "\<not> i < bitset_bound b" for b i
    using that by (simp add: bitset_set_def bitset_bound_def div_64_less_iff)
  show "bitset_members (bitset_reset b) = {}" for b
    by (auto simp: bitset_members_def bitset_reset_def)
  show "bitset_bound (bitset_reset b) = bitset_bound b" for b
    by (simp add: bitset_bound_def bitset_reset_def)
  show "bitset_members b \<subseteq> {..< bitset_bound b}" for b
    by (auto simp: bitset_members_def bitset_bound_def div_64_less_iff)
qed

lemma bitset_bound_new: "n \<le> bitset_bound (bitset_new n)"
  by (simp add: bitset_bound_def bitset_new_def)

end
