(* ===== verification/Ann_Graph.thy ===== *)
theory Ann_Graph
  imports Exact_Search Visited_Bitset
begin

text \<open>
  The in-memory navigable small-world graph and the beam search over it (\<open>src/src/maludb_ann.c\<close>,
  everything from \<open>ann_distance\<close> to \<open>nsw_search\<close>). The graph's arrays are lists; an access outside
  an array, or a store outside a scratch buffer, is \<open>None\<close>, so that memory safety is a theorem.
\<close>

section \<open>Distance and metric\<close>

definition ANN_METRIC_COSINE :: int where "ANN_METRIC_COSINE = 1"
definition ANN_METRIC_L2 :: int where "ANN_METRIC_L2 = 2"
definition ANN_METRIC_INNER :: int where "ANN_METRIC_INNER = 3"

definition EDGE_NONE :: int where "EDGE_NONE = - 1"

definition ann_distance :: "int \<Rightarrow> f32 list \<Rightarrow> f32 list \<Rightarrow> f64" where
  "ann_distance metric a b =
     (if metric = ANN_METRIC_L2 then l2_loop a b
      else if metric = ANN_METRIC_COSINE then f64_sub f64_one (dot_loop a b)
      else f64_neg (dot_loop a b))"

definition ann_parse_metric :: "string \<Rightarrow> int result" where
  "ann_parse_metric m =
     (if m = ''cosine'' then Inr ANN_METRIC_COSINE
      else if m = ''l2'' then Inr ANN_METRIC_L2
      else if m = ''inner_product'' then Inr ANN_METRIC_INNER
      else Inl (Ereport ERRCODE_INVALID_PARAMETER_VALUE (''unknown distance metric: '' @ m)))"

section \<open>The graph\<close>

text \<open>The integer fields are C \<open>int32\<close>s; \<open>edges\<close> holds \<open>int32\<close>s too.\<close>

record AnnGraph =
  g_metric :: int
  g_dim :: int
  g_m :: int
  g_ef_construct :: int
  g_n_nodes :: int
  g_entry_node :: int
  g_chunk_ids :: "i64 list"
  g_edges :: "int list"
  g_embeddings :: "f32 list"
  g_edge_dists :: "f64 list"

text \<open>\<open>n\<close> elements of an array from index \<open>i * n\<close> on; reading none of them needs no memory.\<close>

definition array_slice :: "'a list \<Rightarrow> int \<Rightarrow> int \<Rightarrow> 'a list option" where
  "array_slice xs i n =
     (if n \<le> 0 then Some []
      else if 0 \<le> i \<and> (i + 1) * n \<le> int (length xs)
      then Some (take (nat n) (drop (nat (i * n)) xs)) else None)"

definition ann_emb :: "AnnGraph \<Rightarrow> int \<Rightarrow> f32 list option" where
  "ann_emb g i = array_slice (g_embeddings g) i (g_dim g)"

definition ann_edges :: "AnnGraph \<Rightarrow> int \<Rightarrow> int list option" where
  "ann_edges g i = array_slice (g_edges g) i (g_m g)"

definition ann_edge_dists :: "AnnGraph \<Rightarrow> int \<Rightarrow> f64 list option" where
  "ann_edge_dists g i = array_slice (g_edge_dists g) i (g_m g)"

text \<open>\<open>ann_distance(g->metric, query, ann_emb(g, i), g->dim)\<close> reads \<open>dim\<close> elements on both sides.\<close>

definition ann_dist_to :: "AnnGraph \<Rightarrow> f32 list \<Rightarrow> int \<Rightarrow> f64 option" where
  "ann_dist_to g query i =
     (if int (length query) < g_dim g then None
      else case ann_emb g i of
        None \<Rightarrow> None
      | Some e \<Rightarrow> Some (ann_distance (g_metric g) (take (nat (g_dim g)) query) e))"

section \<open>Candidate queues\<close>

record CandEntry =
  ce_idx :: int
  ce_dist :: f64

definition cand_lt :: "CandEntry \<Rightarrow> CandEntry \<Rightarrow> bool" where
  "cand_lt x y \<longleftrightarrow> f64_lt (ce_dist x) (ce_dist y)"

definition cand_gt :: "CandEntry \<Rightarrow> CandEntry \<Rightarrow> bool" where
  "cand_gt x y \<longleftrightarrow> f64_gt (ce_dist x) (ce_dist y)"

text \<open>\<open>cap\<close> is the number of entries the caller allocated.\<close>

definition minheap_push :: "nat \<Rightarrow> CandEntry list \<Rightarrow> CandEntry \<Rightarrow> CandEntry list option" where
  "minheap_push cap h e =
     (if length h < cap then Some (sift_up_by cand_lt (h @ [e]) (length h)) else None)"

definition minheap_pop :: "CandEntry list \<Rightarrow> CandEntry \<times> CandEntry list" where
  "minheap_pop h =
     (let top = h ! 0; lst = length h - 1
      in (top, sift_down_by cand_lt (take lst (h[0 := h ! lst])) lst 0))"

definition maxheap_push :: "CandEntry list \<Rightarrow> int \<Rightarrow> CandEntry \<Rightarrow> CandEntry list" where
  "maxheap_push h cap e =
     (if int (length h) < cap then sift_up_by cand_gt (h @ [e]) (length h)
      else if cap > 0 \<and> f64_lt (ce_dist e) (ce_dist (h ! 0))
      then sift_down_by cand_gt (h[0 := e]) (length h) 0
      else h)"

section \<open>\<open>nsw_search\<close>\<close>

record nsw_state =
  s_visited :: Bitset
  s_cand :: "CandEntry list"
  s_results :: "CandEntry list"

text \<open>The loop over the neighbours of one expanded node.\<close>

primrec nsw_neighbours ::
  "AnnGraph \<Rightarrow> f32 list \<Rightarrow> int \<Rightarrow> nat \<Rightarrow> int list \<Rightarrow> nsw_state \<Rightarrow> nsw_state option" where
  "nsw_neighbours g query ef cand_cap [] s = Some s"
| "nsw_neighbours g query ef cand_cap (nb # ne) s =
     (if nb < 0 then nsw_neighbours g query ef cand_cap ne s
      else case bitset_test (s_visited s) (nat nb) of
        None \<Rightarrow> None
      | Some True \<Rightarrow> nsw_neighbours g query ef cand_cap ne s
      | Some False \<Rightarrow>
          (case (bitset_set (s_visited s) (nat nb), ann_dist_to g query nb) of
             (Some v, Some d) \<Rightarrow>
               if int (length (s_results s)) < ef \<or> f64_lt d (ce_dist (s_results s ! 0))
               then (let nc = \<lparr>ce_idx = nb, ce_dist = d\<rparr> in
                     case minheap_push cand_cap (s_cand s) nc of
                       None \<Rightarrow> None
                     | Some c \<Rightarrow> nsw_neighbours g query ef cand_cap ne
                         \<lparr>s_visited = v, s_cand = c, s_results = maxheap_push (s_results s) ef nc\<rparr>)
               else nsw_neighbours g query ef cand_cap ne (s\<lparr>s_visited := v\<rparr>)
           | _ \<Rightarrow> None))"

abbreviation unvisited :: "Bitset \<Rightarrow> nat" where
  "unvisited \<equiv> bitset.unvisited"

lemma length_minheap_push: "minheap_push cap h e = Some h' \<Longrightarrow> length h' = Suc (length h)"
  by (auto simp: minheap_push_def split: if_splits)

lemma length_minheap_pop: "h \<noteq> [] \<Longrightarrow> length (snd (minheap_pop h)) = length h - 1"
  by (cases "length h - 1 = 0") (auto simp: minheap_pop_def Let_def sift_down_stop sift_child_def)

text \<open>Every push is paid for by a newly visited node: this is why the search terminates.\<close>

lemma nsw_neighbours_measure:
  "nsw_neighbours g query ef cand_cap ne s = Some s' \<Longrightarrow>
   unvisited (s_visited s') + length (s_cand s') \<le> unvisited (s_visited s) + length (s_cand s)"
proof (induction ne arbitrary: s)
  case Nil
  then show ?case by simp
next
  case (Cons nb ne)
  show ?case
  proof (cases "nb < 0 \<or> bitset_test (s_visited s) (nat nb) = Some True")
    case True
    with Cons show ?thesis by (auto split: if_splits)
  next
    case new: False
    with Cons.prems obtain v d where t: "bitset_test (s_visited s) (nat nb) = Some False"
      and v: "bitset_set (s_visited s) (nat nb) = Some v" and d: "ann_dist_to g query nb = Some d"
      by (auto split: option.splits bool.splits if_splits)
    have u: "Suc (unvisited v) = unvisited (s_visited s)" by (rule bitset.unvisited_mark [OF t v])
    let ?nc = "\<lparr>ce_idx = nb, ce_dist = d\<rparr>"
    show ?thesis
    proof (cases "int (length (s_results s)) < ef \<or> f64_lt d (ce_dist (s_results s ! 0))")
      case True
      with Cons.prems new t v d obtain c where c: "minheap_push cand_cap (s_cand s) ?nc = Some c"
        and r: "nsw_neighbours g query ef cand_cap ne
          \<lparr>s_visited = v, s_cand = c, s_results = maxheap_push (s_results s) ef ?nc\<rparr> = Some s'"
        by (auto simp: Let_def split: option.splits)
      from Cons.IH [OF r] u length_minheap_push [OF c] show ?thesis by simp
    next
      case False
      with Cons.prems new t v d have r: "nsw_neighbours g query ef cand_cap ne (s\<lparr>s_visited := v\<rparr>) = Some s'"
        by auto
      from Cons.IH [OF r] u show ?thesis by simp
    qed
  qed
qed

function nsw_loop :: "AnnGraph \<Rightarrow> f32 list \<Rightarrow> int \<Rightarrow> nat \<Rightarrow> nsw_state \<Rightarrow> nsw_state option" where
  "nsw_loop g query ef cand_cap s =
     (if s_cand s = [] then Some s
      else
        let c = fst (minheap_pop (s_cand s)); s1 = s\<lparr>s_cand := snd (minheap_pop (s_cand s))\<rparr> in
        if int (length (s_results s)) \<ge> ef \<and> f64_gt (ce_dist c) (ce_dist (s_results s ! 0))
        then Some s1
        else case ann_edges g (ce_idx c) of
          None \<Rightarrow> None
        | Some ne \<Rightarrow> (case nsw_neighbours g query ef cand_cap ne s1 of
              None \<Rightarrow> None
            | Some s2 \<Rightarrow> nsw_loop g query ef cand_cap s2))"
  by pat_completeness auto
termination
proof (relation "measure (\<lambda>(g, query, ef, cand_cap, s). unvisited (s_visited s) + length (s_cand s))", goal_cases)
  case 1
  show ?case by simp
next
  case (2 g query ef cand_cap s c s1 ne s2)
  from nsw_neighbours_measure [OF 2(6)] 2(1,3) length_minheap_pop [OF 2(1)] show ?case
    by (cases "s_cand s") auto
qed

declare nsw_loop.simps [simp del]

text \<open>The insertion sort that orders the collected results.\<close>

definition cand_after :: "CandEntry \<Rightarrow> CandEntry \<Rightarrow> bool" where
  "cand_after a x \<longleftrightarrow> f64_gt (ce_dist a) (ce_dist x) \<or> f64_eq (ce_dist a) (ce_dist x) \<and> ce_idx a > ce_idx x"

text \<open>
  One outer step: the sorted prefix is scanned from its end while its entries come after \<open>x\<close>.
\<close>

definition insert_back :: "CandEntry list \<Rightarrow> CandEntry \<Rightarrow> CandEntry list" where
  "insert_back pre x =
     (let moved = takeWhile (\<lambda>a. cand_after a x) (rev pre)
      in take (length pre - length moved) pre @ [x] @ rev moved)"

definition nsw_sort :: "CandEntry list \<Rightarrow> CandEntry list" where
  "nsw_sort xs = foldl insert_back [] xs"

definition nsw_search ::
  "AnnGraph \<Rightarrow> f32 list \<Rightarrow> int \<Rightarrow> int \<Rightarrow> Bitset \<Rightarrow> nat \<Rightarrow> int \<Rightarrow> (CandEntry list \<times> Bitset) option" where
  "nsw_search g query k ef0 visited0 cand_cap res_cap =
     (if g_n_nodes g = 0 \<or> k = 0 then Some ([], visited0)
      else
        let ef1 = (if ef0 < k then k else ef0);
            ef = (if res_cap < ef1 then res_cap else ef1);
            visited = bitset_reset visited0;
            ep0 = g_entry_node g;
            ep = (if ep0 < 0 \<or> ep0 \<ge> g_n_nodes g then 0 else ep0)
        in case ann_dist_to g query ep of
             None \<Rightarrow> None
           | Some d0 \<Rightarrow>
             (let e0 = \<lparr>ce_idx = ep, ce_dist = d0\<rparr> in
              case (minheap_push cand_cap [] e0, bitset_set visited (nat ep)) of
                (Some c, Some v) \<Rightarrow>
                  (case nsw_loop g query ef cand_cap
                     \<lparr>s_visited = v, s_cand = c, s_results = maxheap_push [] ef e0\<rparr> of
                     None \<Rightarrow> None
                   | Some s \<Rightarrow>
                       let n = (if int (length (s_results s)) > k then nat k else length (s_results s))
                       in Some (take n (nsw_sort (s_results s)), s_visited s))
              | _ \<Rightarrow> None))"

end
