(* ===== verification/Ann_Search.thy ===== *)
theory Ann_Search
  imports Ann_Graph
begin

text \<open>
  What the beam search of \<open>src/src/maludb_ann.c\<close> guarantees on a well-formed graph: it never
  touches memory outside the graph and its scratch buffers, it terminates, its answer is sorted,
  free of duplicates and carries true distances, and with a beam as wide as the graph it finds
  the nearest of all nodes reachable from the entry node.
\<close>

section \<open>Well-formed graphs\<close>

definition ann_wf :: "AnnGraph \<Rightarrow> bool" where
  "ann_wf g \<longleftrightarrow> 0 < g_n_nodes g \<and> 0 \<le> g_m g \<and> 0 \<le> g_dim g \<and>
     g_n_nodes g * g_m g \<le> int (length (g_edges g)) \<and>
     g_n_nodes g * g_dim g \<le> int (length (g_embeddings g)) \<and>
     (\<forall>x \<in> set (take (nat (g_n_nodes g * g_m g)) (g_edges g)). x < g_n_nodes g)"

definition in_graph :: "AnnGraph \<Rightarrow> int \<Rightarrow> bool" where
  "in_graph g i \<longleftrightarrow> 0 \<le> i \<and> i < g_n_nodes g"

lemma row_in_bounds: "0 \<le> i \<Longrightarrow> i < n \<Longrightarrow> 0 \<le> m \<Longrightarrow> n * m \<le> len \<Longrightarrow> (i + 1) * m \<le> (len :: int)"
  by (meson mult_right_mono order_trans zless_imp_add1_zle)

lemma array_slice_in_bounds:
  assumes "0 \<le> i" "i < n" "0 \<le> m" "n * m \<le> int (length xs)"
  shows "\<exists>ys. array_slice xs i m = Some ys \<and> length ys = nat m \<and> set ys \<subseteq> set (take (nat (n * m)) xs)"
proof (cases "m = 0")
  case True
  then show ?thesis by (simp add: array_slice_def)
next
  case False
  let ?ys = "take (nat m) (drop (nat (i * m)) xs)"
  have le: "(i + 1) * m \<le> int (length xs)" by (rule row_in_bounds [OF assms(1-4)])
  have im: "nat (i * m) + nat m = nat ((i + 1) * m)"
    using assms(1,3) by (simp add: nat_add_distrib [symmetric] algebra_simps)
  have le': "(i + 1) * m \<le> n * m" using assms by (intro mult_right_mono) auto
  then have b: "nat (i * m) + nat m \<le> nat (n * m)" unfolding im by (rule nat_mono)
  have "?ys = drop (nat (i * m)) (take (nat (i * m) + nat m) xs)" by (simp add: take_drop add.commute)
  then have "set ?ys \<subseteq> set (take (nat (i * m) + nat m) xs)" by (metis set_drop_subset)
  also have "\<dots> \<subseteq> set (take (nat (n * m)) xs)" by (rule set_take_subset_set_take [OF b])
  finally have "set ?ys \<subseteq> set (take (nat (n * m)) xs)" .
  moreover have "length ?ys = nat m"
  proof -
    have "nat (i * m) + nat m \<le> length xs" using le unfolding im by simp
    then show ?thesis by simp
  qed
  ultimately show ?thesis using False assms le by (simp add: array_slice_def)
qed

lemma ann_wf_edges:
  assumes "ann_wf g" "in_graph g i"
  shows "\<exists>ne. ann_edges g i = Some ne \<and> (\<forall>x \<in> set ne. x < g_n_nodes g)"
proof -
  have "\<exists>ys. array_slice (g_edges g) i (g_m g) = Some ys \<and> length ys = nat (g_m g) \<and>
      set ys \<subseteq> set (take (nat (g_n_nodes g * g_m g)) (g_edges g))"
    by (rule array_slice_in_bounds) (use assms in \<open>auto simp: ann_wf_def in_graph_def\<close>)
  with assms(1) show ?thesis unfolding ann_edges_def ann_wf_def by blast
qed

lemma ann_wf_dist:
  assumes "ann_wf g" "in_graph g i" "g_dim g \<le> int (length query)"
  shows "\<exists>d. ann_dist_to g query i = Some d"
proof -
  have "\<exists>ys. array_slice (g_embeddings g) i (g_dim g) = Some ys \<and> length ys = nat (g_dim g) \<and>
      set ys \<subseteq> set (take (nat (g_n_nodes g * g_dim g)) (g_embeddings g))"
    by (rule array_slice_in_bounds) (use assms in \<open>auto simp: ann_wf_def in_graph_def\<close>)
  with assms(3) show ?thesis by (auto simp: ann_dist_to_def ann_emb_def)
qed

section \<open>The queues\<close>

lemma maxheap_push_bounded: "maxheap_push h cap e = bounded_push cand_gt (nat cap) h e"
  by (auto simp: maxheap_push_def bounded_push_def cand_gt_def f64_gt_def zless_nat_eq_int_zless)

lemma mset_minheap_push: "minheap_push cap h e = Some h' \<Longrightarrow> mset h' = add_mset e (mset h)"
  by (auto simp: minheap_push_def split: if_splits)

lemma mset_minheap_pop:
  assumes "h \<noteq> []"
  shows "add_mset (fst (minheap_pop h)) (mset (snd (minheap_pop h))) = mset h"
proof (cases "length h = 1")
  case True
  then obtain x where "h = [x]" by (metis One_nat_def length_0_conv length_Suc_conv)
  then show ?thesis by (simp add: minheap_pop_def Let_def sift_down_stop sift_child_def)
next
  case False
  let ?l = "length h - 1"
  from assms False have l: "0 < ?l" "?l < length h" by (cases h; auto)+
  have "take ?l (h[0 := h ! ?l]) = (take ?l h)[0 := last h]"
    using assms by (simp add: take_update_swap last_conv_nth)
  moreover have "mset ((take ?l h)[0 := last h]) = add_mset (last h) (mset (take ?l h) - {#h ! 0#})"
    using l by (subst mset_update) simp_all
  moreover have "mset h = add_mset (last h) (mset (take ?l h))"
    using assms by (metis append_butlast_last_id butlast_conv_take mset.simps(1,2) mset_append union_mset_add_mset_right add.right_neutral)
  moreover have "h ! 0 \<in># mset (take ?l h)"
    using l nth_mem [of 0 "take ?l h"] by simp
  ultimately show ?thesis using l by (simp add: minheap_pop_def Let_def)
qed

section \<open>The invariant of the search\<close>

text \<open>Entries that name a visited node and carry its distance.\<close>

definition entries_ok :: "AnnGraph \<Rightarrow> f32 list \<Rightarrow> Bitset \<Rightarrow> CandEntry set \<Rightarrow> bool" where
  "entries_ok g query v E \<longleftrightarrow>
     (\<forall>c \<in> E. in_graph g (ce_idx c) \<and> nat (ce_idx c) \<in> bitset_members v \<and>
        ann_dist_to g query (ce_idx c) = Some (ce_dist c))"

definition nsw_inv :: "AnnGraph \<Rightarrow> f32 list \<Rightarrow> int \<Rightarrow> nsw_state \<Rightarrow> bool" where
  "nsw_inv g query ef s \<longleftrightarrow>
     g_n_nodes g \<le> int (bitset_bound (s_visited s)) \<and>
     bitset_members (s_visited s) \<subseteq> {..< nat (g_n_nodes g)} \<and>
     entries_ok g query (s_visited s) (set (s_cand s) \<union> set (s_results s)) \<and>
     distinct (map ce_idx (s_cand s)) \<and> distinct (map ce_idx (s_results s)) \<and>
     s_results s \<noteq> [] \<and> int (length (s_results s)) \<le> ef"

definition idxs :: "CandEntry list \<Rightarrow> nat set" where
  "idxs h = (\<lambda>c. nat (ce_idx c)) ` set h"

definition fresh :: "int list \<Rightarrow> nat set" where
  "fresh ne = nat ` {x \<in> set ne. 0 \<le> x}"

lemma idxs_simps [simp]: "idxs [] = {}" "idxs (h @ h') = idxs h \<union> idxs h'"
  by (auto simp: idxs_def)

lemma idxs_mset: "mset h = add_mset e (mset h') \<Longrightarrow> idxs h = insert (nat (ce_idx e)) (idxs h')"
proof -
  assume "mset h = add_mset e (mset h')"
  then have "set h = insert e (set h')" by (metis set_mset_add_mset_insert set_mset_mset)
  then show ?thesis by (simp add: idxs_def)
qed

lemma fresh_simps [simp]:
  "fresh [] = {}" "x < 0 \<Longrightarrow> fresh (x # xs) = fresh xs" "0 \<le> x \<Longrightarrow> fresh (x # xs) = insert (nat x) (fresh xs)"
  by (auto simp: fresh_def)

lemma entries_ok_mono:
  "entries_ok g query v E \<Longrightarrow> bitset_members v \<subseteq> bitset_members v' \<Longrightarrow> E' \<subseteq> E \<Longrightarrow> entries_ok g query v' E'"
  by (auto simp: entries_ok_def)

lemma entries_ok_idxs: "entries_ok g query v (set h) \<Longrightarrow> idxs h \<subseteq> bitset_members v"
  by (auto simp: entries_ok_def idxs_def)

text \<open>Distinct entries of visited nodes are no more than the visited nodes.\<close>

lemma distinct_entries_card:
  assumes "entries_ok g query v (set h)" and "distinct (map ce_idx h)"
  shows "length h = card (idxs h)" and "length h \<le> card (bitset_members v)"
proof -
  have "\<forall>x \<in> set (map ce_idx h). 0 \<le> x" using assms(1) by (auto simp: entries_ok_def in_graph_def)
  then have "inj_on nat (set (map ce_idx h))" by (metis eq_nat_nat_iff inj_onI)
  then have "distinct (map nat (map ce_idx h))" using assms(2) by (simp only: distinct_map)
  then have "card (set (map nat (map ce_idx h))) = length h"
    by (metis distinct_card length_map)
  moreover have "set (map nat (map ce_idx h)) = idxs h" by (simp add: idxs_def image_image)
  ultimately show "length h = card (idxs h)" by simp
  also have "\<dots> \<le> card (bitset_members v)"
    by (rule card_mono [OF bitset.finite_members entries_ok_idxs [OF assms(1)]])
  finally show "length h \<le> card (bitset_members v)" .
qed

lemma fresh_node_card:
  assumes "bitset_members v \<subseteq> {..< nat n}" and "i \<notin> bitset_members v" and "i < nat n"
  shows "card (bitset_members v) < nat n"
proof -
  have "card (insert i (bitset_members v)) \<le> card {..< nat n}"
    by (rule card_mono) (use assms in auto)
  with assms(2) show ?thesis by (simp add: bitset.finite_members)
qed

text \<open>Visiting a new node without keeping it, and visiting and keeping it.\<close>

lemma nsw_inv_visit:
  assumes "nsw_inv g query ef s" and "bitset_set (s_visited s) (nat nb) = Some v" and "in_graph g nb"
  shows "nsw_inv g query ef (s\<lparr>s_visited := v\<rparr>)"
proof -
  from bitset.mark_members [OF assms(2)] have v: "bitset_members v = insert (nat nb) (bitset_members (s_visited s))"
    "bitset_bound v = bitset_bound (s_visited s)" by auto
  have "entries_ok g query v (set (s_cand s) \<union> set (s_results s))"
    using assms(1) v(1) by (auto simp: nsw_inv_def intro: entries_ok_mono)
  with assms(1,3) v show ?thesis by (auto simp: nsw_inv_def in_graph_def)
qed

lemma nsw_inv_push:
  assumes inv: "nsw_inv g query ef s" and t: "bitset_test (s_visited s) (nat nb) = Some False"
    and v: "bitset_set (s_visited s) (nat nb) = Some v" and nb: "in_graph g nb"
    and d: "ann_dist_to g query nb = Some d"
    and c: "minheap_push cap (s_cand s) \<lparr>ce_idx = nb, ce_dist = d\<rparr> = Some c"
  shows "nsw_inv g query ef \<lparr>s_visited = v, s_cand = c,
     s_results = maxheap_push (s_results s) ef \<lparr>ce_idx = nb, ce_dist = d\<rparr>\<rparr>" (is "nsw_inv g query ef ?s'")
proof -
  let ?nc = "\<lparr>ce_idx = nb, ce_dist = d\<rparr>" and ?r = "maxheap_push (s_results s) ef \<lparr>ce_idx = nb, ce_dist = d\<rparr>"
  from bitset.mark_members [OF v] have mv: "bitset_members v = insert (nat nb) (bitset_members (s_visited s))"
    "bitset_bound v = bitset_bound (s_visited s)" by auto
  from bitset.test_members [OF t] have new: "nat nb \<notin> bitset_members (s_visited s)" by simp
  from inv have e: "entries_ok g query (s_visited s) (set (s_cand s) \<union> set (s_results s))"
    and dc: "distinct (map ce_idx (s_cand s))" and dr: "distinct (map ce_idx (s_results s))"
    and rl: "s_results s \<noteq> []" "int (length (s_results s)) \<le> ef"
    by (auto simp: nsw_inv_def)
  from rl have len: "length (s_results s) \<le> nat ef" by linarith
  have cset: "mset c = mset (?nc # s_cand s)" using mset_minheap_push [OF c] by simp
  have rsub: "mset ?r \<subseteq># mset (?nc # s_results s)"
    using mset_bounded_push_sub [OF len, of cand_gt ?nc] by (simp add: maxheap_push_bounded)
  have fresh_idx: "nb \<notin> set (map ce_idx (s_cand s)) \<union> set (map ce_idx (s_results s))"
    using e new by (auto simp: entries_ok_def)
  then have "distinct (map ce_idx (?nc # s_cand s))" "distinct (map ce_idx (?nc # s_results s))"
    using dc dr by simp_all
  moreover have "mset (map ce_idx c) \<subseteq># mset (map ce_idx (?nc # s_cand s))"
    using cset by (metis mset_map subset_mset.order_refl)
  moreover have "mset (map ce_idx ?r) \<subseteq># mset (map ce_idx (?nc # s_results s))"
    unfolding mset_map by (rule image_mset_subseteq_mono [OF rsub])
  ultimately have dist: "distinct (map ce_idx c)" "distinct (map ce_idx ?r)"
    by (blast intro: distinct_submset)+
  have "set c = insert ?nc (set (s_cand s))" using cset by (metis list.simps(15) set_mset_mset)
  moreover have "set ?r \<subseteq> insert ?nc (set (s_results s))"
    using set_mset_mono [OF rsub] by simp
  ultimately have "entries_ok g query v (set c \<union> set ?r)"
    using e mv(1) nb d by (auto simp: entries_ok_def)
  moreover have "?r \<noteq> []" "int (length ?r) \<le> ef"
    using rl len length_bounded_push [OF len, of cand_gt ?nc] length_bounded_push_le [OF len, of cand_gt ?nc]
    by (auto simp: maxheap_push_bounded split: if_splits)
  ultimately show ?thesis using inv nb dist mv by (auto simp: nsw_inv_def in_graph_def)
qed

text \<open>
  One expansion: it succeeds, keeps the invariant, visits exactly the listed neighbours, and with a
  beam no narrower than the graph keeps every newly visited one.
\<close>

lemma nsw_neighbours_inv:
  assumes wf: "ann_wf g" and q: "g_dim g \<le> int (length query)" and cap: "g_n_nodes g \<le> int cand_cap"
  shows "nsw_inv g query ef s \<Longrightarrow> \<forall>x \<in> set ne. x < g_n_nodes g \<Longrightarrow>
    \<exists>s'. nsw_neighbours g query ef cand_cap ne s = Some s' \<and> nsw_inv g query ef s' \<and>
      bitset_members (s_visited s') = bitset_members (s_visited s) \<union> fresh ne \<and>
      (g_n_nodes g \<le> ef \<longrightarrow>
         idxs (s_cand s') = idxs (s_cand s) \<union> (fresh ne - bitset_members (s_visited s)) \<and>
         idxs (s_results s') = idxs (s_results s) \<union> (fresh ne - bitset_members (s_visited s)))"
proof (induction ne arbitrary: s)
  case Nil
  then show ?case by simp
next
  case (Cons nb ne)
  from Cons.prems have inv: "nsw_inv g query ef s" and ne: "\<forall>x \<in> set ne. x < g_n_nodes g"
    and nbn: "nb < g_n_nodes g" by simp_all
  show ?case
  proof (cases "nb < 0")
    case True
    with Cons.IH [OF inv ne] show ?thesis by simp
  next
    case pos: False
    with nbn have nb: "in_graph g nb" by (simp add: in_graph_def)
    from inv nb have bound: "nat nb < bitset_bound (s_visited s)"
      and sub: "bitset_members (s_visited s) \<subseteq> {..< nat (g_n_nodes g)}"
      by (auto simp: nsw_inv_def in_graph_def)
    show ?thesis
    proof (cases "nat nb \<in> bitset_members (s_visited s)")
      case True
      with bitset.test_iff [OF bound] pos Cons.IH [OF inv ne] show ?thesis by (simp add: insert_absorb insert_Diff_if)
    next
      case new: False
      with bitset.test_iff [OF bound] have t: "bitset_test (s_visited s) (nat nb) = Some False" by simp
      from bitset.mark_in [OF bound] obtain v where v: "bitset_set (s_visited s) (nat nb) = Some v"
        and mv: "bitset_members v = insert (nat nb) (bitset_members (s_visited s))" by blast
      from ann_wf_dist [OF wf nb q] obtain d where d: "ann_dist_to g query nb = Some d" by blast
      let ?nc = "\<lparr>ce_idx = nb, ce_dist = d\<rparr>"
      from inv have e: "entries_ok g query (s_visited s) (set (s_cand s))"
        "entries_ok g query (s_visited s) (set (s_results s))"
        and dd: "distinct (map ce_idx (s_cand s))" "distinct (map ce_idx (s_results s))"
        by (auto simp: nsw_inv_def entries_ok_def)
      have few: "card (bitset_members (s_visited s)) < nat (g_n_nodes g)"
        by (rule fresh_node_card [OF sub new]) (use nb in \<open>simp add: in_graph_def\<close>)
      show ?thesis
      proof (cases "int (length (s_results s)) < ef \<or> f64_lt d (ce_dist (s_results s ! 0))")
        case True
        from distinct_entries_card(2) [OF e(1) dd(1)] few cap have "length (s_cand s) < cand_cap" by linarith
        then obtain c where c: "minheap_push cand_cap (s_cand s) ?nc = Some c"
          by (simp add: minheap_push_def)
        let ?s = "\<lparr>s_visited = v, s_cand = c, s_results = maxheap_push (s_results s) ef ?nc\<rparr>"
        have eq: "nsw_neighbours g query ef cand_cap (nb # ne) s = nsw_neighbours g query ef cand_cap ne ?s"
          using pos t v d c True by (simp add: Let_def)
        have inv': "nsw_inv g query ef ?s" by (rule nsw_inv_push [OF inv t v nb d c])
        have full: "idxs (maxheap_push (s_results s) ef ?nc) = insert (nat nb) (idxs (s_results s))"
          if "g_n_nodes g \<le> ef"
        proof -
          have "length (s_results s) < nat ef"
            using distinct_entries_card(2) [OF e(2) dd(2)] few that by linarith
          from idxs_mset [OF mset_bounded_push_grow [OF this, of cand_gt ?nc]] show ?thesis
            by (simp add: maxheap_push_bounded)
        qed
        from Cons.IH [OF inv' ne] full idxs_mset [OF mset_minheap_push [OF c]] pos new show ?thesis
          unfolding eq by (auto simp: mv)
      next
        case False
        have eq: "nsw_neighbours g query ef cand_cap (nb # ne) s =
            nsw_neighbours g query ef cand_cap ne (s\<lparr>s_visited := v\<rparr>)"
          using pos t v d False by simp
        have inv': "nsw_inv g query ef (s\<lparr>s_visited := v\<rparr>)" by (rule nsw_inv_visit [OF inv v nb])
        have nfull: "\<not> g_n_nodes g \<le> ef"
          using False distinct_entries_card(2) [OF e(2) dd(2)] few by linarith
        from Cons.IH [OF inv' ne] pos nfull show ?thesis unfolding eq by (auto simp: mv)
      qed
    qed
  qed
qed

section \<open>The main loop\<close>

lemma nsw_inv_pop:
  assumes "nsw_inv g query ef s" and "s_cand s \<noteq> []"
  shows "nsw_inv g query ef (s\<lparr>s_cand := snd (minheap_pop (s_cand s))\<rparr>)"
    and "in_graph g (ce_idx (fst (minheap_pop (s_cand s))))"
    and "idxs (s_cand s) = insert (nat (ce_idx (fst (minheap_pop (s_cand s))))) (idxs (snd (minheap_pop (s_cand s))))"
proof -
  let ?t = "fst (minheap_pop (s_cand s))" and ?r = "snd (minheap_pop (s_cand s))"
  note m = mset_minheap_pop [OF assms(2)]
  then have "mset ?r \<subseteq># mset (s_cand s)" by (metis mset_subset_eq_add_mset_cancel multi_psub_of_add_self subset_mset.less_imp_le)
  then have "mset (map ce_idx ?r) \<subseteq># mset (map ce_idx (s_cand s))"
    unfolding mset_map by (rule image_mset_subseteq_mono)
  then have "distinct (map ce_idx ?r)" using assms(1) by (meson distinct_submset nsw_inv_def)
  moreover have set: "set (s_cand s) = insert ?t (set ?r)"
    using m by (metis set_mset_add_mset_insert set_mset_mset)
  ultimately show "nsw_inv g query ef (s\<lparr>s_cand := ?r\<rparr>)"
    using assms(1) by (auto simp: nsw_inv_def entries_ok_def)
  show "in_graph g (ce_idx ?t)" using assms(1) set by (simp add: nsw_inv_def entries_ok_def)
  show "idxs (s_cand s) = insert (nat (ce_idx ?t)) (idxs ?r)" by (rule idxs_mset) (use m in simp)
qed

definition nsw_stop :: "int \<Rightarrow> nsw_state \<Rightarrow> bool" where
  "nsw_stop ef s \<longleftrightarrow> int (length (s_results s)) \<ge> ef \<and>
     f64_gt (ce_dist (fst (minheap_pop (s_cand s)))) (ce_dist (s_results s ! 0))"

lemma nsw_loop_stop:
  "s_cand s \<noteq> [] \<Longrightarrow> nsw_stop ef s \<Longrightarrow>
   nsw_loop g query ef cand_cap s = Some (s\<lparr>s_cand := snd (minheap_pop (s_cand s))\<rparr>)"
  by (simp add: nsw_loop.simps [of g query ef cand_cap s] nsw_stop_def Let_def)

lemma nsw_loop_expand:
  assumes "s_cand s \<noteq> []" and "\<not> nsw_stop ef s"
    and "ann_edges g (ce_idx (fst (minheap_pop (s_cand s)))) = Some ne"
    and "nsw_neighbours g query ef cand_cap ne (s\<lparr>s_cand := snd (minheap_pop (s_cand s))\<rparr>) = Some s2"
  shows "nsw_loop g query ef cand_cap s = nsw_loop g query ef cand_cap s2"
    and "unvisited (s_visited s2) + length (s_cand s2) < unvisited (s_visited s) + length (s_cand s)"
proof -
  show "nsw_loop g query ef cand_cap s = nsw_loop g query ef cand_cap s2"
    by (subst nsw_loop.simps)
       (simp only: assms(1) assms(2) [unfolded nsw_stop_def] assms(3,4) Let_def if_False option.case)
  show "unvisited (s_visited s2) + length (s_cand s2) < unvisited (s_visited s) + length (s_cand s)"
    using nsw_neighbours_measure [OF assms(4)] length_minheap_pop [OF assms(1)] assms(1)
    by (cases "s_cand s") auto
qed

lemma nsw_loop_inv:
  assumes wf: "ann_wf g" and q: "g_dim g \<le> int (length query)" and cap: "g_n_nodes g \<le> int cand_cap"
  shows "nsw_inv g query ef s \<Longrightarrow> \<exists>s'. nsw_loop g query ef cand_cap s = Some s' \<and> nsw_inv g query ef s'"
proof (induction "unvisited (s_visited s) + length (s_cand s)" arbitrary: s rule: less_induct)
  case less
  show ?case
  proof (cases "s_cand s = []")
    case True
    with less.prems show ?thesis by (simp add: nsw_loop.simps)
  next
    case False
    let ?c = "fst (minheap_pop (s_cand s))" and ?s1 = "s\<lparr>s_cand := snd (minheap_pop (s_cand s))\<rparr>"
    note pop = nsw_inv_pop [OF less.prems False]
    show ?thesis
    proof (cases "nsw_stop ef s")
      case True
      with False pop(1) show ?thesis by (simp add: nsw_loop_stop)
    next
      case go: False
      from ann_wf_edges [OF wf pop(2)] obtain ne where ne: "ann_edges g (ce_idx ?c) = Some ne"
        "\<forall>x \<in> set ne. x < g_n_nodes g" by blast
      from nsw_neighbours_inv [OF wf q cap pop(1) ne(2)] obtain s2 where
        s2: "nsw_neighbours g query ef cand_cap ne ?s1 = Some s2" "nsw_inv g query ef s2" by blast
      from nsw_loop_expand [OF False go ne(1) s2(1)] less.hyps s2(2) show ?thesis by simp
    qed
  qed
qed

text \<open>
  The nodes reachable from the entry node along edges.
\<close>

definition neighbours :: "AnnGraph \<Rightarrow> nat \<Rightarrow> nat set" where
  "neighbours g i = (case ann_edges g (int i) of None \<Rightarrow> {} | Some ne \<Rightarrow> fresh ne)"

definition entry_of :: "AnnGraph \<Rightarrow> nat" where
  "entry_of g = (if g_entry_node g < 0 \<or> g_entry_node g \<ge> g_n_nodes g then 0 else nat (g_entry_node g))"

inductive_set reachable :: "AnnGraph \<Rightarrow> nat set" for g where
  entry: "entry_of g \<in> reachable g"
| step: "i \<in> reachable g \<Longrightarrow> j \<in> neighbours g i \<Longrightarrow> j \<in> reachable g"

definition closed_under :: "AnnGraph \<Rightarrow> nat set \<Rightarrow> bool" where
  "closed_under g V \<longleftrightarrow> (\<forall>i \<in> V. neighbours g i \<subseteq> V)"

lemma reachable_least: "entry_of g \<in> V \<Longrightarrow> closed_under g V \<Longrightarrow> reachable g \<subseteq> V"
proof
  fix x assume "entry_of g \<in> V" "closed_under g V" and "x \<in> reachable g"
  from this(3,1,2) show "x \<in> V" by (induction rule: reachable.induct) (auto simp: closed_under_def)
qed

text \<open>
  With a beam as wide as the graph: everything visited is kept, and every visited node is still
  queued or has had all its neighbours visited.
\<close>

definition nsw_full :: "AnnGraph \<Rightarrow> nsw_state \<Rightarrow> bool" where
  "nsw_full g s \<longleftrightarrow> bitset_members (s_visited s) = idxs (s_results s) \<and>
     (\<forall>i \<in> bitset_members (s_visited s). i \<in> idxs (s_cand s) \<or> neighbours g i \<subseteq> bitset_members (s_visited s)) \<and>
     entry_of g \<in> bitset_members (s_visited s) \<and> bitset_members (s_visited s) \<subseteq> reachable g"

lemma neighbours_in_graph:
  assumes "ann_wf g" and "i < nat (g_n_nodes g)"
  shows "neighbours g i \<subseteq> {..< nat (g_n_nodes g)}"
proof -
  from assms(2) have "in_graph g (int i)" unfolding in_graph_def by linarith
  from ann_wf_edges [OF assms(1) this] obtain ne where
    "ann_edges g (int i) = Some ne" "\<forall>x \<in> set ne. x < g_n_nodes g" by blast
  then show ?thesis by (auto simp: neighbours_def fresh_def)
qed

lemma nsw_loop_full:
  assumes wf: "ann_wf g" and q: "g_dim g \<le> int (length query)" and cap: "g_n_nodes g \<le> int cand_cap"
    and ef: "g_n_nodes g \<le> ef"
  shows "nsw_inv g query ef s \<Longrightarrow> nsw_full g s \<Longrightarrow> nsw_loop g query ef cand_cap s = Some s' \<Longrightarrow>
    idxs (s_results s') = reachable g"
proof (induction "unvisited (s_visited s) + length (s_cand s)" arbitrary: s rule: less_induct)
  case less
  let ?V = "bitset_members (s_visited s)"
  have done_ok: "idxs (s_results s) = reachable g" if "closed_under g ?V"
    using less.prems(2) reachable_least [OF _ that] by (auto simp: nsw_full_def)
  show ?case
  proof (cases "s_cand s = []")
    case True
    with less.prems have "s' = s" "closed_under g ?V"
      by (auto simp: nsw_loop.simps nsw_full_def closed_under_def)
    with done_ok show ?thesis by simp
  next
    case False
    let ?c = "fst (minheap_pop (s_cand s))" and ?s1 = "s\<lparr>s_cand := snd (minheap_pop (s_cand s))\<rparr>"
    note pop = nsw_inv_pop [OF less.prems(1) False]
    show ?thesis
    proof (cases "nsw_stop ef s")
      case True
      with False less.prems(3) have s': "s' = ?s1" by (simp add: nsw_loop_stop)
      have sub: "?V \<subseteq> {..< nat (g_n_nodes g)}" using less.prems(1) by (simp add: nsw_inv_def)
      have "length (s_results s) = card (idxs (s_results s))"
        by (rule distinct_entries_card(1)) (use less.prems(1) in \<open>auto simp: nsw_inv_def entries_ok_def\<close>)
      then have "int (length (s_results s)) = int (card ?V)" using less.prems(2) by (simp add: nsw_full_def)
      then have "nat (g_n_nodes g) \<le> card ?V" using True ef unfolding nsw_stop_def by linarith
      then have "?V = {..< nat (g_n_nodes g)}" using sub by (metis card_seteq finite_lessThan card_lessThan)
      then have "closed_under g ?V" unfolding closed_under_def using neighbours_in_graph [OF wf] by auto
      with done_ok s' show ?thesis by simp
    next
      case go: False
      from ann_wf_edges [OF wf pop(2)] obtain ne where ne: "ann_edges g (ce_idx ?c) = Some ne"
        "\<forall>x \<in> set ne. x < g_n_nodes g" by blast
      from nsw_neighbours_inv [OF wf q cap pop(1) ne(2)] ef obtain s2 where
        s2: "nsw_neighbours g query ef cand_cap ne ?s1 = Some s2" "nsw_inv g query ef s2"
        "bitset_members (s_visited s2) = ?V \<union> fresh ne"
        "idxs (s_cand s2) = idxs (snd (minheap_pop (s_cand s))) \<union> (fresh ne - ?V)"
        "idxs (s_results s2) = idxs (s_results s) \<union> (fresh ne - ?V)" by auto
      let ?i = "nat (ce_idx ?c)"
      have nbrs: "neighbours g ?i = fresh ne"
        using ne(1) pop(2) by (simp add: neighbours_def in_graph_def)
      have iV: "?i \<in> ?V"
      proof -
        have "idxs (s_cand s) \<subseteq> ?V"
          by (rule entries_ok_idxs) (use less.prems(1) in \<open>auto simp: nsw_inv_def entries_ok_def\<close>)
        then show ?thesis unfolding pop(3) by simp
      qed
      from less.prems(2) have V: "?V = idxs (s_results s)" "entry_of g \<in> ?V" "?V \<subseteq> reachable g"
        and vis: "\<And>j. j \<in> ?V \<Longrightarrow> j \<in> idxs (s_cand s) \<or> neighbours g j \<subseteq> ?V"
        by (auto simp: nsw_full_def)
      have "j \<in> idxs (s_cand s2) \<or> neighbours g j \<subseteq> ?V \<union> fresh ne" if "j \<in> ?V \<union> fresh ne" for j
      proof (cases "j \<in> ?V")
        case True
        with vis pop(3) have "j = ?i \<or> j \<in> idxs (snd (minheap_pop (s_cand s))) \<or> neighbours g j \<subseteq> ?V" by blast
        then show ?thesis using nbrs s2(4) by auto
      next
        case False
        with that s2(4) show ?thesis by blast
      qed
      moreover have "fresh ne \<subseteq> reachable g"
        using V(3) iV nbrs reachable.step [of ?i g] by blast
      ultimately have "nsw_full g s2"
        unfolding nsw_full_def s2(3,5) using V by blast
      with nsw_loop_expand [OF False go ne(1) s2(1)] less.prems(3) less.hyps [OF _ s2(2)] show ?thesis by simp
    qed
  qed
qed

section \<open>Sorting the results\<close>

definition cand_le :: "CandEntry \<Rightarrow> CandEntry \<Rightarrow> bool" where
  "cand_le a b \<longleftrightarrow> f64_key (ce_dist a) < f64_key (ce_dist b) \<or>
     f64_key (ce_dist a) = f64_key (ce_dist b) \<and> ce_idx a \<le> ce_idx b"

lemma cand_after_le:
  "\<not> f64_nan (ce_dist a) \<Longrightarrow> \<not> f64_nan (ce_dist x) \<Longrightarrow> cand_after a x \<longleftrightarrow> \<not> cand_le a x"
  by (auto simp: cand_after_def cand_le_def f64_gt_key f64_eq_key)

lemma cand_le_trans: "cand_le a b \<Longrightarrow> cand_le b c \<Longrightarrow> cand_le a c"
  by (auto simp: cand_le_def)

lemma cand_le_total: "\<not> cand_le a b \<Longrightarrow> cand_le b a"
  by (auto simp: cand_le_def)

lemma insert_back_split:
  "\<exists>front post. pre = front @ post \<and> insert_back pre x = front @ [x] @ post \<and>
     (\<forall>a \<in> set post. cand_after a x) \<and> (front \<noteq> [] \<longrightarrow> \<not> cand_after (last front) x)"
proof -
  let ?P = "\<lambda>a. cand_after a x"
  let ?m = "takeWhile ?P (rev pre)" and ?d = "dropWhile ?P (rev pre)"
  have "rev pre = ?m @ ?d" by simp
  then have pre: "pre = rev ?d @ rev ?m" by (metis rev_append rev_rev_ident)
  then have "take (length pre - length ?m) pre = rev ?d"
    by (metis append_eq_conv_conj diff_add_inverse2 length_append length_rev)
  then have ib: "insert_back pre x = rev ?d @ [x] @ rev ?m" by (simp add: insert_back_def Let_def)
  have post: "\<forall>a \<in> set (rev ?m). cand_after a x" using set_takeWhileD by fastforce
  have front: "rev ?d \<noteq> [] \<longrightarrow> \<not> cand_after (last (rev ?d)) x"
    by (metis hd_dropWhile last_rev rev_is_Nil_conv)
  show ?thesis using pre ib post front by blast
qed

lemma mset_insert_back: "mset (insert_back pre x) = add_mset x (mset pre)"
  using insert_back_split [of pre x] by auto

lemma mset_nsw_sort: "mset (nsw_sort xs) = mset xs"
proof -
  have "mset (foldl insert_back acc xs) = mset acc + mset xs" for acc
    by (induction xs arbitrary: acc) (simp_all add: mset_insert_back)
  then show ?thesis by (simp add: nsw_sort_def)
qed

lemma sorted_insert_back:
  assumes "sorted_wrt cand_le pre" and "\<forall>a \<in> insert x (set pre). \<not> f64_nan (ce_dist a)"
  shows "sorted_wrt cand_le (insert_back pre x)"
proof -
  from insert_back_split [of pre x] obtain front post where fb: "pre = front @ post"
    "insert_back pre x = front @ [x] @ post" "\<forall>a \<in> set post. cand_after a x"
    "front \<noteq> [] \<longrightarrow> \<not> cand_after (last front) x" by blast
  have post: "\<forall>a \<in> set post. cand_le x a"
    using fb(1,3) assms(2) cand_after_le cand_le_total by auto
  have front: "cand_le a x" if "a \<in> set front" for a
  proof -
    from that have ne: "front \<noteq> []" by auto
    then have l: "cand_le (last front) x"
      using fb(1,4) assms(2) cand_after_le [of "last front" x] by auto
    have "a = last front \<or> cand_le a (last front)"
    proof -
      have "sorted_wrt cand_le (butlast front @ [last front])"
        using assms(1) fb(1) ne by (simp add: sorted_wrt_append)
      moreover have "a \<in> set (butlast front @ [last front])" using that ne by simp
      ultimately show ?thesis by (auto simp: sorted_wrt_append)
    qed
    with l cand_le_trans show ?thesis by blast
  qed
  from assms(1) fb(1) have "sorted_wrt cand_le front" "sorted_wrt cand_le post"
    "\<forall>a \<in> set front. \<forall>b \<in> set post. cand_le a b" by (auto simp: sorted_wrt_append)
  with post front fb(2) show ?thesis by (auto simp: sorted_wrt_append)
qed

lemma sorted_nsw_sort:
  assumes "\<forall>a \<in> set xs. \<not> f64_nan (ce_dist a)"
  shows "sorted_wrt cand_le (nsw_sort xs)"
proof -
  have "sorted_wrt cand_le (foldl insert_back acc xs)"
    if "sorted_wrt cand_le acc" "\<forall>a \<in> set acc \<union> set xs. \<not> f64_nan (ce_dist a)" for acc
    using that
  proof (induction xs arbitrary: acc)
    case Nil
    then show ?case by simp
  next
    case (Cons x xs)
    have "set (insert_back acc x) = insert x (set acc)"
      using mset_insert_back by (metis set_mset_add_mset_insert set_mset_mset)
    with Cons sorted_insert_back [of acc x] show ?case by simp
  qed
  with assms show ?thesis by (simp add: nsw_sort_def)
qed

lemma sorted_wrt_cand_le_keys: "sorted_wrt cand_le xs \<Longrightarrow> sorted (map (\<lambda>c. f64_key (ce_dist c)) xs)"
  unfolding sorted_wrt_map by (erule sorted_wrt_mono_rel [rotated]) (auto simp: cand_le_def)

section \<open>The whole search\<close>

text \<open>What the callers provide: a query of the graph's dimension and large enough buffers.\<close>

definition search_args_ok :: "AnnGraph \<Rightarrow> f32 list \<Rightarrow> int \<Rightarrow> Bitset \<Rightarrow> nat \<Rightarrow> int \<Rightarrow> bool" where
  "search_args_ok g query k visited cand_cap res_cap \<longleftrightarrow>
     g_dim g \<le> int (length query) \<and> 0 < k \<and> g_n_nodes g \<le> int (bitset_bound visited) \<and>
     g_n_nodes g \<le> int cand_cap \<and> 0 < res_cap"

definition beam_width :: "int \<Rightarrow> int \<Rightarrow> int \<Rightarrow> int" where
  "beam_width k ef res_cap = min res_cap (max ef k)"

lemma nsw_search_start:
  assumes wf: "ann_wf g" and ok: "search_args_ok g query k visited cand_cap res_cap"
  obtains s0 where "nsw_inv g query (beam_width k ef res_cap) s0" and "nsw_full g s0"
    and "nsw_search g query k ef visited cand_cap res_cap =
      (case nsw_loop g query (beam_width k ef res_cap) cand_cap s0 of None \<Rightarrow> None
       | Some s \<Rightarrow> Some (take (nat k) (nsw_sort (s_results s)), s_visited s))"
proof -
  define ep where "ep = (if g_entry_node g < 0 \<or> g_entry_node g \<ge> g_n_nodes g then 0 else g_entry_node g)"
  let ?ef = "beam_width k ef res_cap"
  from wf have n: "0 < g_n_nodes g" by (simp add: ann_wf_def)
  then have ep: "in_graph g ep" "nat ep = entry_of g" by (auto simp: ep_def in_graph_def entry_of_def)
  from ok have q: "g_dim g \<le> int (length query)" and k: "0 < k"
    and vb: "g_n_nodes g \<le> int (bitset_bound visited)" and cap: "g_n_nodes g \<le> int cand_cap" and rc: "0 < res_cap"
    by (auto simp: search_args_ok_def)
  from k rc have ef: "0 < ?ef" by (simp add: beam_width_def)
  from ann_wf_dist [OF wf ep(1) q] obtain d0 where d0: "ann_dist_to g query ep = Some d0" by blast
  let ?e0 = "\<lparr>ce_idx = ep, ce_dist = d0\<rparr>"
  have "nat ep < bitset_bound (bitset_reset visited)"
    using ep(1) vb unfolding bitset.bound_reset in_graph_def by linarith
  from bitset.mark_in [OF this] obtain v where v: "bitset_set (bitset_reset visited) (nat ep) = Some v"
    "bitset_bound v = bitset_bound visited" "bitset_members v = {nat ep}"
    by (auto simp: bitset.reset_empty bitset.bound_reset)
  have c: "minheap_push cand_cap [] ?e0 = Some [?e0]" using cap n by (simp add: minheap_push_def)
  have r: "maxheap_push [] ?ef ?e0 = [?e0]" using ef by (simp add: maxheap_push_def)
  let ?s0 = "\<lparr>s_visited = v, s_cand = [?e0], s_results = [?e0]\<rparr>"
  have inv: "nsw_inv g query ?ef ?s0"
    using v vb ep(1) d0 ef n by (auto simp: nsw_inv_def entries_ok_def in_graph_def)
  have full: "nsw_full g ?s0"
    using v(3) ep(2) by (simp add: nsw_full_def idxs_def reachable.entry)
  have efeq: "(if res_cap < (if ef < k then k else ef) then res_cap else (if ef < k then k else ef)) = ?ef"
    by (simp add: beam_width_def min_def max_def)
  have cut: "take (if int (length xs) > k then nat k else length xs) (nsw_sort xs) = take (nat k) (nsw_sort xs)" for xs
  proof -
    have "length (nsw_sort xs) = length xs" by (metis mset_nsw_sort size_mset)
    then show ?thesis by auto
  qed
  have "nsw_search g query k ef visited cand_cap res_cap =
      (case nsw_loop g query ?ef cand_cap ?s0 of None \<Rightarrow> None
       | Some s \<Rightarrow> Some (take (nat k) (nsw_sort (s_results s)), s_visited s))"
    unfolding nsw_search_def
    using n k d0 c v(1) r efeq by (simp add: Let_def cut ep_def [symmetric] split: option.split)
  with that inv full show thesis by blast
qed

lemma nsw_search_result:
  assumes wf: "ann_wf g" and ok: "search_args_ok g query k visited cand_cap res_cap"
  obtains s where "nsw_search g query k ef visited cand_cap res_cap =
      Some (take (nat k) (nsw_sort (s_results s)), s_visited s)"
    and "nsw_inv g query (beam_width k ef res_cap) s"
    and "g_n_nodes g \<le> beam_width k ef res_cap \<Longrightarrow> idxs (s_results s) = reachable g"
proof -
  from nsw_search_start [OF wf ok, of ef] obtain s0 where
    s0: "nsw_inv g query (beam_width k ef res_cap) s0" "nsw_full g s0"
    and eq: "nsw_search g query k ef visited cand_cap res_cap =
      (case nsw_loop g query (beam_width k ef res_cap) cand_cap s0 of None \<Rightarrow> None
       | Some s \<Rightarrow> Some (take (nat k) (nsw_sort (s_results s)), s_visited s))" by blast
  from ok have q: "g_dim g \<le> int (length query)" and cap: "g_n_nodes g \<le> int cand_cap"
    by (auto simp: search_args_ok_def)
  from nsw_loop_inv [OF wf q cap s0(1)] obtain s where
    s: "nsw_loop g query (beam_width k ef res_cap) cand_cap s0 = Some s" "nsw_inv g query (beam_width k ef res_cap) s"
    by blast
  from nsw_loop_full [OF wf q cap _ s0 s(1)] that [of s] eq s show thesis by simp
qed

text \<open>The bit set keeps its size.\<close>

lemma nsw_neighbours_bound:
  "nsw_neighbours g query ef cand_cap ne s = Some s' \<Longrightarrow> bitset_bound (s_visited s') = bitset_bound (s_visited s)"
proof (induction ne arbitrary: s)
  case Nil
  then show ?case by simp
next
  case (Cons nb ne)
  have m: "bitset_bound v = bitset_bound (s_visited s)" if "bitset_set (s_visited s) (nat nb) = Some v" for v
    using bitset.mark_members [OF that] by simp
  from Cons.prems Cons.IH m show ?case
    by (auto simp: Let_def split: if_splits option.splits bool.splits)
qed

lemma nsw_loop_bound:
  "nsw_loop g query ef cand_cap s = Some s' \<Longrightarrow> bitset_bound (s_visited s') = bitset_bound (s_visited s)"
proof (induction g query ef cand_cap s rule: nsw_loop.induct)
  case (1 g query ef cand_cap s)
  show ?case
  proof (cases "s_cand s = [] \<or> nsw_stop ef s")
    case True
    then show ?thesis
      using 1(2) nsw_loop_stop [of s ef g query cand_cap] by (cases "s_cand s = []") (auto simp: nsw_loop.simps)
  next
    case False
    then have ne: "s_cand s \<noteq> []" and go: "\<not> nsw_stop ef s" by simp_all
    let ?s1 = "s\<lparr>s_cand := snd (minheap_pop (s_cand s))\<rparr>"
    from 1(2) ne go obtain ne' s2 where e: "ann_edges g (ce_idx (fst (minheap_pop (s_cand s)))) = Some ne'"
      and n: "nsw_neighbours g query ef cand_cap ne' ?s1 = Some s2"
      by (subst (asm) nsw_loop.simps) (auto simp: nsw_stop_def Let_def split: option.splits if_splits)
    have "nsw_loop g query ef cand_cap s2 = Some s'" using nsw_loop_expand(1) [OF ne go e n] 1(2) by simp
    with 1(1) [OF ne refl refl _ e n] go nsw_neighbours_bound [OF n] show ?thesis by (simp add: nsw_stop_def)
  qed
qed

lemma nsw_search_bound:
  "nsw_search g query k ef visited cand_cap res_cap = Some (out, v) \<Longrightarrow> bitset_bound v = bitset_bound visited"
proof -
  assume a: "nsw_search g query k ef visited cand_cap res_cap = Some (out, v)"
  then consider "v = visited"
    | i v0 c r s ef' where "bitset_set (bitset_reset visited) i = Some v0"
      "nsw_loop g query ef' cand_cap \<lparr>s_visited = v0, s_cand = c, s_results = r\<rparr> = Some s" "v = s_visited s"
    unfolding nsw_search_def Let_def by (auto split: if_splits option.splits)
  then show ?thesis
  proof cases
    case (2 i v0 c r s ef')
    from bitset.mark_members [OF 2(1)] nsw_loop_bound [OF 2(2)] 2(3) show ?thesis
      by (simp add: bitset.bound_reset)
  qed simp
qed

lemma nsw_search_answer:
  assumes "ann_wf g" and "search_args_ok g query k visited cand_cap res_cap"
  shows "\<exists>out v. nsw_search g query k ef visited cand_cap res_cap = Some (out, v) \<and>
    out \<noteq> [] \<and> int (length out) \<le> min k (beam_width k ef res_cap) \<and> distinct (map ce_idx out) \<and>
    (\<forall>c \<in> set out. in_graph g (ce_idx c) \<and> ann_dist_to g query (ce_idx c) = Some (ce_dist c)) \<and>
    bitset_bound v = bitset_bound visited"
proof -
  from nsw_search_result [OF assms, of ef] obtain s where
    eq: "nsw_search g query k ef visited cand_cap res_cap =
      Some (take (nat k) (nsw_sort (s_results s)), s_visited s)"
    and inv: "nsw_inv g query (beam_width k ef res_cap) s" by blast
  let ?o = "take (nat k) (nsw_sort (s_results s))"
  have len: "length (nsw_sort (s_results s)) = length (s_results s)" by (metis mset_nsw_sort size_mset)
  have set: "set (nsw_sort (s_results s)) = set (s_results s)" by (metis mset_nsw_sort set_mset_mset)
  from inv have ne: "s_results s \<noteq> []" and le: "int (length (s_results s)) \<le> beam_width k ef res_cap"
    and dis: "distinct (map ce_idx (s_results s))"
    and e: "entries_ok g query (s_visited s) (set (s_results s))"
    by (auto simp: nsw_inv_def entries_ok_def)
  have k: "0 < k" using assms(2) by (simp add: search_args_ok_def)
  have "?o \<noteq> []" using k ne len by (cases "nsw_sort (s_results s)") auto
  moreover have "int (length ?o) \<le> min k (beam_width k ef res_cap)" using le k len by auto
  moreover have "mset (map ce_idx (nsw_sort (s_results s))) \<subseteq># mset (map ce_idx (s_results s))"
    by (metis mset_map mset_nsw_sort subset_mset.order_refl)
  then have "distinct (map ce_idx ?o)"
    using dis by (metis distinct_submset distinct_take take_map)
  moreover have "\<forall>c \<in> set ?o. in_graph g (ce_idx c) \<and> ann_dist_to g query (ce_idx c) = Some (ce_dist c)"
    using e set by (auto simp: entries_ok_def dest: in_set_takeD)
  ultimately show ?thesis using eq nsw_search_bound [OF eq] by blast
qed

text \<open>
  C5. The beam search is safe and its answer well-formed. On a well-formed graph, for every query,
  beam width and entry node, it returns (it terminates, and no access leaves the graph's
  arrays, the bit set or the candidate queue); it returns at least one and at most
  \<open>min k (beam width)\<close> entries, of distinct nodes of the graph, each with its true distance,
  and the bit set it leaves is as large as before.
\<close>

theorem nsw_search_safe:
  assumes "ann_wf g" and "search_args_ok g query k visited cand_cap res_cap"
  shows "\<exists>out v. nsw_search g query k ef visited cand_cap res_cap = Some (out, v) \<and>
    out \<noteq> [] \<and> int (length out) \<le> min k (beam_width k ef res_cap) \<and> distinct (map ce_idx out) \<and>
    (\<forall>c \<in> set out. in_graph g (ce_idx c) \<and> ann_dist_to g query (ce_idx c) = Some (ce_dist c)) \<and>
    bitset_bound v = bitset_bound visited"
  by (rule nsw_search_answer [OF assms])

text \<open>Two nodes joined by an edge in each direction, with the elements 1.0 and 2.0.\<close>

definition sample_graph :: AnnGraph where
  "sample_graph = \<lparr>g_metric = 2, g_dim = 1, g_m = 1, g_ef_construct = 8, g_n_nodes = 2, g_entry_node = 1,
     g_chunk_ids = [7, 8], g_edges = [1, 0], g_embeddings = [0x3F800000, 0x40000000], g_edge_dists = []\<rparr>"

lemma sample_graph_wf: "ann_wf sample_graph"
  by (simp add: ann_wf_def sample_graph_def)

lemma sample_graph_args: "search_args_ok sample_graph [0x3F800000] 1 (bitset_new 2) 3 3"
  by (simp add: search_args_ok_def sample_graph_def bitset_bound_def bitset_new_def)

theorem nsw_search_safe_witness:
  "ann_wf sample_graph \<and> search_args_ok sample_graph [0x3F800000] 1 (bitset_new 2) 3 3 \<and>
   (\<exists>out v. nsw_search sample_graph [0x3F800000] 1 2 (bitset_new 2) 3 3 = Some (out, v) \<and> out \<noteq> [])"
  using nsw_search_safe [OF sample_graph_wf sample_graph_args, of 2] sample_graph_wf sample_graph_args by blast

text \<open>
  C4. With a beam and a result buffer at least as wide as the graph the search is exact on what is
  reachable: on a well-formed graph, with arguments of the right sizes and no NaN among the distances
  of the reachable nodes, it returns the \<open>k\<close> smallest distances among all nodes reachable from the
  entry node, in ascending order, ties by node number.
\<close>

theorem nsw_search_exact:
  assumes "ann_wf g" and "search_args_ok g query k visited cand_cap res_cap"
    and "g_n_nodes g \<le> ef" and "g_n_nodes g \<le> res_cap"
    and "\<forall>i \<in> reachable g. \<not> f64_nan (the (ann_dist_to g query (int i)))"
  shows "\<exists>out v. nsw_search g query k ef visited cand_cap res_cap = Some (out, v) \<and>
    map (\<lambda>c. f64_key (ce_dist c)) out =
      take (nat k) (sort (map (\<lambda>i. f64_key (the (ann_dist_to g query (int i)))) (sorted_list_of_set (reachable g)))) \<and>
    sorted_wrt cand_le out"
proof -
  have beam: "g_n_nodes g \<le> beam_width k ef res_cap" using assms(3,4) by (simp add: beam_width_def)
  from nsw_search_result [OF assms(1,2), of ef] beam obtain s where
    eq: "nsw_search g query k ef visited cand_cap res_cap =
      Some (take (nat k) (nsw_sort (s_results s)), s_visited s)"
    and inv: "nsw_inv g query (beam_width k ef res_cap) s" and all: "idxs (s_results s) = reachable g" by blast
  let ?rs = "s_results s" and ?d = "\<lambda>i. f64_key (the (ann_dist_to g query (int i)))"
  from inv have dis: "distinct (map ce_idx ?rs)" and e: "entries_ok g query (s_visited s) (set ?rs)"
    by (auto simp: nsw_inv_def entries_ok_def)
  have nd: "ann_dist_to g query (int (nat (ce_idx c))) = Some (ce_dist c)" "nat (ce_idx c) \<in> reachable g"
    if "c \<in> set ?rs" for c
    using e that all by (auto simp: entries_ok_def in_graph_def idxs_def)
  have nn: "\<forall>c \<in> set ?rs. \<not> f64_nan (ce_dist c)" using nd assms(5) by force
  have card: "length ?rs = card (reachable g)" using distinct_entries_card(1) [OF e dis] all by simp
  have fin: "finite (reachable g)"
    unfolding all [symmetric] idxs_def by simp
  have "distinct (map (\<lambda>c. nat (ce_idx c)) ?rs)"
    using card all by (intro card_distinct) (simp add: idxs_def)
  then have "mset (map (\<lambda>c. nat (ce_idx c)) ?rs) = mset (sorted_list_of_set (reachable g))"
    by (intro set_eq_iff_mset_eq_distinct [THEN iffD1]) (use fin all in \<open>auto simp: idxs_def\<close>)
  then have "mset (map ?d (map (\<lambda>c. nat (ce_idx c)) ?rs)) = mset (map ?d (sorted_list_of_set (reachable g)))"
    by (metis mset_map)
  moreover have "map ?d (map (\<lambda>c. nat (ce_idx c)) ?rs) = map (\<lambda>c. f64_key (ce_dist c)) ?rs"
    using nd(1) by simp
  ultimately have ms: "mset (map (\<lambda>c. f64_key (ce_dist c)) (nsw_sort ?rs)) =
      mset (map ?d (sorted_list_of_set (reachable g)))"
    using mset_nsw_sort [of ?rs] by (metis mset_map)
  have srt: "sorted_wrt cand_le (nsw_sort ?rs)" by (rule sorted_nsw_sort [OF nn])
  then have "map (\<lambda>c. f64_key (ce_dist c)) (nsw_sort ?rs) = sort (map ?d (sorted_list_of_set (reachable g)))"
    using ms by (intro properties_for_sort [symmetric] sorted_wrt_cand_le_keys)
  moreover have "sorted_wrt cand_le (take (nat k) (nsw_sort ?rs))" using srt by (rule sorted_wrt_take)
  ultimately show ?thesis using eq by (metis take_map)
qed

lemma sample_graph_dists:
  "ann_dist_to sample_graph [0x3F800000] 0 = Some 0"
  "ann_dist_to sample_graph [0x3F800000] 1 = Some 0x3FF0000000000000"
  by code_simp+

lemma sample_graph_neighbours: "neighbours sample_graph 0 = {1}" "neighbours sample_graph 1 = {0}"
  by (simp_all add: neighbours_def ann_edges_def array_slice_def sample_graph_def)

lemma sample_graph_entry: "entry_of sample_graph = 1"
  by (simp add: entry_of_def sample_graph_def)

lemma sample_graph_reachable: "reachable sample_graph = {0, 1}"
proof
  show "reachable sample_graph \<subseteq> {0, 1}"
    by (rule reachable_least)
       (simp_all add: closed_under_def sample_graph_neighbours sample_graph_entry flip: One_nat_def)
  have "entry_of sample_graph = 1" by (rule sample_graph_entry)
  then have 1: "1 \<in> reachable sample_graph" using reachable.entry [of sample_graph] by simp
  then have "0 \<in> reachable sample_graph" by (rule reachable.step) (simp add: sample_graph_neighbours del: One_nat_def)
  with 1 show "{0, 1} \<subseteq> reachable sample_graph" by simp
qed

theorem nsw_search_exact_witness:
  "\<exists>out v. nsw_search sample_graph [0x3F800000] 1 2 (bitset_new 2) 3 3 = Some (out, v) \<and>
     map (\<lambda>c. f64_key (ce_dist c)) out = [0]"
proof -
  have keys: "f64_key 0x3FF0000000000000 = 0x3FF0000000000000" "f64_key 0 = 0"
    "\<not> f64_nan 0x3FF0000000000000" by code_simp+
  have nn: "\<forall>i \<in> reachable sample_graph. \<not> f64_nan (the (ann_dist_to sample_graph [0x3F800000] (int i)))"
    unfolding sample_graph_reachable by (simp add: sample_graph_dists keys)
  have n: "g_n_nodes sample_graph \<le> 2" "g_n_nodes sample_graph \<le> 3" by (simp_all add: sample_graph_def)
  have l: "sorted_list_of_set {0, 1 :: nat} = [0, 1]" by simp
  have "sort (map (\<lambda>i. f64_key (the (ann_dist_to sample_graph [0x3F800000] (int i)))) (sorted_list_of_set (reachable sample_graph)))
      = [0, 0x3FF0000000000000]"
    unfolding sample_graph_reachable l by (simp add: sample_graph_dists keys)
  with nsw_search_exact [OF sample_graph_wf sample_graph_args n nn] show ?thesis by auto
qed

end
