(* ===== verification/Ann_Build.thy ===== *)
theory Ann_Build
  imports Ann_Search
begin

text \<open>
  Building a compartment's graph, its blob format, and searching a blob (\<open>src/src/maludb_ann.c\<close>,
  from \<open>ann_set_edge\<close> on). As in the theory of the beam search, \<open>None\<close> is an access outside an
  allocation or a signed overflow. For the build, which requests \<open>palloc\<close> grants (it refuses large
  ones with an error) and what fresh memory contains are parameters. Memory contexts are not modelled,
  so that the lifetime of a buffer is not part of the statements.
\<close>

section \<open>Linking nodes\<close>

text \<open>The scan for a free slot, remembering the worst edge seen so far.\<close>

function edge_scan :: "int list \<Rightarrow> f64 list \<Rightarrow> nat \<Rightarrow> nat \<Rightarrow> nat option \<times> nat" where
  "edge_scan ea da e worst =
     (if e < length ea then
        if ea ! e = EDGE_NONE then (Some e, worst)
        else edge_scan ea da (Suc e) (if f64_gt (da ! e) (da ! worst) then e else worst)
      else (None, worst))"
  by pat_completeness auto
termination
  by (relation "measure (\<lambda>(ea, da, e, worst). length ea - e)") auto

declare edge_scan.simps [simp del]

definition write_edge :: "AnnGraph \<Rightarrow> int \<Rightarrow> nat \<Rightarrow> int \<Rightarrow> f64 \<Rightarrow> AnnGraph option" where
  "write_edge g a e b dist =
     (let p = nat (a * g_m g) + e in
      if p < length (g_edges g) \<and> p < length (g_edge_dists g)
      then Some (g\<lparr>g_edges := (g_edges g)[p := b], g_edge_dists := (g_edge_dists g)[p := dist]\<rparr>)
      else None)"

definition ann_set_edge :: "AnnGraph \<Rightarrow> int \<Rightarrow> int \<Rightarrow> f64 \<Rightarrow> AnnGraph option" where
  "ann_set_edge g a b dist =
     (case (ann_edges g a, ann_edge_dists g a) of
        (Some ea, Some da) \<Rightarrow>
          (case edge_scan ea da 0 0 of
             (Some e, _) \<Rightarrow> write_edge g a e b dist
           | (None, worst) \<Rightarrow>
               if worst < length da
               then (if f64_lt dist (da ! worst) then write_edge g a worst b dist else Some g)
               else None)
      | _ \<Rightarrow> None)"

primrec link_found :: "AnnGraph \<Rightarrow> int \<Rightarrow> CandEntry list \<Rightarrow> AnnGraph option" where
  "link_found g i [] = Some g"
| "link_found g i (t # ts) =
     (case ann_set_edge g i (ce_idx t) (ce_dist t) of
        None \<Rightarrow> None
      | Some g1 \<Rightarrow> (case ann_set_edge g1 (ce_idx t) i (ce_dist t) of
            None \<Rightarrow> None
          | Some g2 \<Rightarrow> link_found g2 i ts))"

section \<open>Building\<close>

record build_row =
  b_id :: "i64 option"
  b_emb :: "bytes option"

text \<open>
  The sizes \<open>palloc\<close> grants, and the contents of freshly allocated arrays, by number of elements.
\<close>

record fresh_memory =
  palloc_grants :: "64 word \<Rightarrow> bool"
  fresh_i64 :: "nat \<Rightarrow> i64 list"
  fresh_f32 :: "nat \<Rightarrow> f32 list"
  fresh_f64 :: "nat \<Rightarrow> f64 list"

definition ann_error :: "string \<Rightarrow> 'a result" where
  "ann_error m = Inl (Ereport ERRCODE_INTERNAL_ERROR m)"

definition array_write :: "'a list \<Rightarrow> nat \<Rightarrow> 'a list \<Rightarrow> 'a list" where
  "array_write xs off ys = take off xs @ ys @ drop (off + length ys) xs"

text \<open>A row whose embedding is NULL leaves its slots as they were allocated.\<close>

fun load_rows :: "nat \<Rightarrow> nat \<Rightarrow> build_row list \<Rightarrow> i64 list \<Rightarrow> f32 list \<Rightarrow> (i64 list \<times> f32 list) result option" where
  "load_rows dim i [] ids embs = Some (Inr (ids, embs))"
| "load_rows dim i (row # rows) ids embs =
     (let cid = (case b_id row of None \<Rightarrow> 0 | Some c \<Rightarrow> c) in
      case b_emb row of
        None \<Rightarrow> load_rows dim (Suc i) rows ids embs
      | Some eb \<Rightarrow>
          if length eb div 4 \<noteq> dim
          then Some (ann_error (''ann_build: dim mismatch at chunk '' @ fmt_d (sint cid)))
          else if i < length ids \<and> (i + 1) * dim \<le> length embs
          then load_rows dim (Suc i) rows (ids[i := cid]) (array_write embs (i * dim) (vec_floats eb))
          else None)"

text \<open>
  The insertion loop over \<open>i = 1 .. n_nodes - 1\<close>: search the graph cut to its first \<open>i\<close> nodes, link. The sums
  \<open>n_nodes + 1\<close> and \<open>ef_construct + 1\<close> are those the caller has computed before, where they would overflow.
\<close>

primrec build_nodes :: "AnnGraph \<Rightarrow> Bitset \<Rightarrow> nat list \<Rightarrow> AnnGraph option" where
  "build_nodes g visited [] = Some g"
| "build_nodes g visited (i # is) =
     (case ann_emb g (int i) of
        None \<Rightarrow> None
      | Some q \<Rightarrow>
          (case nsw_search (g\<lparr>g_n_nodes := int i\<rparr>) q (g_m g) (g_ef_construct g) visited
                  (nat (g_n_nodes g) + 1) (g_ef_construct g + 1) of
             None \<Rightarrow> None
           | Some (topm, visited') \<Rightarrow>
               (case link_found g (int i) topm of
                  None \<Rightarrow> None
                | Some g' \<Rightarrow> build_nodes g' visited' is)))"

definition i32_le :: "int \<Rightarrow> bytes" where
  "i32_le x = le_bytes 4 (unat (word_of_int x :: i32))"

definition ids_bytes :: "i64 list \<Rightarrow> bytes" where
  "ids_bytes ids = concat (map (\<lambda>c. le_bytes 8 (unat c)) ids)"

text \<open>The four bytes of the magic \<open>ANN1\<close>.\<close>

definition ANN_MAGIC :: bytes where
  "ANN_MAGIC = [0x41, 0x4E, 0x4E, 0x31]"

definition ANN_HEADER_BYTES :: nat where
  "ANN_HEADER_BYTES = 32"

definition ann_header :: "int \<Rightarrow> int \<Rightarrow> int \<Rightarrow> int \<Rightarrow> int \<Rightarrow> int \<Rightarrow> bytes" where
  "ann_header metric dim m ef n entry =
     ANN_MAGIC @ i32_le metric @ i32_le dim @ i32_le m @ i32_le ef @ i32_le n @ i32_le entry @ i32_le 0"

definition ann_serialize :: "AnnGraph \<Rightarrow> bytes" where
  "ann_serialize g =
     ann_header (g_metric g) (g_dim g) (g_m g) (g_ef_construct g) (g_n_nodes g) (g_entry_node g)
     @ ids_bytes (g_chunk_ids g)
     @ concat (map i32_le (g_edges g))
     @ vec_bytes (g_embeddings g)"

definition ann_init :: "fresh_memory \<Rightarrow> int \<Rightarrow> nat \<Rightarrow> int \<Rightarrow> int \<Rightarrow> nat \<Rightarrow> i64 list \<Rightarrow> f32 list \<Rightarrow> AnnGraph" where
  "ann_init mem metric dim m ef_construct n ids embs =
     \<lparr>g_metric = metric, g_dim = int dim, g_m = m, g_ef_construct = ef_construct, g_n_nodes = int n,
      g_entry_node = 0, g_chunk_ids = ids, g_edges = replicate (n * nat m) EDGE_NONE,
      g_embeddings = embs, g_edge_dists = fresh_f64 mem (n * nat m)\<rparr>"

definition INT_MAX :: int where
  "INT_MAX = 0x7FFFFFFF"

text \<open>The requests, in \<open>size_t\<close>, in the order of the code: the graph, the scratch memory, the blob.\<close>

definition graph_requests :: "int \<Rightarrow> int \<Rightarrow> int \<Rightarrow> 64 word list" where
  "graph_requests n m dim =
     [8 * word_of_int n, 4 * word_of_int n * word_of_int m, 8 * word_of_int n * word_of_int m,
      4 * word_of_int n * word_of_int dim]"

definition scratch_requests :: "int \<Rightarrow> int \<Rightarrow> 64 word list" where
  "scratch_requests n ef =
     [16, word_of_int ((n + 63) div 64) * 8, 16 * word_of_int (n + 1), 16 * word_of_int (ef + 1), 16 * word_of_int (ef + 1)]"

definition blob_request :: "int \<Rightarrow> int \<Rightarrow> int \<Rightarrow> 64 word" where
  "blob_request n m dim =
     4 + (of_nat ANN_HEADER_BYTES + word_of_int n * 8 + word_of_int n * word_of_int m * 4 + word_of_int n * word_of_int dim * 4)"

primrec palloc_all :: "(64 word \<Rightarrow> bool) \<Rightarrow> 64 word list \<Rightarrow> 'a result option \<Rightarrow> 'a result option" where
  "palloc_all grants [] next = next"
| "palloc_all grants (sz # szs) next =
     (if grants sz then palloc_all grants szs next
      else Some (ann_error (''invalid memory alloc request size '' @ fmt_nat (unat sz))))"

lemma palloc_all_granted: "\<forall>sz \<in> set szs. grants sz \<Longrightarrow> palloc_all grants szs next = next"
  by (induction szs) simp_all

text \<open>
  \<open>n_nodes\<close> is the row count cast to \<open>int\<close>. A negative one makes the first request close to 2 ^ 64; should
  it be granted, the arrays are not what the code takes them for. The sums \<open>n_nodes + 63\<close> in
  \<open>bitset_new\<close>, \<open>n_nodes + 1\<close> and \<open>ef_construct + 1\<close> are computed in \<open>int\<close>.
\<close>

definition maludb_ann_build_c ::
  "fresh_memory \<Rightarrow> int \<Rightarrow> (i64 \<Rightarrow> int \<times> build_row list) \<Rightarrow> i64 \<Rightarrow> i32 \<Rightarrow> i32 \<Rightarrow> string \<Rightarrow> bytes result option" where
  "maludb_ann_build_c mem connect_ret scan compartment_id m ef_construct metric_arg =
     (case ann_parse_metric metric_arg of
        Inl e \<Rightarrow> Some (Inl e)
      | Inr metric \<Rightarrow>
          if sint m \<le> 0 then Some (ann_error ''ann_build: m must be > 0'')
          else if sint ef_construct \<le> 0 then Some (ann_error ''ann_build: ef_construct must be > 0'')
          else if connect_ret \<noteq> SPI_OK_CONNECT
          then Some (ann_error (''SPI_connect failed: '' @ fmt_d connect_ret))
          else (case scan compartment_id of (ret, rows) \<Rightarrow>
            if ret \<noteq> SPI_OK_SELECT
            then Some (ann_error (''ann_build SPI scan failed: '' @ fmt_d ret))
            else
              let n_nodes = sint (of_nat (length rows) :: i32) in
              if n_nodes = 0 then Some (Inr (ann_header metric 0 (sint m) (sint ef_construct) 0 (- 1)))
              else (case b_emb (hd rows) of
                   None \<Rightarrow> Some (ann_error ''ann_build: first chunk has NULL embedding'')
                 | Some eb \<Rightarrow>
                     if length eb mod 4 \<noteq> 0
                     then Some (ann_error (''ann_build: embedding length '' @ fmt_nat (length eb)
                            @ '' not multiple of 4''))
                     else
                       let dim = length eb div 4; n = nat n_nodes in
                       palloc_all (palloc_grants mem) (graph_requests n_nodes (sint m) (int dim))
                         (if n_nodes < 0 then None
                          else (case load_rows dim 0 (take n rows) (fresh_i64 mem n) (fresh_f32 mem (n * dim)) of
                            None \<Rightarrow> None
                          | Some (Inl e) \<Rightarrow> Some (Inl e)
                          | Some (Inr (ids, embs)) \<Rightarrow>
                              if INT_MAX - 63 < n_nodes \<or> sint ef_construct = INT_MAX then None
                              else palloc_all (palloc_grants mem) (scratch_requests n_nodes (sint ef_construct))
                                (case build_nodes (ann_init mem metric dim (sint m) (sint ef_construct) n ids embs)
                                        (bitset_new n) [1 ..< n] of
                                   None \<Rightarrow> None
                                 | Some g \<Rightarrow>
                                     palloc_all (palloc_grants mem) [blob_request n_nodes (sint m) (int dim)]
                                       (Some (Inr (ann_serialize g)))))))))"

section \<open>Reading a blob\<close>

definition le_i32_at :: "bytes \<Rightarrow> nat \<Rightarrow> int" where
  "le_i32_at p off = sint (of_nat (le_value (take 4 (drop off p))) :: i32)"

fun le_i64s :: "bytes \<Rightarrow> i64 list" where
  "le_i64s (a # b # c # d # e # f # g # h # bs) = of_nat (le_value [a, b, c, d, e, f, g, h]) # le_i64s bs"
| "le_i64s bs = []"

text \<open>
  The memory from offset \<open>off\<close> (a \<open>size_t\<close>) of the payload on; an offset past its end reads nothing.
\<close>

definition blob_from :: "bytes \<Rightarrow> 64 word \<Rightarrow> bytes" where
  "blob_from p off = (if unat off \<le> length p then drop (unat off) p else [])"

text \<open>The three sizes are computed in \<open>size_t\<close>, where a negative \<open>int32\<close> sign-extends.\<close>

definition ann_decode_blob :: "bytes \<Rightarrow> AnnGraph result" where
  "ann_decode_blob p =
     (let len = length p in
      if len < ANN_HEADER_BYTES
      then ann_error (''ann_search: blob too short ('' @ fmt_nat len @ '' bytes)'')
      else if take 4 p \<noteq> ANN_MAGIC then ann_error ''ann_search: bad magic''
      else
        let metric = le_i32_at p 4; dim = le_i32_at p 8; m = le_i32_at p 12;
            ef = le_i32_at p 16; n = le_i32_at p 20; entry = le_i32_at p 24;
            ids_sz = (word_of_int n :: 64 word) * 8;
            edges_sz = word_of_int n * word_of_int m * 4;
            emb_sz = word_of_int n * word_of_int dim * 4
        in if (of_nat len :: 64 word) < of_nat ANN_HEADER_BYTES + ids_sz + edges_sz + emb_sz
           then ann_error ''ann_search: blob truncated''
           else Inr
             \<lparr>g_metric = metric, g_dim = dim, g_m = m, g_ef_construct = ef, g_n_nodes = n, g_entry_node = entry,
              g_chunk_ids = le_i64s (blob_from p (of_nat ANN_HEADER_BYTES)),
              g_edges = map sint (vec_floats (blob_from p (of_nat ANN_HEADER_BYTES + ids_sz))),
              g_embeddings = vec_floats (blob_from p (of_nat ANN_HEADER_BYTES + ids_sz + edges_sz)),
              g_edge_dists = []\<rparr>)"

record ann_result =
  ar_chunk_id :: i64
  ar_distance :: f64
  ar_similarity :: f64
  ar_rank :: i32

primrec ann_emit :: "AnnGraph \<Rightarrow> nat \<Rightarrow> CandEntry list \<Rightarrow> ann_result list option" where
  "ann_emit g i [] = Some []"
| "ann_emit g i (c # cs) =
     (if 0 \<le> ce_idx c \<and> ce_idx c < int (length (g_chunk_ids g)) then
        let sim = (if g_metric g = ANN_METRIC_COSINE then f64_sub f64_one (ce_dist c) else f64_neg (ce_dist c));
            r = \<lparr>ar_chunk_id = g_chunk_ids g ! nat (ce_idx c), ar_distance = ce_dist c,
                 ar_similarity = sim, ar_rank = of_nat (i + 1)\<rparr>
        in map_option ((#) r) (ann_emit g (Suc i) cs)
      else None)"

definition maludb_ann_search_c ::
  "bool \<Rightarrow> bool \<Rightarrow> bytes \<Rightarrow> bytes \<Rightarrow> i32 \<Rightarrow> i32 \<Rightarrow> string option \<Rightarrow> ann_result list result option" where
  "maludb_ann_search_c allows_mat composite blob qbytea k ef_search0 metric_arg =
     (if sint k \<le> 0 then Some (ann_error ''ann_search: k must be > 0'')
      else
        let ef_search = (if sint ef_search0 < sint k then sint k else sint ef_search0) in
        if \<not> allows_mat
        then Some (Inl (Ereport ERRCODE_FEATURE_NOT_SUPPORTED
          ''set-valued function called in context that cannot accept materialized set''))
        else if \<not> composite
        then Some (Inl (Ereport ERRCODE_FEATURE_NOT_SUPPORTED
          ''function returning record called without column definitions''))
        else (case ann_decode_blob blob of
          Inl e \<Rightarrow> Some (Inl e)
        | Inr g0 \<Rightarrow>
            if int (length qbytea div 4) \<noteq> g_dim g0
            then Some (Inl (Ereport ERRCODE_DATA_EXCEPTION
              (''ann_search: query dim '' @ fmt_nat (length qbytea div 4) @ '' != graph dim '' @ fmt_d (g_dim g0))))
            else if g_n_nodes g0 = 0 then Some (Inr [])
            else (case (case metric_arg of None \<Rightarrow> Inr (g_metric g0) | Some m \<Rightarrow> ann_parse_metric m) of
                Inl e \<Rightarrow> Some (Inl e)
              | Inr metric \<Rightarrow>
                  let g = g0\<lparr>g_metric := metric\<rparr> in
                  if INT_MAX - 63 < g_n_nodes g \<or> ef_search = INT_MAX \<or> sint k = INT_MAX then None
                  else (case nsw_search g (vec_floats qbytea) (sint k) ef_search
                               (bitset_new (nat (g_n_nodes g))) (nat (g_n_nodes g + 1)) (ef_search + 1) of
                      None \<Rightarrow> None
                    | Some (found, _) \<Rightarrow> map_option Inr (ann_emit g 0 found)))))"

section \<open>The builder keeps every edge inside the graph\<close>

lemma edge_scan_range:
  "edge_scan ea da e worst = (r, w) \<Longrightarrow> e \<le> length ea \<Longrightarrow> worst < length ea \<Longrightarrow>
   w < length ea \<and> (\<forall>s. r = Some s \<longrightarrow> s < length ea) \<and>
   (r = None \<longrightarrow> (\<forall>s. e \<le> s \<and> s < length ea \<longrightarrow> ea ! s \<noteq> EDGE_NONE))"
proof (induction ea da e worst rule: edge_scan.induct)
  case (1 ea da e worst)
  show ?case
  proof (cases "e < length ea \<and> ea ! e \<noteq> EDGE_NONE")
    case True
    then have "edge_scan ea da e worst = edge_scan ea da (Suc e) (if f64_gt (da ! e) (da ! worst) then e else worst)"
      by (subst edge_scan.simps) simp
    with 1(2) have "edge_scan ea da (Suc e) (if f64_gt (da ! e) (da ! worst) then e else worst) = (r, w)" by simp
    moreover have "Suc e \<le> length ea" "(if f64_gt (da ! e) (da ! worst) then e else worst) < length ea"
      using True 1(4) by auto
    ultimately have "w < length ea \<and> (\<forall>s. r = Some s \<longrightarrow> s < length ea) \<and>
        (r = None \<longrightarrow> (\<forall>s. Suc e \<le> s \<and> s < length ea \<longrightarrow> ea ! s \<noteq> EDGE_NONE))"
      using 1(1) True by blast
    then show ?thesis using True by (metis Suc_leI le_neq_implies_less)
  next
    case False
    with 1(2,4) show ?thesis by (subst (asm) edge_scan.simps) (auto split: if_splits)
  qed
qed

text \<open>The fields a build step does not change, and the bounds it keeps.\<close>

definition same_nodes :: "AnnGraph \<Rightarrow> AnnGraph \<Rightarrow> bool" where
  "same_nodes g g' \<longleftrightarrow> (\<exists>es ds. g' = g\<lparr>g_edges := es, g_edge_dists := ds\<rparr>)"

lemma same_nodes_refl: "same_nodes g g"
proof -
  have "g = g\<lparr>g_edges := g_edges g, g_edge_dists := g_edge_dists g\<rparr>" by (cases g) simp
  then show ?thesis unfolding same_nodes_def by blast
qed

lemma same_nodes_trans: "same_nodes g g' \<Longrightarrow> same_nodes g' g'' \<Longrightarrow> same_nodes g g''"
proof -
  assume "same_nodes g g'" "same_nodes g' g''"
  then obtain es ds es' ds' where "g' = g\<lparr>g_edges := es, g_edge_dists := ds\<rparr>"
    "g'' = g'\<lparr>g_edges := es', g_edge_dists := ds'\<rparr>" unfolding same_nodes_def by blast
  then have "g'' = g\<lparr>g_edges := es', g_edge_dists := ds'\<rparr>" by simp
  then show ?thesis unfolding same_nodes_def by blast
qed

lemma same_nodes_fields:
  assumes "same_nodes g g'"
  shows "g_metric g' = g_metric g" "g_dim g' = g_dim g" "g_m g' = g_m g" "g_ef_construct g' = g_ef_construct g"
    "g_n_nodes g' = g_n_nodes g" "g_entry_node g' = g_entry_node g" "g_chunk_ids g' = g_chunk_ids g"
    "g_embeddings g' = g_embeddings g"
  using assms by (auto simp: same_nodes_def)

definition build_inv :: "int \<Rightarrow> AnnGraph \<Rightarrow> bool" where
  "build_inv i g \<longleftrightarrow> 0 < g_m g \<and> 0 \<le> g_dim g \<and> 0 < g_ef_construct g \<and>
     int (length (g_edges g)) = g_n_nodes g * g_m g \<and> length (g_edge_dists g) = length (g_edges g) \<and>
     int (length (g_embeddings g)) = g_n_nodes g * g_dim g \<and>
     (\<forall>x \<in> set (g_edges g). - 1 \<le> x \<and> x < i) \<and>
     (\<forall>p < length (g_edges g). g_edges g ! p \<noteq> int (p div nat (g_m g)))"

lemma build_inv_mono: "build_inv i g \<Longrightarrow> i \<le> j \<Longrightarrow> build_inv j g"
  by (auto simp: build_inv_def)

text \<open>A node with a used slot keeps one: slots are overwritten, never cleared.\<close>

definition linked :: "AnnGraph \<Rightarrow> nat \<Rightarrow> bool" where
  "linked g a \<longleftrightarrow> (\<exists>e < nat (g_m g). 0 \<le> g_edges g ! (a * nat (g_m g) + e))"

definition edge_step :: "AnnGraph \<Rightarrow> AnnGraph \<Rightarrow> bool" where
  "edge_step g g' \<longleftrightarrow> same_nodes g g' \<and> (\<forall>c. linked g c \<longrightarrow> linked g' c)"

lemma edge_step_refl: "edge_step g g"
  by (simp add: edge_step_def same_nodes_refl)

lemma edge_step_trans: "edge_step g g' \<Longrightarrow> edge_step g' g'' \<Longrightarrow> edge_step g g''"
  unfolding edge_step_def using same_nodes_trans by blast

lemma edge_step_nodes: "edge_step g g' \<Longrightarrow> in_graph g' = in_graph g"
  using same_nodes_fields(5) by (auto simp: edge_step_def in_graph_def fun_eq_iff)

lemma slot_index:
  assumes "build_inv i g" and "in_graph g a" and "e < nat (g_m g)"
  shows "nat (a * g_m g) + e = nat a * nat (g_m g) + e" and "nat a * nat (g_m g) + e < length (g_edges g)"
    and "(nat a * nat (g_m g) + e) div nat (g_m g) = nat a"
proof -
  from assms have a: "0 \<le> a" "a + 1 \<le> g_n_nodes g" "0 < g_m g" and l: "int (length (g_edges g)) = g_n_nodes g * g_m g"
    by (auto simp: build_inv_def in_graph_def)
  show "nat (a * g_m g) + e = nat a * nat (g_m g) + e" using a by (simp add: nat_mult_distrib)
  have "(a + 1) * g_m g \<le> int (length (g_edges g))" unfolding l using a by (intro mult_right_mono) auto
  moreover have "0 \<le> a * g_m g" using a by simp
  ultimately have "nat (a * g_m g) + e < length (g_edges g)" using assms(3) by (simp add: algebra_simps)
  then show "nat a * nat (g_m g) + e < length (g_edges g)" using a by (simp add: nat_mult_distrib)
  show "(nat a * nat (g_m g) + e) div nat (g_m g) = nat a" using assms(3) by simp
qed

lemma write_edge_inv:
  assumes inv: "build_inv i g" and a: "in_graph g a" and b: "0 \<le> b" "b < i" "b \<noteq> a" and e: "e < nat (g_m g)"
  shows "\<exists>g'. write_edge g a e b dist = Some g' \<and> build_inv i g' \<and> edge_step g g' \<and> linked g' (nat a)"
proof -
  let ?p = "nat a * nat (g_m g) + e"
  let ?g = "g\<lparr>g_edges := (g_edges g)[?p := b], g_edge_dists := (g_edge_dists g)[?p := dist]\<rparr>"
  note p = slot_index [OF inv a e]
  have w: "write_edge g a e b dist = Some ?g" using p(1,2) inv by (simp add: write_edge_def build_inv_def Let_def)
  have loops: "(g_edges g)[?p := b] ! q \<noteq> int (q div nat (g_m g))" if "q < length (g_edges g)" for q
  proof (cases "q = ?p")
    case True
    then show ?thesis unfolding True p(3) using p(2) a b(3) by (simp add: in_graph_def)
  next
    case False
    with that inv show ?thesis by (simp add: build_inv_def)
  qed
  have "build_inv i ?g"
    using inv loops b set_update_subset_insert [of "g_edges g" ?p b] by (fastforce simp: build_inv_def)
  moreover have "linked g c \<Longrightarrow> linked ?g c" for c
    using p(2) b(1) by (force simp: linked_def nth_list_update)
  moreover have "linked ?g (nat a)" using p(2) b(1) e by (auto simp: linked_def)
  ultimately show ?thesis using w unfolding edge_step_def same_nodes_def by blast
qed

lemma slice_nth:
  assumes "array_slice xs i n = Some ys" and "e < nat n"
  shows "ys ! e = xs ! (nat (i * n) + e)"
proof -
  from assms have ys: "ys = take (nat n) (drop (nat (i * n)) xs)" and b: "0 \<le> i * n" "i * n + n \<le> int (length xs)" "0 < n"
    by (auto simp: array_slice_def distrib_right split: if_splits)
  then have "nat (i * n) \<le> length xs" by linarith
  with ys assms(2) show ?thesis by simp
qed

lemma full_row_linked:
  assumes inv: "build_inv i g" and a: "in_graph g a" and ea: "ann_edges g a = Some ea" and full: "ea ! 0 \<noteq> EDGE_NONE"
  shows "linked g (nat a)"
proof -
  have m: "0 < nat (g_m g)" using inv by (simp add: build_inv_def)
  have eq: "ea ! 0 = g_edges g ! (nat a * nat (g_m g) + 0)"
    using slice_nth [OF ea [unfolded ann_edges_def] m] slot_index(1) [OF inv a m] by simp
  have "- 1 \<le> ea ! 0" using inv slot_index(2) [OF inv a m] unfolding eq by (auto simp: build_inv_def)
  with full have "0 \<le> g_edges g ! (nat a * nat (g_m g) + 0)" unfolding eq by (simp add: EDGE_NONE_def)
  with m show ?thesis unfolding linked_def by blast
qed

lemma ann_set_edge_inv:
  assumes inv: "build_inv i g" and a: "in_graph g a" and b: "0 \<le> b" "b < i" "b \<noteq> a"
  shows "\<exists>g'. ann_set_edge g a b dist = Some g' \<and> build_inv i g' \<and> edge_step g g' \<and> linked g' (nat a)"
proof -
  have n: "0 \<le> a" "a < g_n_nodes g" "0 \<le> g_m g" "g_n_nodes g * g_m g \<le> int (length (g_edges g))"
    "g_n_nodes g * g_m g \<le> int (length (g_edge_dists g))"
    using inv a by (auto simp: build_inv_def in_graph_def)
  from array_slice_in_bounds [OF n(1-4)] obtain ea where ea: "ann_edges g a = Some ea" "length ea = nat (g_m g)"
    unfolding ann_edges_def by blast
  from array_slice_in_bounds [OF n(1-3,5)] obtain da where da: "ann_edge_dists g a = Some da" "length da = nat (g_m g)"
    unfolding ann_edge_dists_def by blast
  obtain r w where scan: "edge_scan ea da 0 0 = (r, w)" by fastforce
  have m: "0 < length ea" using ea(2) inv by (simp add: build_inv_def)
  note range = edge_scan_range [OF scan _ m]
  have w: "w < nat (g_m g)" "w < length da" using range ea(2) da(2) by auto
  note wr = write_edge_inv [OF inv a b]
  show ?thesis
  proof (cases r)
    case None
    with range m have "linked g (nat a)" by (intro full_row_linked [OF inv a ea(1)]) auto
    with wr [OF w(1)] w(2) inv edge_step_refl scan ea(1) da(1) None show ?thesis by (auto simp: ann_set_edge_def)
  next
    case (Some e)
    with range ea(2) have "e < nat (g_m g)" by auto
    from wr [OF this] Some scan ea(1) da(1) show ?thesis by (auto simp: ann_set_edge_def)
  qed
qed

lemma link_found_inv:
  "build_inv (i + 1) g \<Longrightarrow> in_graph g i \<Longrightarrow> \<forall>t \<in> set ts. 0 \<le> ce_idx t \<and> ce_idx t < i \<Longrightarrow>
   \<exists>g'. link_found g i ts = Some g' \<and> build_inv (i + 1) g' \<and> edge_step g g' \<and>
     (\<forall>t \<in> set ts. linked g' (nat (ce_idx t)) \<and> linked g' (nat i))"
proof (induction ts arbitrary: g)
  case Nil
  then show ?case by (simp add: edge_step_refl)
next
  case (Cons t ts)
  then have t: "0 \<le> ce_idx t" "ce_idx t < i" by simp_all
  from ann_set_edge_inv [OF Cons.prems(1,2), of "ce_idx t"] t obtain g1 where
    g1: "ann_set_edge g i (ce_idx t) (ce_dist t) = Some g1" "build_inv (i + 1) g1" "edge_step g g1" "linked g1 (nat i)" by force
  have "in_graph g1 (ce_idx t)" "in_graph g1 i"
    using t Cons.prems(2) edge_step_nodes [OF g1(3)] by (auto simp: in_graph_def)
  from ann_set_edge_inv [OF g1(2) this(1), of i] t obtain g2 where
    g2: "ann_set_edge g1 (ce_idx t) i (ce_dist t) = Some g2" "build_inv (i + 1) g2" "edge_step g1 g2"
    "linked g2 (nat (ce_idx t))" by force
  have "in_graph g2 i" using \<open>in_graph g1 i\<close> edge_step_nodes [OF g2(3)] by simp
  from Cons.IH [OF g2(2) this] Cons.prems(3) obtain g' where
    g': "link_found g2 i ts = Some g'" "build_inv (i + 1) g'" "edge_step g2 g'"
    "\<forall>t \<in> set ts. linked g' (nat (ce_idx t)) \<and> linked g' (nat i)" by auto
  have "linked g' (nat (ce_idx t))" "linked g' (nat i)"
    using g1(4) g2(3,4) g'(3) by (auto simp: edge_step_def)
  moreover have "edge_step g g'" using edge_step_trans g1(3) g2(3) g'(3) by blast
  ultimately show ?case using g1(1) g2(1) g' by simp
qed

lemma build_inv_wf:
  assumes "build_inv i g" and "0 < i" and "i \<le> g_n_nodes g"
  shows "ann_wf (g\<lparr>g_n_nodes := i\<rparr>)"
proof -
  have "i * g_m g \<le> g_n_nodes g * g_m g" "i * g_dim g \<le> g_n_nodes g * g_dim g"
    using assms by (auto simp: build_inv_def intro: mult_right_mono)
  with assms show ?thesis by (auto simp: ann_wf_def build_inv_def dest: in_set_takeD)
qed

text \<open>As soon as there are two nodes, every node has an edge.\<close>

definition all_linked :: "nat \<Rightarrow> AnnGraph \<Rightarrow> bool" where
  "all_linked i g \<longleftrightarrow> (1 < i \<longrightarrow> (\<forall>c < i. linked g c))"

lemma all_linked_step:
  assumes "all_linked i g" and "0 < i" and "edge_step g g'" and "ts \<noteq> []"
    and "\<forall>t \<in> set ts. 0 \<le> ce_idx t \<and> ce_idx t < int i"
    and "\<forall>t \<in> set ts. linked g' (nat (ce_idx t)) \<and> linked g' i"
  shows "all_linked (Suc i) g'"
proof -
  from assms(4) have t: "hd ts \<in> set ts" by simp
  with assms(6) have i: "linked g' i" by blast
  have "linked g' c" if c: "c < i" for c
  proof (cases "1 < i")
    case True
    with c assms(1,3) show ?thesis by (simp add: all_linked_def edge_step_def)
  next
    case False
    with c assms(2) have "i = 1" "c = 0" by auto
    with t assms(5) have "nat (ce_idx (hd ts)) = c" by force
    with t assms(6) show ?thesis by metis
  qed
  with i show ?thesis by (auto simp: all_linked_def less_Suc_eq)
qed

lemma build_nodes_inv:
  "build_inv (int i) g \<Longrightarrow> 0 < i \<Longrightarrow> g_n_nodes g = int n \<Longrightarrow> i \<le> n \<Longrightarrow> n \<le> bitset_bound visited \<Longrightarrow> all_linked i g \<Longrightarrow>
   \<exists>g'. build_nodes g visited [i ..< n] = Some g' \<and> build_inv (int n) g' \<and> edge_step g g' \<and> all_linked n g'"
proof (induction "n - i" arbitrary: i g visited)
  case 0
  then show ?case by (simp add: edge_step_refl)
next
  case (Suc d)
  then have i: "i < n" "[i ..< n] = i # [Suc i ..< n]" by (auto simp: upt_rec)
  let ?g = "g\<lparr>g_n_nodes := int i\<rparr>"
  have wf: "ann_wf ?g" using build_inv_wf [OF Suc.prems(1)] Suc.prems(2,3) i(1) by simp
  have "\<exists>ys. array_slice (g_embeddings g) (int i) (g_dim g) = Some ys \<and> length ys = nat (g_dim g) \<and>
      set ys \<subseteq> set (take (nat (g_n_nodes g * g_dim g)) (g_embeddings g))"
    by (rule array_slice_in_bounds) (use Suc.prems i in \<open>auto simp: build_inv_def\<close>)
  then obtain q where q: "ann_emb g (int i) = Some q" "length q = nat (g_dim g)"
    by (auto simp: ann_emb_def)
  have ok: "search_args_ok ?g q (g_m g) visited (nat (g_n_nodes g) + 1) (g_ef_construct g + 1)"
    using Suc.prems i q(2) by (auto simp: search_args_ok_def build_inv_def)
  from nsw_search_answer [OF wf ok, of "g_ef_construct g"] obtain topm v where
    s: "nsw_search ?g q (g_m g) (g_ef_construct g) visited (nat (g_n_nodes g) + 1) (g_ef_construct g + 1) = Some (topm, v)"
    and ne: "topm \<noteq> []" and topm: "\<forall>c \<in> set topm. 0 \<le> ce_idx c \<and> ce_idx c < int i"
    and vb: "bitset_bound v = bitset_bound visited"
    by (auto simp: in_graph_def)
  have "build_inv (int i + 1) g" "in_graph g (int i)"
    using Suc.prems i by (auto simp: in_graph_def intro: build_inv_mono)
  from link_found_inv [OF this topm] obtain g' where
    g': "link_found g (int i) topm = Some g'" "build_inv (int i + 1) g'" "edge_step g g'"
    "\<forall>t \<in> set topm. linked g' (nat (ce_idx t)) \<and> linked g' i" by auto
  have al: "all_linked (Suc i) g'" by (rule all_linked_step [OF Suc.prems(6,2) g'(3) ne topm g'(4)])
  have nn: "g_n_nodes g' = int n" using g'(3) Suc.prems(3) same_nodes_fields(5) [of g g'] by (simp add: edge_step_def)
  have "\<exists>g''. build_nodes g' v [Suc i ..< n] = Some g'' \<and> build_inv (int n) g'' \<and> edge_step g' g'' \<and> all_linked n g''"
    using Suc.hyps(1) [of "Suc i" g' v] Suc.hyps(2) Suc.prems g' i vb nn al by (simp add: add.commute)
  then obtain g'' where g'': "build_nodes g' v [Suc i ..< n] = Some g''" "build_inv (int n) g''" "edge_step g' g''"
    "all_linked n g''" by blast
  moreover from g'(3) g''(3) have "edge_step g g''" by (rule edge_step_trans)
  ultimately show ?case using i(2) q(1) s g'(1) by simp
qed

section \<open>Loading the rows\<close>

definition row_loaded :: "nat \<Rightarrow> build_row \<Rightarrow> bool" where
  "row_loaded dim row \<longleftrightarrow> (\<exists>eb. b_emb row = Some eb \<and> length eb div 4 = dim)"

definition row_cid :: "build_row \<Rightarrow> i64" where
  "row_cid row = (case b_id row of None \<Rightarrow> 0 | Some c \<Rightarrow> c)"

lemma array_write_append:
  "array_write (xs @ ys) (length xs) zs = xs @ zs @ drop (length zs) ys"
  by (simp add: array_write_def)

lemma load_rows_prefix:
  assumes "\<forall>row \<in> set rows. row_loaded dim row"
  shows "length idr = length rows \<Longrightarrow> length er = length rows * dim \<Longrightarrow> length ids = i \<Longrightarrow> length es = i * dim \<Longrightarrow>
    load_rows dim i rows (ids @ idr) (es @ er) =
      Some (Inr (ids @ map row_cid rows, es @ concat (map (\<lambda>row. vec_floats (the (b_emb row))) rows)))"
  using assms
proof (induction rows arbitrary: i ids es idr er)
  case Nil
  then show ?case by simp
next
  case (Cons row rows)
  from Cons.prems obtain eb where eb: "b_emb row = Some eb" "length eb div 4 = dim"
    by (auto simp: row_loaded_def)
  from Cons.prems(1) obtain x idr' where idr: "idr = x # idr'" "length idr' = length rows"
    by (cases idr) auto
  let ?v = "vec_floats eb"
  have v: "length ?v = dim" using eb(2) by simp
  have ids: "(ids @ idr)[i := row_cid row] = (ids @ [row_cid row]) @ idr'"
    using Cons.prems(3) idr(1) by (simp add: list_update_append)
  have es: "array_write (es @ er) (i * dim) ?v = (es @ ?v) @ drop dim er"
    using array_write_append [of es er ?v] Cons.prems(4) v by simp
  have "load_rows dim i (row # rows) (ids @ idr) (es @ er) =
      load_rows dim (Suc i) rows ((ids @ [row_cid row]) @ idr') ((es @ ?v) @ drop dim er)"
    using eb ids es Cons.prems(1-4) by (simp add: row_cid_def)
  also have "\<dots> = Some (Inr ((ids @ [row_cid row]) @ map row_cid rows,
      (es @ ?v) @ concat (map (\<lambda>row. vec_floats (the (b_emb row))) rows)))"
    using Cons.prems idr(2) v by (intro Cons.IH) auto
  finally show ?case using eb(1) by simp
qed

lemma load_rows_all:
  assumes "\<forall>row \<in> set rows. row_loaded dim row" "length ids = length rows" "length es = length rows * dim"
  shows "load_rows dim 0 rows ids es =
    Some (Inr (map row_cid rows, concat (map (\<lambda>row. vec_floats (the (b_emb row))) rows)))"
  using load_rows_prefix [OF assms(1), of ids es "[]" 0 "[]"] assms(2,3) by simp

section \<open>The blob format\<close>

lemma length_i32_le [simp]: "length (i32_le x) = 4"
  by (simp add: i32_le_def)

definition fits32 :: "int \<Rightarrow> bool" where
  "fits32 x \<longleftrightarrow> - (2 ^ 31) \<le> x \<and> x < 2 ^ 31"

lemma sint_word_of_int_32: "fits32 x \<Longrightarrow> sint (word_of_int x :: i32) = x"
  by (simp add: fits32_def sint_sbintrunc' signed_take_bit_int_eq_self)

lemma le_value_i32_le: "fits32 x \<Longrightarrow> sint (of_nat (le_value (i32_le x)) :: i32) = x"
  unfolding i32_le_def of_nat_le_value_le_bytes_32 by (rule sint_word_of_int_32)

lemma le_i32_at_append: "length a = off \<Longrightarrow> fits32 x \<Longrightarrow> le_i32_at (a @ i32_le x @ rest) off = x"
  by (simp add: le_i32_at_def le_value_i32_le)

lemma map_sint_edges: "\<forall>x \<in> set xs. fits32 x \<Longrightarrow>
  map sint (vec_floats (concat (map i32_le xs) @ rest)) = xs @ map sint (vec_floats rest)"
proof (induction xs)
  case Nil
  then show ?case by simp
next
  case (Cons x xs)
  obtain a b c d where q: "i32_le x = [a, b, c, d]" using length_4_eq [OF length_i32_le] by blast
  have "sint (of_nat (le_value [a, b, c, d]) :: i32) = x"
    using le_value_i32_le [of x] Cons.prems q by simp
  with Cons q show ?case by simp
qed

lemma vec_floats_append: "vec_floats (vec_bytes vs @ rest) = vs @ vec_floats rest"
proof (induction vs)
  case Nil
  then show ?case by simp
next
  case (Cons v vs)
  obtain a b c d where q: "le_bytes 4 (unat v) = [a, b, c, d]"
    using length_4_eq [OF length_le_bytes] by blast
  have "of_nat (le_value [a, b, c, d]) = v" using of_nat_le_value_le_bytes_32 [of v] q by simp
  with Cons q show ?case by simp
qed

lemma length_8_eq: "length bs = 8 \<Longrightarrow> \<exists>a b c d e f g h. bs = [a, b, c, d, e, f, g, h]"
  by (auto simp: length_Suc_conv numeral_eq_Suc)

lemma le_i64s_ids: "le_i64s (ids_bytes ids @ rest) = ids @ le_i64s rest"
proof (induction ids)
  case Nil
  then show ?case by (simp add: ids_bytes_def)
next
  case (Cons i ids)
  obtain a b c d e f g h where q: "le_bytes 8 (unat i) = [a, b, c, d, e, f, g, h]"
    using length_8_eq [OF length_le_bytes] by blast
  have "of_nat (le_value [a, b, c, d, e, f, g, h]) = i" using of_nat_le_value_le_bytes_64 [of i] q by simp
  with Cons q show ?case by (simp add: ids_bytes_def)
qed

lemma length_ids_bytes: "length (ids_bytes ids) = 8 * length ids"
  by (induction ids) (auto simp: ids_bytes_def)

lemma length_edge_bytes: "length (concat (map i32_le xs)) = 4 * length xs"
  by (induction xs) auto

text \<open>A graph whose arrays have the sizes its header says and whose blob is a varlena.\<close>

definition blob_ok :: "AnnGraph \<Rightarrow> bool" where
  "blob_ok g \<longleftrightarrow> 0 \<le> g_n_nodes g \<and> 0 \<le> g_m g \<and> 0 \<le> g_dim g \<and>
     int (length (g_chunk_ids g)) = g_n_nodes g \<and>
     int (length (g_edges g)) = g_n_nodes g * g_m g \<and>
     int (length (g_embeddings g)) = g_n_nodes g * g_dim g \<and>
     fits32 (g_metric g) \<and> fits32 (g_dim g) \<and> fits32 (g_m g) \<and> fits32 (g_ef_construct g) \<and>
     fits32 (g_n_nodes g) \<and> fits32 (g_entry_node g) \<and> (\<forall>x \<in> set (g_edges g). fits32 x) \<and>
     length (ann_serialize g) < 2 ^ 31"

lemma length_ann_header: "length (ann_header a b c d e f) = 32"
  by (simp add: ann_header_def ANN_MAGIC_def)

lemma length_ann_serialize:
  "length (ann_serialize g) = 32 + 8 * length (g_chunk_ids g) + 4 * length (g_edges g) + 4 * length (g_embeddings g)"
  by (simp add: ann_serialize_def length_ann_header length_ids_bytes length_edge_bytes)

lemma ann_header_fields:
  assumes "fits32 a" "fits32 b" "fits32 c" "fits32 d" "fits32 e" "fits32 f"
  shows "le_i32_at (ann_header a b c d e f @ r) 4 = a" "le_i32_at (ann_header a b c d e f @ r) 8 = b"
    "le_i32_at (ann_header a b c d e f @ r) 12 = c" "le_i32_at (ann_header a b c d e f @ r) 16 = d"
    "le_i32_at (ann_header a b c d e f @ r) 20 = e" "le_i32_at (ann_header a b c d e f @ r) 24 = f"
    "take 4 (ann_header a b c d e f @ r) = ANN_MAGIC"
proof -
  note split = ann_header_def append.assoc
  have m: "length ANN_MAGIC = 4" by (simp add: ANN_MAGIC_def)
  show "take 4 (ann_header a b c d e f @ r) = ANN_MAGIC" unfolding split using m by simp
  show "le_i32_at (ann_header a b c d e f @ r) 4 = a"
    unfolding split by (rule le_i32_at_append [OF m assms(1)])
  show "le_i32_at (ann_header a b c d e f @ r) 8 = b"
    using le_i32_at_append [of "ANN_MAGIC @ i32_le a" 8 b] m assms(2) by (simp add: split)
  show "le_i32_at (ann_header a b c d e f @ r) 12 = c"
    using le_i32_at_append [of "ANN_MAGIC @ i32_le a @ i32_le b" 12 c] m assms(3) by (simp add: split)
  show "le_i32_at (ann_header a b c d e f @ r) 16 = d"
    using le_i32_at_append [of "ANN_MAGIC @ i32_le a @ i32_le b @ i32_le c" 16 d] m assms(4) by (simp add: split)
  show "le_i32_at (ann_header a b c d e f @ r) 20 = e"
    using le_i32_at_append [of "ANN_MAGIC @ i32_le a @ i32_le b @ i32_le c @ i32_le d" 20 e] m assms(5)
    by (simp add: split)
  show "le_i32_at (ann_header a b c d e f @ r) 24 = f"
    using le_i32_at_append [of "ANN_MAGIC @ i32_le a @ i32_le b @ i32_le c @ i32_le d @ i32_le e" 24 f] m assms(6)
    by (simp add: split)
qed

lemma blob_from_nat: "off \<le> length p \<Longrightarrow> length p < 2 ^ 31 \<Longrightarrow> blob_from p (of_nat off) = drop off p"
proof -
  assume a: "off \<le> length p" "length p < 2 ^ 31"
  then have "off < 2 ^ 64" by (simp add: order_le_less_trans)
  then have "unat (of_nat off :: 64 word) = off" by (simp add: unat_of_nat)
  with a show ?thesis by (simp add: blob_from_def)
qed

lemma size_words:
  fixes n m :: nat
  shows "(word_of_int (int n) :: 64 word) * 8 = of_nat (8 * n)"
    and "(word_of_int (int n) :: 64 word) * word_of_int (int m) * 4 = of_nat (4 * (n * m))"
  by (simp_all add: mult.commute mult.left_commute)

text \<open>The decoded view of a graph: the same header, and the arrays as prefixes of the payload.\<close>

lemma decode_serialize:
  assumes "blob_ok g"
  obtains i e where "ann_decode_blob (ann_serialize g) =
    Inr (g\<lparr>g_chunk_ids := g_chunk_ids g @ i, g_edges := g_edges g @ e, g_edge_dists := []\<rparr>)"
proof -
  let ?p = "ann_serialize g"
  obtain n m d where nm: "g_n_nodes g = int n" "g_m g = int m" "g_dim g = int d"
    using assms unfolding blob_ok_def by (metis nonneg_int_cases)
  have lens: "length (g_chunk_ids g) = n" "length (g_edges g) = n * m" "length (g_embeddings g) = n * d"
    using assms nm unfolding blob_ok_def by (metis of_nat_eq_iff of_nat_mult)+
  have fits: "fits32 (g_metric g)" "fits32 (g_dim g)" "fits32 (g_m g)" "fits32 (g_ef_construct g)"
    "fits32 (g_n_nodes g)" "fits32 (g_entry_node g)" "\<forall>x \<in> set (g_edges g). fits32 x" and small: "length ?p < 2 ^ 31"
    using assms unfolding blob_ok_def by simp_all
  define hd where "hd = ann_header (g_metric g) (g_dim g) (g_m g) (g_ef_construct g) (g_n_nodes g) (g_entry_node g)"
  have p: "?p = hd @ ids_bytes (g_chunk_ids g) @ concat (map i32_le (g_edges g)) @ vec_bytes (g_embeddings g)"
    by (simp add: ann_serialize_def hd_def)
  have hl: "length hd = 32" by (simp add: hd_def length_ann_header)
  have len: "length ?p = 32 + 8 * n + 4 * (n * m) + 4 * (n * d)" by (simp add: length_ann_serialize lens)
  note fields = ann_header_fields [OF fits(1-6), of "ids_bytes (g_chunk_ids g) @ concat (map i32_le (g_edges g)) @ vec_bytes (g_embeddings g)",
    folded hd_def, folded p]
  have off1: "(of_nat ANN_HEADER_BYTES :: 64 word) + word_of_int (g_n_nodes g) * 8 = of_nat (32 + 8 * n)"
    unfolding nm size_words ANN_HEADER_BYTES_def by (simp only: of_nat_add)
  have off2: "(of_nat ANN_HEADER_BYTES :: 64 word) + word_of_int (g_n_nodes g) * 8
      + word_of_int (g_n_nodes g) * word_of_int (g_m g) * 4 = of_nat (32 + 8 * n + 4 * (n * m))"
    unfolding off1 unfolding nm size_words by (simp only: of_nat_add)
  have off3: "(of_nat ANN_HEADER_BYTES :: 64 word) + word_of_int (g_n_nodes g) * 8
      + word_of_int (g_n_nodes g) * word_of_int (g_m g) * 4 + word_of_int (g_n_nodes g) * word_of_int (g_dim g) * 4
      = of_nat (length ?p)"
    unfolding off2 len unfolding nm size_words by (simp only: of_nat_add)
  have d1: "blob_from ?p (of_nat ANN_HEADER_BYTES) =
      ids_bytes (g_chunk_ids g) @ concat (map i32_le (g_edges g)) @ vec_bytes (g_embeddings g)"
    using blob_from_nat [of 32 ?p] small len hl p by (simp add: ANN_HEADER_BYTES_def)
  have d2: "blob_from ?p (of_nat (32 + 8 * n)) = concat (map i32_le (g_edges g)) @ vec_bytes (g_embeddings g)"
    using blob_from_nat [of "32 + 8 * n" ?p] small len hl p length_ids_bytes [of "g_chunk_ids g"] lens(1) by simp
  have d3: "blob_from ?p (of_nat (32 + 8 * n + 4 * (n * m))) = vec_bytes (g_embeddings g)"
    using blob_from_nat [of "32 + 8 * n + 4 * (n * m)" ?p] small len hl p length_ids_bytes [of "g_chunk_ids g"] lens(1,2)
      length_edge_bytes [of "g_edges g"] by simp
  have long: "\<not> length ?p < ANN_HEADER_BYTES" using len by (simp add: ANN_HEADER_BYTES_def)
  have "ann_decode_blob ?p = Inr (g\<lparr>
      g_chunk_ids := g_chunk_ids g @ le_i64s (concat (map i32_le (g_edges g)) @ vec_bytes (g_embeddings g)),
      g_edges := g_edges g @ map sint (vec_floats (vec_bytes (g_embeddings g))), g_edge_dists := []\<rparr>)"
    unfolding ann_decode_blob_def Let_def fields
    unfolding off3 unfolding off2 unfolding off1 d1 d2 d3
    by (simp only: long simp_thms if_False less_irrefl le_i64s_ids map_sint_edges [OF fits(7)] vec_floats_vec_bytes)
       (cases g, simp)
  with that show thesis by blast
qed

section \<open>Correctness\<close>

text \<open>
  C11. The blob format loses nothing: decoding a serialised graph gives the header fields, node
  identifiers, edges and embeddings that were written.
\<close>

theorem ann_blob_roundtrip:
  assumes "blob_ok g"
  shows "\<exists>g'. ann_decode_blob (ann_serialize g) = Inr g' \<and>
    g_metric g' = g_metric g \<and> g_dim g' = g_dim g \<and> g_m g' = g_m g \<and> g_ef_construct g' = g_ef_construct g \<and>
    g_n_nodes g' = g_n_nodes g \<and> g_entry_node g' = g_entry_node g \<and>
    take (nat (g_n_nodes g)) (g_chunk_ids g') = g_chunk_ids g \<and>
    take (nat (g_n_nodes g * g_m g)) (g_edges g') = g_edges g \<and> g_embeddings g' = g_embeddings g"
proof -
  from decode_serialize [OF assms] obtain i e where
    "ann_decode_blob (ann_serialize g) =
      Inr (g\<lparr>g_chunk_ids := g_chunk_ids g @ i, g_edges := g_edges g @ e, g_edge_dists := []\<rparr>)" by blast
  moreover have "nat (g_n_nodes g) = length (g_chunk_ids g)" "nat (g_n_nodes g * g_m g) = length (g_edges g)"
    using assms unfolding blob_ok_def by (metis nat_int)+
  ultimately show ?thesis by simp
qed

lemma sample_graph_blob_ok: "blob_ok sample_graph"
  by (simp add: blob_ok_def length_ann_serialize sample_graph_def fits32_def)

theorem ann_blob_roundtrip_witness:
  "blob_ok sample_graph \<and> (\<exists>g'. ann_decode_blob (ann_serialize sample_graph) = Inr g' \<and> g_n_nodes g' = 2)"
proof -
  have "g_n_nodes sample_graph = 2" by (simp add: sample_graph_def)
  with ann_blob_roundtrip [OF sample_graph_blob_ok] sample_graph_blob_ok show ?thesis by auto
qed

definition fresh_ok :: "fresh_memory \<Rightarrow> bool" where
  "fresh_ok mem \<longleftrightarrow> (\<forall>n. length (fresh_i64 mem n) = n \<and> length (fresh_f32 mem n) = n \<and> length (fresh_f64 mem n) = n)"

lemma concat_embs_length:
  "\<forall>row \<in> set rows. row_loaded dim row \<Longrightarrow>
   length (concat (map (\<lambda>row. vec_floats (the (b_emb row))) rows)) = length rows * dim"
  by (induction rows) (auto simp: row_loaded_def)

text \<open>
  C6. Building succeeds on every compartment of one or more rows whose embeddings have one dimension,
  when the allocations are granted and the sums in \<open>int\<close> do not overflow (fewer than 2 ^ 31 - 64 rows,
  \<open>ef_construct\<close> below \<open>INT_MAX\<close>), whatever fresh memory contains, and without any access outside the
  arrays: the blob is the serialisation of a well-formed graph that has the chunk ids and embeddings
  of the rows, in which every edge slot is unused or names a node of the graph, no node has an edge
  to itself, and every node has at least one edge as soon as there are two. The lifetime of the
  buffers is not covered: the blob itself is allocated in a memory context that \<open>SPI_finish\<close> has
  deleted.
\<close>

theorem ann_build_safe:
  assumes "fresh_ok mem" and "ann_parse_metric metric_arg = Inr metric"
    and "0 < sint m" and "0 < sint ef" and "connect_ret = SPI_OK_CONNECT"
    and "scan cid = (SPI_OK_SELECT, rows)" and "rows \<noteq> []"
    and "length (the (b_emb (hd rows))) mod 4 = 0" and "\<forall>row \<in> set rows. row_loaded dim row"
    and "int (length rows) < 2 ^ 31 - 64" and "sint ef < INT_MAX"
    and "\<forall>sz \<in> set (graph_requests (int (length rows)) (sint m) (int dim) @ scratch_requests (int (length rows)) (sint ef)
           @ [blob_request (int (length rows)) (sint m) (int dim)]). palloc_grants mem sz"
  shows "\<exists>g. maludb_ann_build_c mem connect_ret scan cid m ef metric_arg = Some (Inr (ann_serialize g)) \<and>
    ann_wf g \<and> g_n_nodes g = int (length rows) \<and> g_metric g = metric \<and> g_dim g = int dim \<and> g_m g = sint m \<and>
    g_ef_construct g = sint ef \<and> g_entry_node g = 0 \<and>
    g_chunk_ids g = map row_cid rows \<and>
    g_embeddings g = concat (map (\<lambda>row. vec_floats (the (b_emb row))) rows) \<and>
    int (length (g_edges g)) = g_n_nodes g * g_m g \<and>
    (\<forall>x \<in> set (g_edges g). - 1 \<le> x \<and> x < g_n_nodes g) \<and>
    (\<forall>p < length (g_edges g). g_edges g ! p \<noteq> int (p div nat (g_m g))) \<and>
    (1 < length rows \<longrightarrow> (\<forall>a < length rows. \<exists>e < nat (g_m g). 0 \<le> g_edges g ! (a * nat (g_m g) + e)))"
proof -
  let ?n = "length rows" and ?embs = "concat (map (\<lambda>row. vec_floats (the (b_emb row))) rows)"
  from assms(7) obtain row0 rest where rows: "rows = row0 # rest" by (cases rows) auto
  from assms(9) rows obtain eb where eb: "b_emb row0 = Some eb" "length eb div 4 = dim"
    by (auto simp: row_loaded_def)
  then have eb0: "b_emb (hd rows) = Some eb" "length eb div 4 = dim" using rows by simp_all
  have n_nodes: "sint (of_nat (length rows) :: i32) = int (length rows)"
    using assms(10) by (simp add: signed_of_nat signed_take_bit_int_eq_self)
  have load: "load_rows dim 0 rows (fresh_i64 mem ?n) (fresh_f32 mem (?n * dim)) = Some (Inr (map row_cid rows, ?embs))"
    using assms(1) by (intro load_rows_all [OF assms(9)]) (auto simp: fresh_ok_def)
  let ?g0 = "ann_init mem metric dim (sint m) (sint ef) ?n (map row_cid rows) ?embs"
  have inv: "build_inv (int 1) ?g0"
    using assms(1,3,4) concat_embs_length [OF assms(9)]
    by (simp add: build_inv_def ann_init_def fresh_ok_def EDGE_NONE_def set_replicate_conv_if)
  have "\<exists>g. build_nodes ?g0 (bitset_new ?n) [1 ..< ?n] = Some g \<and> build_inv (int ?n) g \<and> edge_step ?g0 g \<and> all_linked ?n g"
    by (rule build_nodes_inv [OF inv]) (use rows in \<open>auto simp: ann_init_def bitset_bound_new Suc_leI all_linked_def\<close>)
  then obtain g where g: "build_nodes ?g0 (bitset_new ?n) [1 ..< ?n] = Some g" "build_inv (int ?n) g"
    "same_nodes ?g0 g" "all_linked ?n g" by (auto simp: edge_step_def)
  note f = same_nodes_fields [OF g(3)]
  have gf: "g_metric g = metric" "g_dim g = int dim" "g_m g = sint m" "g_ef_construct g = sint ef"
    "g_n_nodes g = int ?n" "g_entry_node g = 0" "g_chunk_ids g = map row_cid rows" "g_embeddings g = ?embs"
    unfolding f by (simp_all add: ann_init_def)
  have same: "g\<lparr>g_n_nodes := int ?n\<rparr> = g" using gf(5) by (cases g) simp
  have "ann_wf (g\<lparr>g_n_nodes := int ?n\<rparr>)" by (rule build_inv_wf [OF g(2)]) (use rows gf(5) in auto)
  then have "ann_wf g" unfolding same .
  moreover have "maludb_ann_build_c mem connect_ret scan cid m ef metric_arg = Some (Inr (ann_serialize g))"
    using assms(2-8,10-12) eb0 load g(1)
    by (simp add: maludb_ann_build_c_def n_nodes palloc_all_granted INT_MAX_def Let_def
        del: load_rows.simps palloc_all.simps)
  ultimately show ?thesis using g(2,4) gf unfolding build_inv_def all_linked_def linked_def by auto
qed

text \<open>Two one-dimensional chunks, with zeroed fresh memory.\<close>

definition zero_memory :: fresh_memory where
  "zero_memory = \<lparr>palloc_grants = (\<lambda>sz. sz \<le> 0x3FFFFFFF), fresh_i64 = (\<lambda>n. replicate n 0), fresh_f32 = (\<lambda>n. replicate n 0), fresh_f64 = (\<lambda>n. replicate n 0)\<rparr>"

definition sample_build_rows :: "build_row list" where
  "sample_build_rows = [\<lparr>b_id = Some 7, b_emb = Some (vec_bytes [0x3F800000])\<rparr>,
     \<lparr>b_id = Some 8, b_emb = Some (vec_bytes [0x40000000])\<rparr>]"

theorem ann_build_safe_witness:
  "\<exists>g. maludb_ann_build_c zero_memory 1 (\<lambda>_. (5, sample_build_rows)) 1 4 8 ''l2'' = Some (Inr (ann_serialize g)) \<and>
     ann_wf g \<and> g_chunk_ids g = [7, 8]"
proof -
  have mem: "fresh_ok zero_memory" by (simp add: fresh_ok_def zero_memory_def)
  have metric: "ann_parse_metric ''l2'' = Inr ANN_METRIC_L2" by (simp add: ann_parse_metric_def)
  have pos: "0 < sint (4 :: i32)" "0 < sint (8 :: i32)" "sint (8 :: i32) < INT_MAX" by (simp_all add: INT_MAX_def)
  have loaded: "\<forall>row \<in> set sample_build_rows. row_loaded 1 row"
    "length (the (b_emb (hd sample_build_rows))) mod 4 = 0" "sample_build_rows \<noteq> []"
    by (simp_all add: sample_build_rows_def row_loaded_def del: vec_bytes.simps)
  have granted: "int (length sample_build_rows) < 2 ^ 31 - 64"
    "\<forall>sz \<in> set (graph_requests (int (length sample_build_rows)) (sint (4 :: i32)) (int 1)
       @ scratch_requests (int (length sample_build_rows)) (sint (8 :: i32))
       @ [blob_request (int (length sample_build_rows)) (sint (4 :: i32)) (int 1)]). palloc_grants zero_memory sz"
    by (simp_all add: graph_requests_def scratch_requests_def blob_request_def sample_build_rows_def zero_memory_def ANN_HEADER_BYTES_def)
  have ids: "map row_cid sample_build_rows = [7, 8]" by (simp add: sample_build_rows_def row_cid_def)
  from ann_build_safe [OF mem metric pos(1,2) _ _ loaded(3,2,1) granted(1) pos(3) granted(2), of 1 "\<lambda>_. (5, sample_build_rows)" 1] show ?thesis
    unfolding ids by (auto simp: SPI_OK_CONNECT_def SPI_OK_SELECT_def)
qed

section \<open>Searching a built graph\<close>

lemma ann_emit_ok:
  "\<forall>c \<in> set cs. 0 \<le> ce_idx c \<and> ce_idx c < int (length (g_chunk_ids g)) \<Longrightarrow>
   \<exists>rs. ann_emit g i cs = Some rs \<and> map ar_chunk_id rs = map (\<lambda>c. g_chunk_ids g ! nat (ce_idx c)) cs \<and>
     map ar_distance rs = map ce_dist cs"
proof (induction cs arbitrary: i)
  case Nil
  then show ?case by simp
next
  case (Cons c cs)
  from Cons.prems have "\<forall>c \<in> set cs. 0 \<le> ce_idx c \<and> ce_idx c < int (length (g_chunk_ids g))" by simp
  from Cons.IH [OF this, of "Suc i"] Cons.prems show ?case by (auto simp: Let_def)
qed

text \<open>
  C7. Searching the blob of a well-formed graph is safe and answers with chunks of the graph: for
  every query of the graph's dimension, every positive \<open>k\<close>, beam width and number of nodes below
  \<open>INT_MAX\<close>, and no metric given that would override the graph's, \<open>maludb_ann_search_c\<close> returns rows
  without leaving the blob or a scratch buffer; they are at least one and at most \<open>k\<close>, and their chunk
  ids are ids stored in the graph.
\<close>

theorem ann_search_of_blob:
  assumes "blob_ok g" and "ann_wf g" and "int (length q div 4) = g_dim g"
    and "0 < sint k" and "sint k < INT_MAX" and "sint ef < INT_MAX" and "g_n_nodes g < INT_MAX"
  shows "\<exists>out. maludb_ann_search_c True True (ann_serialize g) q k ef None = Some (Inr out) \<and>
    out \<noteq> [] \<and> int (length out) \<le> sint k \<and> set (map ar_chunk_id out) \<subseteq> set (g_chunk_ids g)"
proof -
  from decode_serialize [OF assms(1)] obtain i e where dec: "ann_decode_blob (ann_serialize g) =
      Inr (g\<lparr>g_chunk_ids := g_chunk_ids g @ i, g_edges := g_edges g @ e, g_edge_dists := []\<rparr>)" by blast
  let ?g = "g\<lparr>g_chunk_ids := g_chunk_ids g @ i, g_edges := g_edges g @ e, g_edge_dists := []\<rparr>"
  have nodes: "int (length (g_chunk_ids g)) = g_n_nodes g" "nat (g_n_nodes g * g_m g) = length (g_edges g)"
    "0 < g_n_nodes g"
    using assms(1,2) unfolding blob_ok_def ann_wf_def by (simp_all, metis nat_int)
  have wf: "ann_wf ?g" using assms(2) nodes(2) by (auto simp: ann_wf_def)
  let ?ef = "if sint ef < sint k then sint k else sint ef"
  have ok: "search_args_ok ?g (vec_floats q) (sint k) (bitset_new (nat (g_n_nodes g))) (nat (g_n_nodes g + 1)) (?ef + 1)"
    using assms(3,4) nodes(3) bitset_bound_new [of "nat (g_n_nodes g)"] by (auto simp: search_args_ok_def)
  from nsw_search_answer [OF wf ok, of ?ef] obtain found v where
    s: "nsw_search ?g (vec_floats q) (sint k) ?ef (bitset_new (nat (g_n_nodes g))) (nat (g_n_nodes g + 1)) (?ef + 1) = Some (found, v)"
    and ne: "found \<noteq> []" and len: "int (length found) \<le> sint k"
    and fg: "\<forall>c \<in> set found. 0 \<le> ce_idx c \<and> ce_idx c < g_n_nodes g"
    by (auto simp: in_graph_def)
  from fg nodes(1) have "\<forall>c \<in> set found. 0 \<le> ce_idx c \<and> ce_idx c < int (length (g_chunk_ids ?g))" by auto
  from ann_emit_ok [OF this, of 0] obtain rs where rs: "ann_emit ?g 0 found = Some rs"
    "map ar_chunk_id rs = map (\<lambda>c. g_chunk_ids ?g ! nat (ce_idx c)) found"
    "map ar_distance rs = map ce_dist found" by blast
  have "set (map ar_chunk_id rs) \<subseteq> set (g_chunk_ids g)"
    unfolding rs(2) using fg nodes(1) by (auto simp: nth_append)
  moreover have "length rs = length found" using rs(3) by (metis length_map)
  moreover have "8 * g_n_nodes g < 2 ^ 31" using assms(1) length_ann_serialize [of g] nodes(1) by (auto simp: blob_ok_def)
  then have "g_n_nodes g \<noteq> 0" "\<not> (INT_MAX - 63 < g_n_nodes g \<or> ?ef = INT_MAX \<or> sint k = INT_MAX)"
    using assms(5-7) nodes(3) by (auto simp: INT_MAX_def)
  then have "maludb_ann_search_c True True (ann_serialize g) q k ef None = Some (Inr rs)"
    unfolding maludb_ann_search_c_def dec Let_def
    using assms(3,4) s rs(1) by (simp del: if_split)
  ultimately show ?thesis using ne len by auto
qed

theorem ann_search_of_blob_witness:
  "\<exists>out. maludb_ann_search_c True True (ann_serialize sample_graph) (vec_bytes [0x3F800000]) 1 4 None = Some (Inr out)
     \<and> out \<noteq> [] \<and> set (map ar_chunk_id out) \<subseteq> {7, 8}"
proof -
  have ids: "g_chunk_ids sample_graph = [7, 8]" "int (length (vec_bytes [0x3F800000]) div 4) = g_dim sample_graph"
    "g_n_nodes sample_graph < INT_MAX"
    by (simp_all add: sample_graph_def INT_MAX_def del: vec_bytes.simps)
  have k: "0 < sint (1 :: i32)" "sint (1 :: i32) < INT_MAX" "sint (4 :: i32) < INT_MAX"
    by (simp_all add: INT_MAX_def)
  from ann_search_of_blob [OF sample_graph_blob_ok sample_graph_wf ids(2) k ids(3)] show ?thesis
    unfolding ids(1) by auto
qed

section \<open>A blob that passes the check and is not one\<close>

text \<open>
  Header only: \<open>dim\<close> 3, \<open>m\<close> -5, four nodes. The three sizes are 32, -80 and 48 bytes, which cancel.
\<close>

definition crafted_blob :: bytes where
  "crafted_blob = ann_header 2 3 (- 5) 8 4 0"

lemma crafted_fields:
  "le_i32_at crafted_blob 4 = 2" "le_i32_at crafted_blob 8 = 3" "le_i32_at crafted_blob 12 = - 5"
  "le_i32_at crafted_blob 16 = 8" "le_i32_at crafted_blob 20 = 4" "le_i32_at crafted_blob 24 = 0"
  "take 4 crafted_blob = ANN_MAGIC" "length crafted_blob = 32"
  using ann_header_fields [of 2 3 "- 5" 8 4 0 "[]"]
  by (simp_all add: crafted_blob_def fits32_def length_ann_header)

lemma crafted_decode:
  "\<exists>g. ann_decode_blob crafted_blob = Inr g \<and> g_n_nodes g = 4 \<and> g_dim g = 3 \<and> g_entry_node g = 0 \<and>
     g_embeddings g = []"
proof -
  have "unat ((32 :: 64 word) + word_of_int 4 * 8 + word_of_int 4 * word_of_int (- 5) * 4) > 32" by simp
  then have "blob_from crafted_blob (32 + word_of_int 4 * 8 + word_of_int 4 * word_of_int (- 5) * 4) = []"
    by (simp add: blob_from_def crafted_fields(8))
  then show ?thesis
    unfolding ann_decode_blob_def Let_def crafted_fields by (simp add: ANN_HEADER_BYTES_def)
qed

text \<open>
  The truncation check of \<open>ann_decode_blob\<close> does not cover a negative \<open>m\<close>: a 32-byte blob that
  claims four three-dimensional nodes is accepted, and searching it reads outside the blob.
\<close>

lemma ann_decode_accepts_negative_m:
  "length crafted_blob = 32 \<and> (\<exists>g. ann_decode_blob crafted_blob = Inr g \<and> g_n_nodes g = 4 \<and> g_dim g = 3) \<and>
   maludb_ann_search_c True True crafted_blob (vec_bytes [0, 0, 0]) 1 1 None = None"
proof (intro conjI)
  show "length crafted_blob = 32" by (rule crafted_fields(8))
  from crafted_decode obtain g where g: "ann_decode_blob crafted_blob = Inr g" "g_n_nodes g = 4" "g_dim g = 3"
    "g_entry_node g = 0" "g_embeddings g = []" by blast
  then show "\<exists>g. ann_decode_blob crafted_blob = Inr g \<and> g_n_nodes g = 4 \<and> g_dim g = 3" by blast
  have "ann_dist_to g (vec_floats (vec_bytes [0, 0, 0])) 0 = None"
    using g by (simp add: ann_dist_to_def ann_emb_def array_slice_def)
  then have "nsw_search g (vec_floats (vec_bytes [0, 0, 0])) 1 1 (bitset_new 4) 5 2 = None"
    using g by (simp add: nsw_search_def del: vec_floats_vec_bytes vec_bytes.simps)
  moreover have "g\<lparr>g_metric := g_metric g\<rparr> = g" by (cases g) simp
  ultimately show "maludb_ann_search_c True True crafted_blob (vec_bytes [0, 0, 0]) 1 1 None = None"
    using g by (simp add: maludb_ann_search_c_def INT_MAX_def del: vec_floats_vec_bytes vec_bytes.simps)
qed

end
