(* ===== verification/Base64url.thy ===== *)
theory Base64url
  imports Prelude
begin

text \<open>
  \<open>b64url_decode\<close> of src/src/maludb_auth.c: the decode table and the loop over a 32-bit shift
  buffer. The lemmas give its exact specification (which inputs are refused, the length and
  the value of the output), that the output fits the buffer the C code allocates, and that it
  inverts the unpadded base64url encoding of RFC 4648.
\<close>

section \<open>The decoder\<close>

text \<open>The alphabet in the order of the initialisers of \<open>dec\<close>.\<close>

definition b64url_alphabet :: string where
  "b64url_alphabet =
     ''ABCDEFGHIJKLMNOPQRSTUVWXYZabcdefghijklmnopqrstuvwxyz0123456789-_''"

text \<open>The table \<open>tab\<close>: the value of a character of the alphabet, \<open>None\<close> for the entries \<open>-1\<close>.\<close>

definition b64url_tab :: "char \<Rightarrow> nat option" where
  "b64url_tab c = strchr b64url_alphabet c"

definition b64url_skip :: "char \<Rightarrow> bool" where
  "b64url_skip c \<longleftrightarrow> c = CHR ''='' \<or> c = CHR 0x0A \<or> c = CHR 0x0D"

definition b64url_shift :: "32 word \<Rightarrow> nat \<Rightarrow> 32 word" where
  "b64url_shift buf v = or (push_bit 6 buf) (word_of_nat v)"

definition b64url_byte :: "32 word \<Rightarrow> nat \<Rightarrow> char" where
  "b64url_byte buf bits = char_of (unat (and (drop_bit bits buf) 0xFF))"

fun b64url_loop :: "string \<Rightarrow> 32 word \<Rightarrow> nat \<Rightarrow> string option" where
  "b64url_loop [] buf bits = Some []"
| "b64url_loop (c # cs) buf bits =
     (if b64url_skip c then b64url_loop cs buf bits
      else (case b64url_tab c of
         None \<Rightarrow> None
       | Some v \<Rightarrow>
           (if 8 \<le> bits + 6
            then map_option
                   (Cons (b64url_byte (b64url_shift buf v) (bits + 6 - 8)))
                   (b64url_loop cs (b64url_shift buf v) (bits + 6 - 8))
            else b64url_loop cs (b64url_shift buf v) (bits + 6))))"

definition b64url_decode :: "string \<Rightarrow> string option" where
  "b64url_decode src = b64url_loop src 0 0"

definition b64url_outcap :: "nat \<Rightarrow> nat" where
  "b64url_outcap src_len = src_len * 3 div 4 + 4"

section \<open>Specification\<close>

text \<open>The sextets of the input, and the numbers that sextets and octets denote.\<close>

definition b64url_sextets :: "string \<Rightarrow> nat option list" where
  "b64url_sextets src = map b64url_tab (filter (\<lambda>c. \<not> b64url_skip c) src)"

fun digits_value :: "nat \<Rightarrow> nat \<Rightarrow> nat list \<Rightarrow> nat" where
  "digits_value b acc [] = acc"
| "digits_value b acc (d # ds) = digits_value b (acc * b + d) ds"

definition octets_value :: "string \<Rightarrow> nat" where
  "octets_value s = digits_value 256 0 (map of_char s)"

lemma b64url_tab_less: "b64url_tab c = Some v \<Longrightarrow> v < 64"
proof -
  assume "b64url_tab c = Some v"
  then have "v < length b64url_alphabet" unfolding b64url_tab_def strchr_Some_iff by blast
  moreover have "length b64url_alphabet = 64" by (simp add: b64url_alphabet_def)
  ultimately show "v < 64" by simp
qed

lemma digits_value_split: "digits_value b acc ds = acc * b ^ length ds + digits_value b 0 ds"
proof (induction ds arbitrary: acc)
  case Nil
  then show ?case by simp
next
  case (Cons d ds)
  show ?case
    using Cons.IH [of "acc * b + d"] Cons.IH [of d] by (simp add: algebra_simps)
qed

lemma unat_b64url_shift:
  assumes "v < 64"
  shows "unat (b64url_shift buf v) mod 2 ^ 14 = (unat buf * 64 + v) mod 2 ^ 14"
proof -
  have d: "and (push_bit 6 buf) (word_of_nat v) = 0"
  proof (rule bit_word_eqI)
    fix n assume "n < LENGTH(32)"
    have "\<not> bit v n" if "6 \<le> n"
    proof -
      from assms have "take_bit 6 v = v" by (simp add: take_bit_nat_eq_self)
      with that show ?thesis by (metis bit_take_bit_iff not_le)
    qed
    then show "bit (and (push_bit 6 buf) (word_of_nat v)) n = bit 0 n"
      by (auto simp: bit_and_iff bit_push_bit_iff bit_of_nat_iff)
  qed
  have "b64url_shift buf v = push_bit 6 buf + word_of_nat v"
    unfolding b64url_shift_def using d by (simp add: disjunctive_add_eq_or)
  then have "b64url_shift buf v = word_of_nat (unat buf * 64 + v)"
    by (simp add: push_bit_eq_mult)
  then have "unat (b64url_shift buf v) = (unat buf * 64 + v) mod 2 ^ 32"
    by (simp only: unat_of_nat) simp
  then show ?thesis by (simp add: mod_mod_cancel)
qed

lemma char_of_mod_256: "of_char (char_of (n :: nat) :: char) = n mod 256"
  by (simp add: of_char_of)

text \<open>
  One step of the loop: the low bits of the buffer that are still pending, as a number, absorb
  the sextet; what is written is the top eight of them.
\<close>

lemma b64url_shift_pending:
  assumes "v < 64" "bits < 8"
  shows "unat (b64url_shift buf v) mod 2 ^ (bits + 6) = unat buf mod 2 ^ bits * 64 + v"
proof -
  have dvd: "(2::nat) ^ (bits + 6) dvd 2 ^ 14" using assms(2) by (intro le_imp_power_dvd) simp
  have "unat (b64url_shift buf v) mod 2 ^ (bits + 6) = (unat buf * 64 + v) mod 2 ^ (bits + 6)"
    using arg_cong [OF unat_b64url_shift [OF assms(1), of buf], of "\<lambda>x. x mod 2 ^ (bits + 6)"]
    by (simp only: mod_mod_cancel [OF dvd])
  also have "\<dots> = unat buf mod 2 ^ bits * 64 + v"
    using assms(1) mod_mult2_eq [of "unat buf * 64 + v" 64 "2 ^ bits"]
    by (simp add: power_add mult.commute)
  finally show ?thesis .
qed

lemma b64url_byte_pending:
  assumes "bits < 8"
  shows "of_char (b64url_byte buf bits) = unat buf mod 2 ^ (bits + 8) div 2 ^ bits"
proof -
  have "of_char (b64url_byte buf bits) = unat buf div 2 ^ bits mod 256"
  proof -
    have lt: "unat buf < 2 ^ 32" using unsigned_less [of buf] by simp
    have "and (drop_bit bits buf) 0xFF = take_bit 8 (drop_bit bits buf)"
      by (simp add: take_bit_eq_mask mask_eq_exp_minus_1)
    then have "unat (and (drop_bit bits buf) 0xFF) = unat buf div 2 ^ bits mod 256"
      using lt
      by (simp only: unsigned_take_bit_eq unsigned_drop_bit_eq)
        (simp add: take_bit_eq_mod drop_bit_eq_div)
    then show ?thesis by (simp add: b64url_byte_def of_char_of)
  qed
  also have "\<dots> = unat buf mod 2 ^ (bits + 8) div 2 ^ bits"
    using mod_mult2_eq [of "unat buf" "2 ^ bits" 256] by (simp add: power_add)
  finally show ?thesis .
qed

text \<open>
  The loop: after \<open>n\<close> further sextets it has written all complete octets of the pending bits
  followed by the sextets, and nothing of the last incomplete octet.
\<close>

definition b64url_pending :: "32 word \<Rightarrow> nat \<Rightarrow> nat list \<Rightarrow> nat" where
  "b64url_pending buf bits ds = digits_value 64 (unat buf mod 2 ^ bits) ds"

lemma octets_value_Cons:
  "octets_value (c # s) = of_char c * 256 ^ length s + octets_value s"
  by (simp add: octets_value_def digits_value_split [of _ "of_char c"])

lemma pending_step:
  assumes "8 * L + m = b + 6 * n"
  shows "byte * 256 ^ L + (r * 64 ^ n + w) div 2 ^ m
         = ((byte * 2 ^ b + r) * 64 ^ n + (w :: nat)) div 2 ^ m"
proof -
  have "(256 :: nat) ^ L * 2 ^ m = 2 ^ (8 * L + m)" by (simp add: power_add power_mult)
  also have "\<dots> = 2 ^ b * 64 ^ n" by (simp add: assms power_add power_mult)
  finally have e: "(byte * 2 ^ b + r) * 64 ^ n + w = (r * 64 ^ n + w) + byte * 256 ^ L * 2 ^ m"
    by (simp add: algebra_simps)
  show ?thesis unfolding e by (subst div_mult_self1) auto
qed

lemma b64url_loop_Some:
  assumes "bits < 8" and "b64url_sextets cs = map Some ds"
  shows "\<exists>out. b64url_loop cs buf bits = Some out \<and>
    length out = (bits + 6 * length ds) div 8 \<and>
    octets_value out = b64url_pending buf bits ds div 2 ^ ((bits + 6 * length ds) mod 8)"
  using assms
proof (induction cs arbitrary: buf bits ds)
  case Nil
  then show ?case by (simp add: b64url_sextets_def octets_value_def b64url_pending_def)
next
  case (Cons c cs)
  show ?case
  proof (cases "b64url_skip c")
    case True
    with Cons show ?thesis by (simp add: b64url_sextets_def)
  next
    case False
    with Cons.prems(2) obtain v es where ds: "ds = v # es" and v: "b64url_tab c = Some v"
      and es: "b64url_sextets cs = map Some es"
      by (cases ds) (auto simp: b64url_sextets_def)
    note v64 = b64url_tab_less [OF v]
    define X where "X = unat buf mod 2 ^ bits * 64 + v"
    have X: "unat (b64url_shift buf v) mod 2 ^ (bits + 6) = X"
      unfolding X_def by (rule b64url_shift_pending [OF v64 Cons.prems(1)])
    have pend: "b64url_pending buf bits ds = X * 64 ^ length es + digits_value 64 0 es"
      by (simp add: b64url_pending_def ds X_def digits_value_split [of _ "_ + v"])
    show ?thesis
    proof (cases "8 \<le> bits + 6")
      case True
      define b where "b = bits + 6 - 8"
      have b: "b < 8" "bits + 6 = b + 8" using True Cons.prems(1) by (auto simp: b_def)
      from Cons.IH [OF b(1) es, of "b64url_shift buf v"] obtain out where
        out: "b64url_loop cs (b64url_shift buf v) b = Some out"
        "length out = (b + 6 * length es) div 8"
        "octets_value out = b64url_pending (b64url_shift buf v) b es div 2 ^ ((b + 6 * length es) mod 8)"
        by blast
      have byte: "of_char (b64url_byte (b64url_shift buf v) b) = X div 2 ^ b"
        unfolding b64url_byte_pending [OF b(1)] using X b(2) by simp
      have "unat (b64url_shift buf v) mod 2 ^ b = X mod 2 ^ b"
        using X b(2) by (metis le_add1 le_imp_power_dvd mod_mod_cancel)
      then have p2: "b64url_pending (b64url_shift buf v) b es
          = X mod 2 ^ b * 64 ^ length es + digits_value 64 0 es"
        by (simp add: b64url_pending_def digits_value_split [of _ "_ mod _"])
      have len: "bits + 6 * length ds = b + 6 * length es + 8" using b(2) by (simp add: ds)
      have "octets_value (b64url_byte (b64url_shift buf v) b # out)
          = b64url_pending buf bits ds div 2 ^ ((b + 6 * length es) mod 8)"
        unfolding octets_value_Cons byte out(3) p2 pend
        by (subst pending_step [where b = b and n = "length es"]) (simp_all add: out(2) div_mult_mod_eq)
      moreover have "b64url_loop (c # cs) buf bits = Some (b64url_byte (b64url_shift buf v) b # out)"
        using out(1) False v True by (simp add: b_def)
      ultimately show ?thesis
        by (intro exI [of _ "b64url_byte (b64url_shift buf v) b # out"]) (simp add: len out(2))
    next
      case small: False
      then have b: "bits + 6 < 8" by simp
      have len: "bits + 6 * length ds = bits + 6 + 6 * length es" by (simp add: ds)
      have same: "b64url_pending (b64url_shift buf v) (bits + 6) es = b64url_pending buf bits ds"
        unfolding pend using X by (simp add: b64url_pending_def digits_value_split [of _ X])
      have "b64url_loop (c # cs) buf bits = b64url_loop cs (b64url_shift buf v) (bits + 6)"
        using False v small by simp
      with Cons.IH [OF b es, of "b64url_shift buf v"] show ?thesis unfolding len same by simp
    qed
  qed
qed

lemma b64url_loop_None:
  "None \<in> set (b64url_sextets cs) \<Longrightarrow> b64url_loop cs buf bits = None"
  by (induction cs buf bits rule: b64url_loop.induct)
    (auto simp: b64url_sextets_def split: option.splits)

lemma octets_value_less: "octets_value s < 256 ^ length s"
proof (induction s)
  case Nil
  then show ?case by (simp add: octets_value_def)
next
  case (Cons c s)
  have "of_char c \<le> (255 :: nat)" using nat_of_char_less_256 [of c] by linarith
  then have "of_char c * 256 ^ length s \<le> (255 :: nat) * 256 ^ length s" by (rule mult_le_mono1)
  with Cons.IH show ?case by (simp only: octets_value_Cons length_Cons power_Suc)
qed

lemma octets_value_inj:
  "length a = length b \<Longrightarrow> octets_value a = octets_value b \<Longrightarrow> a = b"
proof (induction a b rule: list_induct2)
  case Nil
  then show ?case by simp
next
  case (Cons x xs y ys)
  let ?B = "256 ^ length ys :: nat"
  have "(of_char x * ?B + octets_value xs) div ?B = (of_char y * ?B + octets_value ys) div ?B"
    and "(of_char x * ?B + octets_value xs) mod ?B = (of_char y * ?B + octets_value ys) mod ?B"
    using Cons.prems Cons.hyps by (simp_all add: octets_value_Cons)
  then have "of_char x = (of_char y :: nat)" "octets_value xs = octets_value ys"
    using octets_value_less [of xs] octets_value_less [of ys] Cons.hyps by simp_all
  then show ?case using Cons.IH by simp
qed

lemma sextets_Some_iff: "None \<notin> set xs \<longleftrightarrow> (\<exists>ds. xs = map Some ds)"
  by (metis ex_map_conv not_Some_eq)

text \<open>
  Exact specification of \<open>b64url_decode\<close>: it succeeds exactly when every character other than
  padding and line ends is in the base64url alphabet; the output then holds the complete octets
  of the sextets read as one big-endian number, the bits of the incomplete last octet dropped.
\<close>

lemma b64url_decode_exact:
  "b64url_decode src = Some out \<longleftrightarrow>
   (\<exists>ds. b64url_sextets src = map Some ds \<and> length out = 6 * length ds div 8 \<and>
         octets_value out = digits_value 64 0 ds div 2 ^ (6 * length ds mod 8))"
proof (cases "None \<in> set (b64url_sextets src)")
  case True
  then show ?thesis using b64url_loop_None [OF True, of 0 0] sextets_Some_iff
    by (auto simp: b64url_decode_def)
next
  case False
  then obtain ds where ds: "b64url_sextets src = map Some ds" by (auto simp: sextets_Some_iff)
  then have uniq: "b64url_sextets src = map Some es \<Longrightarrow> es = ds" for es
    by (simp add: inj_map_eq_map)
  from b64url_loop_Some [OF _ ds, of 0 0] obtain r where
    r: "b64url_decode src = Some r" "length r = 6 * length ds div 8"
      "octets_value r = digits_value 64 0 ds div 2 ^ (6 * length ds mod 8)"
    by (auto simp: b64url_decode_def b64url_pending_def)
  with ds uniq show ?thesis using octets_value_inj [of out r] by auto
qed

text \<open>The output never reaches the \<open>outcap\<close> bytes that the C code allocates for it.\<close>

lemma b64url_decode_fits:
  assumes "b64url_decode src = Some out"
  shows "length out < b64url_outcap (length src)"
proof -
  from assms obtain ds where "b64url_sextets src = map Some ds" "length out = 6 * length ds div 8"
    unfolding b64url_decode_exact by blast
  moreover from this(1) have "length ds \<le> length src"
    using length_filter_le unfolding b64url_sextets_def by (metis length_map)
  ultimately show ?thesis by (simp add: b64url_outcap_def)
qed

section \<open>Round trip with the encoding\<close>

text \<open>Base64url without padding (RFC 4648, section 5), as JWTs are written (RFC 7515).\<close>

definition b64url_char :: "nat \<Rightarrow> char" where
  "b64url_char d = b64url_alphabet ! (d mod 64)"

fun b64url_encode :: "string \<Rightarrow> string" where
  "b64url_encode [] = []"
| "b64url_encode [a] = map b64url_char [of_char a div 4, of_char a mod 4 * 16]"
| "b64url_encode [a, b] =
     map b64url_char [of_char a div 4, of_char a mod 4 * 16 + of_char b div 16, of_char b mod 16 * 4]"
| "b64url_encode (a # b # c # s) =
     map b64url_char [of_char a div 4, of_char a mod 4 * 16 + of_char b div 16,
       of_char b mod 16 * 4 + of_char c div 64, of_char c mod 64] @ b64url_encode s"

lemma b64url_char_sextet:
  assumes "d < 64"
  shows "b64url_tab (b64url_char d) = Some d" "\<not> b64url_skip (b64url_char d)"
proof -
  have "\<forall>i \<in> set [0..<64]. b64url_tab (b64url_alphabet ! i) = Some i \<and> \<not> b64url_skip (b64url_alphabet ! i)"
    by code_simp
  with assms show "b64url_tab (b64url_char d) = Some d" "\<not> b64url_skip (b64url_char d)"
    by (simp_all add: b64url_char_def)
qed

lemma sextets_map_char:
  "\<forall>d \<in> set ds. d < 64 \<Longrightarrow> b64url_sextets (map b64url_char ds @ s) = map Some ds @ b64url_sextets s"
  by (induction ds) (simp_all add: b64url_sextets_def b64url_char_sextet)

lemma digits_value_append:
  "digits_value b acc (xs @ ys) = digits_value b (digits_value b acc xs) ys"
  by (induction xs arbitrary: acc) simp_all

lemma octet_halves:
  "of_char (c :: char) div 4 < (64 :: nat)" "of_char c div 16 < (16 :: nat)" "of_char c div 64 < (4 :: nat)"
  using nat_of_char_less_256 [of c] by (simp_all add: less_mult_imp_div_less)

lemma repack:
  "(((0 * 64 + qa) * 64 + (ra * 16 + qb)) * 64 + (rb * 4 + qc)) * 64 + rc
   = ((0 * 256 + (qa * 4 + ra)) * 256 + (qb * 16 + rb)) * 256 + (qc * 64 + rc :: nat)"
  by (simp add: algebra_simps)

lemma b64url_encode_sextets:
  "\<exists>ds. b64url_sextets (b64url_encode s) = map Some ds \<and> length s = 6 * length ds div 8 \<and>
        octets_value s = digits_value 64 0 ds div 2 ^ (6 * length ds mod 8)"
proof (induction s rule: b64url_encode.induct)
  case 1
  then show ?case by (simp add: b64url_sextets_def octets_value_def)
next
  case (2 a)
  show ?case
    using sextets_map_char [of "[of_char a div 4, of_char a mod 4 * 16]" "[]"] octet_halves(1) [of a]
    by (intro exI [of _ "[of_char a div 4, of_char a mod 4 * 16]"])
      (simp add: b64url_sextets_def octets_value_def)
next
  case (3 a b)
  let ?ds = "[of_char a div 4 :: nat, of_char a mod 4 * 16 + of_char b div 16, of_char b mod 16 * 4]"
  have "\<forall>d \<in> set ?ds. d < 64" using octet_halves(1) [of a] octet_halves(2) [of b] by simp
  then have "b64url_sextets (b64url_encode [a, b]) = map Some ?ds"
    using sextets_map_char [of ?ds "[]"] by (simp add: b64url_sextets_def)
  moreover have "1024 * (of_char a div 4) + 256 * (of_char a mod 4) = (of_char a * 256 :: nat)"
    using div_mult_mod_eq [of "of_char a :: nat" 4] by linarith
  ultimately show ?case by (intro exI [of _ ?ds]) (simp add: octets_value_def)
next
  case (4 a b c s)
  let ?ds = "[of_char a div 4 :: nat, of_char a mod 4 * 16 + of_char b div 16,
       of_char b mod 16 * 4 + of_char c div 64, of_char c mod 64]"
  have "of_char a mod 4 < (4 :: nat)" "of_char b mod 16 < (16 :: nat)" by simp_all
  then have "of_char a mod 4 * 16 + of_char b div 16 < (64 :: nat)"
    "of_char b mod 16 * 4 + of_char c div 64 < (64 :: nat)"
    using octet_halves(2) [of b] octet_halves(3) [of c] by linarith+
  then have d: "\<forall>d \<in> set ?ds. d < 64" using octet_halves(1) [of a] by simp
  from 4 obtain es where es: "b64url_sextets (b64url_encode s) = map Some es"
    "length s = 6 * length es div 8" "octets_value s = digits_value 64 0 es div 2 ^ (6 * length es mod 8)"
    by blast
  have "b64url_sextets (b64url_encode (a # b # c # s)) = map Some (?ds @ es)"
    using sextets_map_char [OF d, of "b64url_encode s"] es(1) by (simp only: b64url_encode.simps map_append)
  moreover have "digits_value 64 0 ?ds = digits_value 256 0 (map of_char [a, b, c])"
    using repack [of "of_char a div 4" "of_char a mod 4" "of_char b div 16" "of_char b mod 16"
        "of_char c div 64" "of_char c mod 64"]
    unfolding digits_value.simps list.map div_mult_mod_eq .
  moreover have "octets_value (a # b # c # s)
      = digits_value 256 0 (map of_char [a, b, c]) * 256 ^ length s + octets_value s"
    using digits_value_append [of 256 0 "map of_char [a, b, c]" "map of_char s"]
      digits_value_split [of 256 "digits_value 256 0 (map of_char [a, b, c])" "map of_char s"]
    by (simp add: octets_value_def)
  moreover have "digits_value 64 0 (?ds @ es)
      = digits_value 64 0 ?ds * 64 ^ length es + digits_value 64 0 es"
    by (subst digits_value_append, subst digits_value_split) (rule refl)
  moreover have "6 * length (?ds @ es) = 8 * 3 + 6 * length es" by simp
  then have "6 * length (?ds @ es) div 8 = length (a # b # c # s)"
    "6 * length (?ds @ es) mod 8 = 6 * length es mod 8"
    by (simp_all only: div_mult_self4 mod_mult_self4) (simp_all add: es(2))
  moreover have "8 * length s + 6 * length es mod 8 = 0 + 6 * length es"
    unfolding es(2) by (simp only: mult_div_mod_eq add_0)
  note pending_step [OF this, of "digits_value 64 0 ?ds" 0 "digits_value 64 0 es"]
  ultimately show ?case by (intro exI [of _ "?ds @ es"] conjI) (simp_all only: es(3) mult_0 add_0 add_0_right power_0 mult_1_right)
qed

lemma b64url_decode_encode: "b64url_decode (b64url_encode s) = Some s"
  unfolding b64url_decode_exact by (rule b64url_encode_sextets)

text \<open>
  C15. Decoding the unpadded base64url encoding of any octet string gives the string back, and an
  input is refused exactly when it holds a character that is neither in the alphabet nor skipped.
\<close>

theorem b64url_roundtrip:
  "b64url_decode (b64url_encode s) = Some s \<and>
   (b64url_decode src = None \<longleftrightarrow> (\<exists>c \<in> set src. \<not> b64url_skip c \<and> b64url_tab c = None))"
proof -
  have "b64url_decode src = None \<longleftrightarrow> None \<in> set (b64url_sextets src)"
  proof (cases "None \<in> set (b64url_sextets src)")
    case True
    then show ?thesis by (simp add: b64url_decode_def b64url_loop_None)
  next
    case False
    then obtain ds where "b64url_sextets src = map Some ds" unfolding sextets_Some_iff by blast
    from b64url_loop_Some [OF _ this, of 0 0] False show ?thesis by (auto simp: b64url_decode_def)
  qed
  moreover have "None \<in> set (b64url_sextets src) \<longleftrightarrow> (\<exists>c \<in> set src. \<not> b64url_skip c \<and> b64url_tab c = None)"
    by (auto simp: b64url_sextets_def image_iff)
  ultimately show ?thesis using b64url_decode_encode [of s] by simp
qed

end
