(* ===== verification/Json_Scan.thy ===== *)
theory Json_Scan
  imports Prelude
begin

text \<open>
  \<open>json_get_string\<close> of src/src/maludb_auth.c: the hand-rolled scanner that finds a string member
  of the top-level object of a JSON text. The C code moves an index \<open>i\<close> over the buffer; the model
  passes the rest of the buffer, \<open>json + i\<close>. Its flag \<open>in_str\<close> is initialised to 0 and only ever
  set to 0 again, so the branch it guards is not reachable and has no counterpart. The main lemma
  relates the scanner to the members of an arbitrarily nested JSON object.
\<close>

section \<open>The scanner\<close>

definition dquote :: char where "dquote = CHR 0x22"
definition backslash :: char where "backslash = CHR 0x5C"

definition is_ws :: "char \<Rightarrow> bool" where
  "is_ws c \<longleftrightarrow> c = CHR '' '' \<or> c = CHR 0x09 \<or> c = CHR 0x0A \<or> c = CHR 0x0D"

text \<open>
  The loop over \<open>j\<close> that looks for the closing quote, with \<open>esc2\<close>: the characters before the
  quote and the buffer after it.
\<close>

fun scan_key :: "bool \<Rightarrow> string \<Rightarrow> (string \<times> string) option" where
  "scan_key esc [] = None"
| "scan_key esc (c # cs) =
     (if esc then map_option (apfst (Cons c)) (scan_key False cs)
      else if c = backslash then map_option (apfst (Cons c)) (scan_key True cs)
      else if c = dquote then Some ([], cs)
      else map_option (apfst (Cons c)) (scan_key False cs))"

text \<open>The loop that scans the value: a backslash advances by two.\<close>

fun scan_value :: "string \<Rightarrow> string option" where
  "scan_value [] = None"
| "scan_value [c] = (if c = dquote then Some [] else None)"
| "scan_value (c # d # cs) =
     (if c = backslash then map_option (\<lambda>v. c # d # v) (scan_value cs)
      else if c = dquote then Some []
      else map_option (Cons c) (scan_value (d # cs)))"

definition get_value :: "string \<Rightarrow> string option" where
  "get_value s =
     (case s of [] \<Rightarrow> None
      | c # cs \<Rightarrow> if c \<noteq> dquote then None else map_option c_string (scan_value cs))"

lemma scan_key_shorter: "scan_key esc s = Some (k, r) \<Longrightarrow> length r < length s"
  by (induction esc s arbitrary: k r rule: scan_key.induct) (fastforce split: if_splits)+

lemma length_dropWhile_less:
  "length r < n \<Longrightarrow> length (dropWhile P r) < n"
  using length_dropWhile_le [of P r] by linarith

lemma dropWhile_Cons_shorter:
  "dropWhile P r = c # cs \<Longrightarrow> Suc (length cs) \<le> length r"
  using length_dropWhile_le [of P r] by simp

function json_scan :: "string \<Rightarrow> int \<Rightarrow> string \<Rightarrow> string option" where
  "json_scan field depth s =
     (case s of [] \<Rightarrow> None
      | c # cs \<Rightarrow>
          (if c = dquote then
             (case scan_key False cs of
                None \<Rightarrow> None
              | Some (k, r) \<Rightarrow>
                  (case dropWhile is_ws r of
                     [] \<Rightarrow> json_scan field depth (dropWhile is_ws r)
                   | d # ds \<Rightarrow>
                       (if d \<noteq> CHR '':'' then json_scan field depth (dropWhile is_ws r)
                        else if depth = 1 \<and> k = field then get_value (dropWhile is_ws ds)
                        else json_scan field depth (dropWhile is_ws ds))))
           else if c = CHR ''{'' \<or> c = CHR ''['' then json_scan field (depth + 1) cs
           else if c = CHR ''}'' \<or> c = CHR '']'' then json_scan field (depth - 1) cs
           else json_scan field depth cs))"
  by pat_completeness auto
termination
  by (relation "measure (\<lambda>(field, depth, s). length s)")
    (auto dest!: scan_key_shorter dropWhile_Cons_shorter intro!: length_dropWhile_less)

declare json_scan.simps [simp del]

definition json_get_string :: "string \<Rightarrow> string \<Rightarrow> string option" where
  "json_get_string json field = json_scan field 0 json"

section \<open>JSON texts\<close>

text \<open>
  JSON values with the strings in their escaped form, as they stand between the quotes, and
  numbers and literals as opaque atoms.
\<close>

datatype json =
    JStr string
  | JAtom string
  | JArr "json list"
  | JObj "(string \<times> json) list"

definition json_quoted :: "string \<Rightarrow> string" where
  "json_quoted s = dquote # s @ [dquote]"

fun well_escaped :: "string \<Rightarrow> bool" where
  "well_escaped [] = True"
| "well_escaped [c] = (c \<noteq> backslash \<and> c \<noteq> dquote)"
| "well_escaped (c # d # cs) =
     (if c = backslash then well_escaped cs else c \<noteq> dquote \<and> well_escaped (d # cs))"

definition atom_char :: "char \<Rightarrow> bool" where
  "atom_char c \<longleftrightarrow> c \<notin> {dquote, CHR ''{'', CHR ''}'', CHR ''['', CHR '']'', CHR '':'', CHR '',''} \<and> \<not> is_ws c"

abbreviation ws :: "string \<Rightarrow> bool" where
  "ws w \<equiv> list_all is_ws w"

text \<open>
  The texts of a value, by the grammar of RFC 8259: any white space around the elements of an array,
  and around the names and values of an object.
\<close>

inductive json_text :: "json \<Rightarrow> string \<Rightarrow> bool"
  and text_elements :: "json list \<Rightarrow> string \<Rightarrow> bool"
  and text_members :: "(string \<times> json) list \<Rightarrow> string \<Rightarrow> bool" where
  text_str: "well_escaped s \<Longrightarrow> json_text (JStr s) (json_quoted s)"
| text_atom: "list_all atom_char a \<Longrightarrow> a \<noteq> [] \<Longrightarrow> json_text (JAtom a) a"
| text_arr: "text_elements js t \<Longrightarrow> json_text (JArr js) (CHR ''['' # t @ '']'')"
| text_obj: "text_members fs t \<Longrightarrow> json_text (JObj fs) (CHR ''{'' # t @ ''}'')"
| elements_none: "ws w \<Longrightarrow> text_elements [] w"
| elements_one: "ws w1 \<Longrightarrow> json_text j t \<Longrightarrow> ws w2 \<Longrightarrow> text_elements [j] (w1 @ t @ w2)"
| elements_more: "ws w1 \<Longrightarrow> json_text j t \<Longrightarrow> ws w2 \<Longrightarrow> text_elements (i # js) ts \<Longrightarrow>
    text_elements (j # i # js) (w1 @ t @ w2 @ CHR '','' # ts)"
| members_none: "ws w \<Longrightarrow> text_members [] w"
| members_one: "ws w1 \<Longrightarrow> well_escaped k \<Longrightarrow> ws w2 \<Longrightarrow> ws w3 \<Longrightarrow> json_text j t \<Longrightarrow> ws w4 \<Longrightarrow>
    text_members [(k, j)] (w1 @ json_quoted k @ w2 @ CHR '':'' # w3 @ t @ w4)"
| members_more: "ws w1 \<Longrightarrow> well_escaped k \<Longrightarrow> ws w2 \<Longrightarrow> ws w3 \<Longrightarrow> json_text j t \<Longrightarrow> ws w4 \<Longrightarrow>
    text_members (m # ms) ts \<Longrightarrow>
    text_members ((k, j) # m # ms) (w1 @ json_quoted k @ w2 @ CHR '':'' # w3 @ t @ w4 @ CHR '','' # ts)"

inductive_cases json_text_objE: "json_text (JObj fs) t"

section \<open>Scanning the tokens of a text\<close>

text \<open>What may follow a value: optional white space and no colon.\<close>

definition value_follow :: "string \<Rightarrow> bool" where
  "value_follow rest \<longleftrightarrow> (case dropWhile is_ws rest of [] \<Rightarrow> True | c # cs \<Rightarrow> c \<noteq> CHR '':'')"

lemmas scan_char_defs = dquote_def backslash_def is_ws_def

lemma json_scan_Nil [simp]: "json_scan f d [] = None"
  by (simp add: json_scan.simps)

lemma json_scan_open [simp]:
  "json_scan f d (CHR ''{'' # cs) = json_scan f (d + 1) cs"
  "json_scan f d (CHR ''['' # cs) = json_scan f (d + 1) cs"
  by (simp_all add: json_scan.simps [of f d "_ # cs"] dquote_def)

lemma json_scan_close [simp]:
  "json_scan f d (CHR ''}'' # cs) = json_scan f (d - 1) cs"
  "json_scan f d (CHR '']'' # cs) = json_scan f (d - 1) cs"
  by (simp_all add: json_scan.simps [of f d "_ # cs"] dquote_def)

lemma json_scan_other:
  "c \<notin> {dquote, CHR ''{'', CHR ''}'', CHR ''['', CHR '']''} \<Longrightarrow> json_scan f d (c # cs) = json_scan f d cs"
  by (simp add: json_scan.simps [of f d "c # cs"])

lemma json_scan_comma [simp]: "json_scan f d (CHR '','' # cs) = json_scan f d cs"
  by (simp add: json_scan_other dquote_def)

lemma json_scan_ws_char: "is_ws c \<Longrightarrow> json_scan f d (c # cs) = json_scan f d cs"
  by (auto simp: json_scan_other scan_char_defs)

lemma json_scan_ws: "ws w \<Longrightarrow> json_scan f d (w @ s) = json_scan f d s"
  by (induction w) (simp_all add: json_scan_ws_char)

lemma json_scan_dropWhile: "json_scan f d (dropWhile is_ws s) = json_scan f d s"
  by (induction s) (simp_all add: json_scan_ws_char)

lemma scan_key_quoted: "well_escaped s \<Longrightarrow> scan_key False (s @ dquote # r) = Some (s, r)"
  by (induction s rule: well_escaped.induct) (auto simp: scan_char_defs)

lemma scan_value_quoted: "well_escaped s \<Longrightarrow> scan_value (s @ dquote # r) = Some s"
proof (induction s rule: well_escaped.induct)
  case 1
  then show ?case by (cases r) (simp_all add: scan_char_defs)
next
  case (2 c)
  then show ?case by (cases r) (simp_all add: scan_char_defs)
next
  case (3 c d cs)
  then show ?case by (simp split: if_splits)
qed

lemma dropWhile_ws: "ws w \<Longrightarrow> dropWhile is_ws (w @ s) = dropWhile is_ws s"
  by (induction w) simp_all

lemma json_scan_string:
  assumes "well_escaped s" "value_follow rest"
  shows "json_scan f d (json_quoted s @ rest) = json_scan f d rest"
  using assms json_scan_dropWhile [of f d rest]
  by (cases "dropWhile is_ws rest")
    (auto simp: json_quoted_def json_scan.simps [of f d "dquote # _"] scan_key_quoted value_follow_def
      simp del: dropWhile_eq_Nil_conv)

lemma json_scan_member:
  assumes "well_escaped k" "ws w2" "ws w3"
  shows "json_scan f d (json_quoted k @ w2 @ CHR '':'' # w3 @ s)
         = (if d = 1 \<and> k = f then get_value (dropWhile is_ws s) else json_scan f d s)"
proof -
  have "dropWhile is_ws (CHR '':'' # w3 @ s) = CHR '':'' # w3 @ s" by (simp add: is_ws_def)
  then show ?thesis using assms json_scan_dropWhile [of f d s]
    by (simp add: json_quoted_def json_scan.simps [of f d "dquote # _"] scan_key_quoted dropWhile_ws)
qed

lemma value_follow_char: "ws w \<Longrightarrow> c \<noteq> CHR '':'' \<Longrightarrow> \<not> is_ws c \<Longrightarrow> value_follow (w @ c # s)"
  by (simp add: value_follow_def dropWhile_ws)

lemma value_follow_delim:
  assumes "ws w"
  shows "value_follow (w @ CHR '','' # s)" "value_follow (w @ CHR ''}'' # s)" "value_follow (w @ CHR '']'' # s)"
  by (rule value_follow_char [OF assms]; simp add: is_ws_def)+

lemma json_scan_atom: "list_all atom_char a \<Longrightarrow> json_scan f d (a @ rest) = json_scan f d rest"
  by (induction a) (auto simp: atom_char_def json_scan_other)

lemmas json_scan_simps = json_scan_ws json_scan_string json_scan_atom json_scan_member value_follow_delim

text \<open>
  From depth one on the scanner skips every value, from depth two on every member as well.
\<close>

lemma json_scan_value:
  "json_text j t \<Longrightarrow> \<forall>d rest. 1 \<le> d \<longrightarrow> value_follow rest \<longrightarrow> json_scan f d (t @ rest) = json_scan f d rest"
  "text_elements js t' \<Longrightarrow> \<forall>d rest. 1 \<le> d \<longrightarrow>
     json_scan f d (t' @ CHR '']'' # rest) = json_scan f d (CHR '']'' # rest)"
  "text_members fs t'' \<Longrightarrow> \<forall>d rest. 2 \<le> d \<longrightarrow>
     json_scan f d (t'' @ CHR ''}'' # rest) = json_scan f d (CHR ''}'' # rest)"
  by (induction rule: json_text_text_elements_text_members.inducts) (simp_all add: json_scan_simps)

text \<open>The value of a member as the scanner returns it: strings only, still escaped.\<close>

definition json_string_of :: "json \<Rightarrow> string option" where
  "json_string_of j = (case j of JStr s \<Rightarrow> Some (c_string s) | _ \<Rightarrow> None)"

lemma get_value_text:
  assumes "json_text j t"
  shows "get_value (dropWhile is_ws (t @ rest)) = json_string_of j"
  using assms
proof (cases rule: json_text.cases)
  case text_atom
  then show ?thesis by (cases t) (auto simp: json_string_of_def get_value_def atom_char_def)
qed (auto simp: json_string_of_def get_value_def json_quoted_def scan_value_quoted
    scan_value_quoted [unfolded dquote_def] scan_char_defs)

lemma json_scan_members:
  "text_members fs t \<Longrightarrow> json_scan f 1 (t @ CHR ''}'' # rest) =
     (case map_of fs f of Some j \<Rightarrow> json_string_of j | None \<Rightarrow> json_scan f 0 rest)"
proof (induction fs arbitrary: t)
  case Nil
  then show ?case by (auto elim: text_members.cases simp: json_scan_ws)
next
  case (Cons m fs)
  from Cons.prems show ?case
  proof (cases rule: text_members.cases)
    case (members_one w1 k w2 w3 j u w4)
    then show ?thesis using json_scan_value(1) [of j u f] get_value_text [of j u]
      by (simp add: json_scan_simps)
  next
    case (members_more w1 k w2 w3 j u w4 n ms ts)
    then show ?thesis using Cons.IH [of ts] json_scan_value(1) [of j u f] get_value_text [of j u]
      by (simp add: json_scan_simps)
  qed
qed

text \<open>
  C14. On every text of a JSON object, however its values are nested and whatever white space stands
  before, after and between its tokens, \<open>json_get_string\<close> looks only at the first top-level member
  of that name: when it is a string, the characters between its quotes are returned as they stand,
  escapes included, up to a NUL; when there is no such member or it is not a string, NULL. Names and
  strings inside nested values are never taken for members of the object.
\<close>

theorem json_get_string_member:
  assumes "json_text (JObj fs) t" and "ws w" and "ws w'"
  shows "json_get_string (w @ t @ w') f = (case map_of fs f of Some (JStr s) \<Rightarrow> Some (c_string s) | _ \<Rightarrow> None)"
proof -
  obtain u where t: "t = CHR ''{'' # u @ ''}''" and u: "text_members fs u" using assms(1) by (rule json_text_objE)
  have "json_scan f 0 w' = None" using json_scan_ws [OF assms(3), of f 0 "[]"] by simp
  with json_scan_members [OF u, of f w'] assms(2) show ?thesis
    by (auto simp: t json_get_string_def json_scan_ws json_string_of_def split: option.split json.split)
qed

definition sample_header :: json where
  "sample_header = JObj [(''x5c'', JObj [(''alg'', JStr ''none'')]), (''alg'', JStr ''HS256'')]"

definition sample_header_text :: string where
  "sample_header_text = ''{'' @ json_quoted ''x5c'' @ '': { '' @ json_quoted ''alg'' @ '':'' @ json_quoted ''none''
     @ ''}, '' @ json_quoted ''alg'' @ '' :'' @ json_quoted ''HS256'' @ '' }''"

lemma sample_header_grammar: "json_text sample_header sample_header_text"
proof -
  have "text_members [(''alg'', JStr ''none'')] ('' '' @ json_quoted ''alg'' @ [] @ CHR '':'' # [] @ json_quoted ''none'' @ [])"
    by (rule members_one) (simp_all add: text_str scan_char_defs)
  then have "json_text (JObj [(''alg'', JStr ''none'')]) (CHR ''{'' # ('' '' @ json_quoted ''alg'' @ '':'' @ json_quoted ''none'') @ ''}'')"
    by (intro text_obj) simp
  note inner = members_more [of "[]" "''x5c''" "[]" "'' ''", OF _ _ _ _ this]
  have "text_members [(''alg'', JStr ''HS256'')] ('' '' @ json_quoted ''alg'' @ '' '' @ CHR '':'' # [] @ json_quoted ''HS256'' @ '' '')"
    by (rule members_one) (simp_all add: text_str scan_char_defs)
  from text_obj [OF inner [OF _ _ _ _ _ this, of "[]"]] show ?thesis
    by (simp add: sample_header_def sample_header_text_def scan_char_defs)
qed

theorem json_get_string_member_witness:
  "json_text sample_header sample_header_text \<and>
   json_get_string ('' '' @ sample_header_text @ []) ''alg'' = Some ''HS256'' \<and>
   json_get_string ('' '' @ sample_header_text @ []) ''x5c'' = None"
proof -
  have w: "ws '' ''" "ws []" by (simp_all add: is_ws_def)
  from json_get_string_member [OF sample_header_grammar [unfolded sample_header_def] w] show ?thesis
    by (simp add: sample_header_grammar c_string_def)
qed

end
