(* ===== verification/Jwt_Auth.thy ===== *)
theory Jwt_Auth
  imports Base64url Json_Scan
begin

text \<open>
  src/src/maludb_auth.c: the HMAC primitive and the JWT verifier. OpenSSL's \<open>HMAC\<close>, the answer
  of SPI to the signing-key query, the executor's context and \<open>BuildTupleFromCStrings\<close> are the
  fields of \<open>jwt_env\<close>. \<open>fetch_signing_key\<close> allocates the strings it returns in the memory context
  that \<open>SPI_finish\<close> deletes; \<open>after_finish\<close> is what reading such a string yields afterwards. A
  read through a NULL pointer is the outcome \<open>None\<close>.
\<close>

section \<open>Environment\<close>

record 'row jwt_env =
  hmac :: "string \<Rightarrow> string \<Rightarrow> string option"
  key_connect :: int
  key_select :: "string \<Rightarrow> int \<times> (string option \<times> string option) list"
  after_finish :: "string \<Rightarrow> string"
  claims_materialize :: bool
  claims_composite :: bool
  build_tuple :: "string option list \<Rightarrow> pg_error + 'row"

definition jwt_invalid :: "string \<Rightarrow> pg_error + 'a" where
  "jwt_invalid msg = Inl (Ereport ERRCODE_INVALID_PARAMETER_VALUE (''maludb_jwt_verify: '' @ msg))"

definition jwt_internal :: "string \<Rightarrow> pg_error + 'a" where
  "jwt_internal msg = Inl (Ereport ERRCODE_INTERNAL_ERROR (''maludb_jwt_verify: '' @ msg))"

definition jwt_unsupported :: "string \<Rightarrow> pg_error + 'a" where
  "jwt_unsupported msg = Inl (Ereport ERRCODE_FEATURE_NOT_SUPPORTED (''maludb_jwt_verify: '' @ msg))"

lemmas jwt_error_defs = jwt_invalid_def jwt_internal_def jwt_unsupported_def

section \<open>Operations\<close>

definition maludb_hmac_sha256 :: "'row jwt_env \<Rightarrow> string \<Rightarrow> string \<Rightarrow> string result" where
  "maludb_hmac_sha256 env key data =
     (case hmac env key data of
        None \<Rightarrow> Inl (Ereport ERRCODE_INTERNAL_ERROR ''maludb_hmac_sha256: OpenSSL HMAC failed'')
      | Some out \<Rightarrow> Inr out)"

definition ct_eq :: "string \<Rightarrow> string \<Rightarrow> nat \<Rightarrow> bool" where
  "ct_eq a b n \<longleftrightarrow> take n a = take n b"

record jwt_parts =
  h_off :: nat
  h_len :: nat
  p_off :: nat
  p_len :: nat
  s_off :: nat
  s_len :: nat

fun split_loop :: "string \<Rightarrow> nat \<Rightarrow> nat \<Rightarrow> nat \<Rightarrow> nat \<Rightarrow> (nat \<times> nat \<times> nat) option" where
  "split_loop [] i found dot1 dot2 = Some (found, dot1, dot2)"
| "split_loop (c # cs) i found dot1 dot2 =
     (if c = CHR ''.'' then
        (if found = 0 then split_loop cs (Suc i) 1 i dot2
         else if found = 1 then split_loop cs (Suc i) 2 dot1 i
         else None)
      else split_loop cs (Suc i) found dot1 dot2)"

definition jwt_split :: "string \<Rightarrow> jwt_parts option" where
  "jwt_split jwt =
     (case split_loop jwt 0 0 0 0 of
        None \<Rightarrow> None
      | Some (found, dot1, dot2) \<Rightarrow>
          (if found \<noteq> 2 \<or> dot1 = 0 \<or> dot2 \<le> dot1 + 1 \<or> dot2 = length jwt - 1 then None
           else Some \<lparr>h_off = 0, h_len = dot1, p_off = dot1 + 1, p_len = dot2 - dot1 - 1,
                      s_off = dot2 + 1, s_len = length jwt - dot2 - 1\<rparr>))"

definition slice :: "nat \<Rightarrow> nat \<Rightarrow> string \<Rightarrow> string" where
  "slice off len s = take len (drop off s)"

text \<open>\<open>fetch_signing_key\<close>: \<open>None\<close> is \<open>found = 0\<close>.\<close>

definition fetch_signing_key ::
  "'row jwt_env \<Rightarrow> string \<Rightarrow> (string option \<times> string option) option result" where
  "fetch_signing_key env kid =
     (if key_connect env \<noteq> SPI_OK_CONNECT then jwt_internal ''SPI_connect failed''
      else (case key_select env kid of (rc, rows) \<Rightarrow>
        if rc \<noteq> SPI_OK_SELECT then jwt_internal (''signing-key SPI failed: '' @ fmt_d rc)
        else (case rows of
                [] \<Rightarrow> Inr None
              | (alg, jwk) # _ \<Rightarrow>
                  Inr (Some (map_option (after_finish env) alg, map_option (after_finish env) jwk)))))"

definition emit_claim_row :: "'row jwt_env \<Rightarrow> string \<Rightarrow> 'row result" where
  "emit_claim_row env payload =
     (if \<not> claims_materialize env then jwt_unsupported ''materialize-mode caller required''
      else if \<not> claims_composite env
      then jwt_unsupported ''function must be called in a context that accepts a record''
      else build_tuple env
             [json_get_string payload ''account_id'', json_get_string payload ''role_name'',
              json_get_string payload ''owner_schema'', json_get_string payload ''active_pool'', None])"

text \<open>The HS256 branch of \<open>maludb_jwt_verify\<close>.\<close>

definition jwt_hs256 :: "'row jwt_env \<Rightarrow> string \<Rightarrow> string \<Rightarrow> string \<Rightarrow> string \<Rightarrow> 'row result" where
  "jwt_hs256 env jwk signed_input sig payload =
     (case json_get_string jwk ''k'' of
        None \<Rightarrow> jwt_invalid (''HS256 JWK missing '' @ squoted ''k'')
      | Some k_b64 \<Rightarrow>
          (case b64url_decode k_b64 of
             None \<Rightarrow> jwt_invalid (''HS256 JWK '' @ squoted ''k'' @ '' is not valid base64url'')
           | Some k \<Rightarrow>
               (case hmac env k signed_input of
                  None \<Rightarrow> jwt_internal ''HMAC failed''
                | Some mac \<Rightarrow>
                    (if length sig \<noteq> length mac \<or> \<not> ct_eq mac sig (length mac)
                     then jwt_invalid ''HS256 signature mismatch''
                     else emit_claim_row env payload))))"

text \<open>What follows the key lookup: the two algorithms must agree, then the dispatch on them.\<close>

definition jwt_dispatch ::
  "'row jwt_env \<Rightarrow> string \<Rightarrow> string \<Rightarrow> string option \<times> string option \<Rightarrow> string \<Rightarrow> string \<Rightarrow> string \<Rightarrow>
   'row result option" where
  "jwt_dispatch env header_json kid key signed_input sig payload =
     (case (json_get_string header_json ''alg'', fst key) of
        (Some header_alg, Some alg) \<Rightarrow>
          (if header_alg \<noteq> alg
           then Some (jwt_invalid (''header.alg='' @ header_alg @ '' does not match registered alg='' @ alg
                                   @ '' for kid='' @ kid))
           else if alg = ''HS256''
           then (case snd key of None \<Rightarrow> None | Some jwk \<Rightarrow> Some (jwt_hs256 env jwk signed_input sig payload))
           else Some (jwt_unsupported (''algorithm '' @ alg
                        @ '' is not yet implemented (HS256 only in 0.63.0)'')))
      | (header_alg, alg) \<Rightarrow>
          Some (jwt_invalid (''header.alg='' @ case_option ''?'' id header_alg
                  @ '' does not match registered alg='' @ case_option ''?'' id alg @ '' for kid='' @ kid)))"

definition maludb_jwt_verify :: "'row jwt_env \<Rightarrow> string \<Rightarrow> 'row result option" where
  "maludb_jwt_verify env jwt =
     (case jwt_split jwt of
        None \<Rightarrow> Some (jwt_invalid ''malformed JWT (expected three dot-separated segments)'')
      | Some parts \<Rightarrow>
          (case (b64url_decode (slice (h_off parts) (h_len parts) jwt),
                 b64url_decode (slice (p_off parts) (p_len parts) jwt),
                 b64url_decode (slice (s_off parts) (s_len parts) jwt)) of
             (Some header_json, Some payload, Some sig) \<Rightarrow>
               (case json_get_string header_json ''alg'' of
                  None \<Rightarrow> Some (jwt_invalid (''header missing '' @ squoted ''alg''))
                | Some alg0 \<Rightarrow>
               (case json_get_string header_json ''kid'' of
                  None \<Rightarrow> Some (jwt_invalid (''header missing '' @ squoted ''kid''))
                | Some kid \<Rightarrow>
                    (case fetch_signing_key env kid of
                       Inl e \<Rightarrow> Some (Inl e)
                     | Inr None \<Rightarrow>
                         Some (jwt_invalid (''signing key '' @ squoted kid
                                            @ '' not registered or disabled''))
                     | Inr (Some key) \<Rightarrow>
                         jwt_dispatch env header_json kid key
                           (slice (h_off parts) (h_len parts) jwt @ ''.''
                              @ slice (p_off parts) (p_len parts) jwt)
                           sig payload)))
           | _ \<Rightarrow> Some (jwt_invalid ''base64url decode failed'')))"

section \<open>Splitting\<close>

definition jwt_segment :: "string \<Rightarrow> bool" where
  "jwt_segment s \<longleftrightarrow> s \<noteq> [] \<and> CHR ''.'' \<notin> set s"

lemma split_loop_no_dot:
  "CHR ''.'' \<notin> set a \<Longrightarrow> split_loop (a @ cs) i found d1 d2 = split_loop cs (i + length a) found d1 d2"
  by (induction a arbitrary: i) auto

lemma split_loop_two:
  "split_loop cs i 2 d1 d2 = (if CHR ''.'' \<in> set cs then None else Some (2, d1, d2))"
  by (induction cs arbitrary: i) auto

lemma split_loop_dots:
  "CHR ''.'' \<notin> set h \<Longrightarrow> CHR ''.'' \<notin> set p \<Longrightarrow>
   split_loop (h @ CHR ''.'' # p @ CHR ''.'' # s) 0 0 0 0
   = (if CHR ''.'' \<in> set s then None else Some (2, length h, length h + length p + 1))"
  by (simp add: split_loop_no_dot split_loop_two)

lemma jwt_split_segments:
  assumes "jwt_segment h" "jwt_segment p" "jwt_segment s"
  shows "jwt_split (h @ CHR ''.'' # p @ CHR ''.'' # s) =
    Some \<lparr>h_off = 0, h_len = length h, p_off = length h + 1, p_len = length p,
          s_off = length h + length p + 2, s_len = length s\<rparr>"
  using assms by (auto simp: jwt_split_def split_loop_dots jwt_segment_def)

lemma jwt_split_SomeD:
  assumes "jwt_split jwt = Some parts"
  shows "\<exists>h p s. jwt = h @ CHR ''.'' # p @ CHR ''.'' # s \<and> jwt_segment h \<and> jwt_segment p \<and> jwt_segment s"
proof -
  have "jwt_split jwt = None" if "CHR ''.'' \<notin> set jwt"
    using split_loop_no_dot [OF that, of "[]"] by (simp add: jwt_split_def)
  with assms have "CHR ''.'' \<in> set jwt" by (cases "CHR ''.'' \<in> set jwt") auto
  then obtain h r where jwt: "jwt = h @ CHR ''.'' # r" and h: "CHR ''.'' \<notin> set h"
    by (meson split_list_first)
  have "jwt_split jwt = None" if "CHR ''.'' \<notin> set r"
    using h split_loop_no_dot [OF that, of "[]" "Suc (length h)" 1]
    by (simp add: jwt split_loop_no_dot jwt_split_def)
  with assms have "CHR ''.'' \<in> set r" by (cases "CHR ''.'' \<in> set r") auto
  then obtain p s where r: "r = p @ CHR ''.'' # s" and p: "CHR ''.'' \<notin> set p"
    by (meson split_list_first)
  from assms show ?thesis unfolding jwt r jwt_split_def split_loop_dots [OF h p]
    using h p by (intro exI [of _ h] exI [of _ p] exI [of _ s])
      (auto simp: jwt_segment_def split: if_splits)
qed

text \<open>
  \<open>jwt_split\<close> accepts exactly the strings with two dots and three non-empty segments, and the
  offsets and lengths it returns are those of the segments.
\<close>

lemma jwt_split_exact:
  "jwt_split jwt = Some parts \<longleftrightarrow>
   (\<exists>h p s. jwt = h @ CHR ''.'' # p @ CHR ''.'' # s \<and> jwt_segment h \<and> jwt_segment p \<and> jwt_segment s \<and>
      parts = \<lparr>h_off = 0, h_len = length h, p_off = length h + 1, p_len = length p,
               s_off = length h + length p + 2, s_len = length s\<rparr>)"
  using jwt_split_segments jwt_split_SomeD [of jwt parts] by fastforce

lemma slice_segments:
  fixes h p s :: string
  defines "jwt \<equiv> h @ CHR ''.'' # p @ CHR ''.'' # s"
  shows "slice 0 (length h) jwt = h" "slice (Suc (length h)) (length p) jwt = p"
    "slice (Suc (Suc (length h + length p))) (length s) jwt = s"
  by (simp_all add: slice_def jwt_def)

section \<open>Acceptance\<close>

text \<open>The registered and enabled key of a kid, as the query returns it.\<close>

definition registered_key :: "'row jwt_env \<Rightarrow> string \<Rightarrow> string \<Rightarrow> string \<Rightarrow> bool" where
  "registered_key env kid alg jwk \<longleftrightarrow>
     key_connect env = SPI_OK_CONNECT \<and>
     (\<exists>rows. key_select env kid = (SPI_OK_SELECT, (Some alg, Some jwk) # rows))"

lemma ct_eq_length: "length a = length b \<Longrightarrow> ct_eq a b (length a) \<longleftrightarrow> a = b"
  by (simp add: ct_eq_def)

lemma jwt_hs256_accepts:
  "jwt_hs256 env jwk inp sig payload = Inr row \<longleftrightarrow>
   (\<exists>k64 k. json_get_string jwk ''k'' = Some k64 \<and> b64url_decode k64 = Some k \<and>
      hmac env k inp = Some sig) \<and> emit_claim_row env payload = Inr row"
  by (auto simp: jwt_hs256_def jwt_error_defs ct_eq_length split: option.splits)

lemma jwt_dispatch_accepts:
  "jwt_dispatch env hdr kid key inp sig payload = Some (Inr row) \<longleftrightarrow>
   json_get_string hdr ''alg'' = Some ''HS256'' \<and> fst key = Some ''HS256'' \<and>
   (\<exists>jwk. snd key = Some jwk \<and> jwt_hs256 env jwk inp sig payload = Inr row)"
  by (auto simp: jwt_dispatch_def jwt_error_defs split: option.splits)

text \<open>
  The algorithm and the key text that the verifier works with are those of the registered row, read
  after \<open>SPI_finish\<close> has freed them: \<open>after_finish\<close> is what the memory then reads as.
\<close>

lemma fetch_signing_key_found:
  "fetch_signing_key env kid = Inr (Some (Some alg, Some jwk)) \<longleftrightarrow>
   (\<exists>alg0 jwk0. registered_key env kid alg0 jwk0 \<and> after_finish env alg0 = alg \<and> after_finish env jwk0 = jwk)"
  by (auto simp: fetch_signing_key_def registered_key_def jwt_error_defs split: list.splits prod.splits if_splits)

text \<open>
  C13. The verifier returns a claim row exactly when the token has three non-empty segments that
  decode, its header names HS256 and a kid with a registered, enabled key whose algorithm reads HS256,
  the signature segment is the HMAC-SHA256 of \<open>header.payload\<close> under the decoded \<open>k\<close> of that key's
  text, and the claims of the payload make a row. In particular a token whose header names another
  algorithm is never accepted. The key's algorithm and text are read after \<open>SPI_finish\<close> has freed
  them; the statement has them as the freed memory reads (\<open>after_finish\<close>), with no assumption on it.
\<close>

theorem jwt_verify_accepts_iff:
  "maludb_jwt_verify env jwt = Some (Inr row) \<longleftrightarrow>
    (\<exists>h p s hdr pay sig kid alg0 jwk0 k64 k.
       jwt = h @ CHR ''.'' # p @ CHR ''.'' # s \<and> jwt_segment h \<and> jwt_segment p \<and> jwt_segment s \<and>
       b64url_decode h = Some hdr \<and> b64url_decode p = Some pay \<and> b64url_decode s = Some sig \<and>
       json_get_string hdr ''alg'' = Some ''HS256'' \<and> json_get_string hdr ''kid'' = Some kid \<and>
       registered_key env kid alg0 jwk0 \<and> after_finish env alg0 = ''HS256'' \<and>
       json_get_string (after_finish env jwk0) ''k'' = Some k64 \<and> b64url_decode k64 = Some k \<and>
       hmac env k (h @ ''.'' @ p) = Some sig \<and> emit_claim_row env pay = Inr row)"
    (is "?L \<longleftrightarrow> ?R")
proof
  assume ?R
  then obtain h p s hdr pay sig kid alg0 jwk0 k64 k where
    jwt: "jwt = h @ CHR ''.'' # p @ CHR ''.'' # s" and seg: "jwt_segment h" "jwt_segment p" "jwt_segment s"
    and rest: "b64url_decode h = Some hdr" "b64url_decode p = Some pay" "b64url_decode s = Some sig"
       "json_get_string hdr ''alg'' = Some ''HS256''" "json_get_string hdr ''kid'' = Some kid"
       "json_get_string (after_finish env jwk0) ''k'' = Some k64" "b64url_decode k64 = Some k"
       "hmac env k (h @ ''.'' @ p) = Some sig" "emit_claim_row env pay = Inr row"
    and key: "registered_key env kid alg0 jwk0" "after_finish env alg0 = ''HS256''" by blast
  from key have "fetch_signing_key env kid = Inr (Some (Some ''HS256'', Some (after_finish env jwk0)))"
    unfolding fetch_signing_key_found by blast
  with rest jwt_split_segments [OF seg] show ?L
    by (simp add: maludb_jwt_verify_def jwt slice_segments jwt_dispatch_accepts jwt_hs256_accepts)
next
  assume L: ?L
  then obtain parts where parts: "jwt_split jwt = Some parts"
    by (auto simp: maludb_jwt_verify_def jwt_error_defs split: option.splits)
  from jwt_split_SomeD [OF parts] obtain h p s where
    jwt: "jwt = h @ CHR ''.'' # p @ CHR ''.'' # s" and seg: "jwt_segment h" "jwt_segment p" "jwt_segment s"
    by blast
  from L obtain hdr pay sig kid key where
    d: "b64url_decode h = Some hdr" "b64url_decode p = Some pay" "b64url_decode s = Some sig"
    and kid: "json_get_string hdr ''kid'' = Some kid"
    and key: "fetch_signing_key env kid = Inr (Some key)"
    and disp: "jwt_dispatch env hdr kid key (h @ ''.'' @ p) sig pay = Some (Inr row)"
    unfolding maludb_jwt_verify_def jwt jwt_split_segments [OF seg]
    by (auto simp: slice_segments jwt_error_defs split: option.splits sum.splits)
  then obtain jwk where "snd key = Some jwk" "fst key = Some ''HS256''"
    and hs: "json_get_string hdr ''alg'' = Some ''HS256''" "jwt_hs256 env jwk (h @ ''.'' @ p) sig pay = Inr row"
    unfolding jwt_dispatch_accepts by blast
  with key have "fetch_signing_key env kid = Inr (Some (Some ''HS256'', Some jwk))" by (metis prod.collapse)
  then obtain alg0 jwk0 where "registered_key env kid alg0 jwk0" "after_finish env alg0 = ''HS256''"
    "jwk = after_finish env jwk0" unfolding fetch_signing_key_found by blast
  with jwt seg d kid hs show ?R unfolding jwt_hs256_accepts by blast
qed

definition sample_jwk :: string where
  "sample_jwk = ''{'' @ json_quoted ''k'' @ '':'' @ json_quoted ''Sw'' @ '', '' @ json_quoted ''kty'' @ '':'' @ json_quoted ''oct'' @ ''}''"

definition sample_jwt_env :: "string option list jwt_env" where
  "sample_jwt_env = \<lparr>hmac = (\<lambda>k d. Some (take 2 (k @ d))), key_connect = 1,
     key_select = (\<lambda>kid. (5, if kid = ''a'' then [(Some ''HS256'', Some sample_jwk)] else [])),
     after_finish = (\<lambda>s. s), claims_materialize = True, claims_composite = True, build_tuple = Inr\<rparr>"

definition sample_jwt :: string where
  "sample_jwt = ''eyJhbGciOiJIUzI1NiIsImtpZCI6ImEifQ.eyJyb2xlX25hbWUiOiJyIn0.S2U''"

theorem jwt_verify_accepts_iff_witness:
  "maludb_jwt_verify sample_jwt_env sample_jwt = Some (Inr [None, Some ''r'', None, None, None]) \<and>
   (\<exists>kid alg0 jwk0. registered_key sample_jwt_env kid alg0 jwk0 \<and> after_finish sample_jwt_env alg0 = ''HS256'')"
proof -
  have v: "maludb_jwt_verify sample_jwt_env sample_jwt = Some (Inr [None, Some ''r'', None, None, None])"
    by code_simp
  from jwt_verify_accepts_iff [THEN iffD1, OF v] v show ?thesis by blast
qed

end
