(* ===== verification/Secret_Resolver.thy ===== *)
theory Secret_Resolver
  imports Prelude
begin

text \<open>
  src/src/maludb_secret.c: the resolver of \<open>file://\<close> and \<open>https://\<close> secrets. The operating system
  (\<open>lstat\<close>, \<open>open\<close>, \<open>read\<close>, the effective uid), the GUC \<open>maludb_core.secret_file_root\<close> and libcurl
  are the fields of \<open>secret_env\<close>. \<open>None\<close> is a call that never returns.
\<close>

section \<open>Environment\<close>

record stat =
  st_mode :: "32 word"
  st_uid :: "32 word"
  st_size :: int

text \<open>
  \<open>file_read path off count\<close> is the result of \<open>read\<close> at offset \<open>off\<close>: the bytes, or the text of
  the error. \<open>https_transfer url\<close> is what libcurl delivers: the successive blocks it hands to the
  write callback, then its own verdict (the text of an error, or \<open>CURLE_OK\<close>), and the HTTP status.
  \<open>write_error\<close> is \<open>curl_easy_strerror(CURLE_WRITE_ERROR)\<close>, the result when the callback refuses.
\<close>

record transfer =
  blocks :: "string list"
  transport_error :: "string option"
  http_status :: int

record secret_env =
  secret_file_root :: "string option"
  geteuid :: "32 word"
  lstat :: "string \<Rightarrow> string + stat"
  file_open :: "string \<Rightarrow> string option"
  file_read :: "string \<Rightarrow> nat \<Rightarrow> nat \<Rightarrow> string + string"
  curl_ready :: bool
  https_transfer :: "string \<Rightarrow> transfer"
  write_error :: string

section \<open>Paths\<close>

definition ERRLEN :: nat where "ERRLEN = 256"

definition snprintf_err :: "string \<Rightarrow> string" where
  "snprintf_err s = snprintf_trunc ERRLEN s"

definition secret_file_root_default :: string where
  "secret_file_root_default = ''/etc/maludb/secrets:/var/lib/maludb/secrets''"

definition root_hit :: "string \<Rightarrow> string \<Rightarrow> bool" where
  "root_hit path root \<longleftrightarrow>
     0 < length root \<and> starts_with root path \<and>
     (case drop (length root) path of [] \<Rightarrow> True | c # _ \<Rightarrow> c = CHR ''/'')"

function root_loop :: "string \<Rightarrow> string \<Rightarrow> bool" where
  "root_loop path p =
     (if p = [] then False
      else (case strchr p (CHR '':'') of
              None \<Rightarrow> root_hit path p
            | Some i \<Rightarrow> root_hit path (take i p) \<or> root_loop path (drop (Suc i) p)))"
  by pat_completeness auto
termination
  by (relation "measure (\<lambda>(path, p). length p)") auto

declare root_loop.simps [simp del]

definition path_check_allowed :: "string option \<Rightarrow> string \<Rightarrow> string + unit" where
  "path_check_allowed roots_env path =
     (if \<not> starts_with ''/'' path then Inl (snprintf_err ''file:// path must be absolute'')
      else if strstr path ''/../'' \<noteq> None \<or> strstr path ''/./'' \<noteq> None
      then Inl (snprintf_err (''file:// path may not contain '' @ squoted ''..'' @ '' or ''
                              @ squoted ''.'' @ '' segments''))
      else if root_loop path (case roots_env of
                                None \<Rightarrow> secret_file_root_default
                              | Some r \<Rightarrow> if r \<noteq> [] then r else secret_file_root_default)
      then Inr ()
      else Inl (snprintf_err (''file:// path '' @ squoted path
                  @ '' is outside the configured maludb_core.secret_file_root allowlist'')))"

section \<open>Files\<close>

definition S_IFMT :: "32 word" where "S_IFMT = 0xF000"
definition S_IFREG :: "32 word" where "S_IFREG = 0x8000"
definition S_IRWXG_O :: "32 word" where "S_IRWXG_O = 0x3F"

definition S_ISREG :: "32 word \<Rightarrow> bool" where
  "S_ISREG mode \<longleftrightarrow> and mode S_IFMT = S_IFREG"

fun fmt_o :: "nat \<Rightarrow> string" where
  "fmt_o n = (if n < 8 then [char_of (48 + n)] else fmt_o (n div 8) @ [char_of (48 + n mod 8)])"

declare fmt_o.simps [simp del]

definition one_mib :: nat where "one_mib = 1048576"

definition secret_cap :: "int \<Rightarrow> nat" where
  "secret_cap sz = (if 0 < sz \<and> sz < int one_mib then nat sz else 65536)"

text \<open>
  The read loop: \<open>got\<close> are the \<open>len\<close> bytes already in the buffer. A count of 0 ends it, and so
  does a full buffer.
\<close>

function read_loop :: "(nat \<Rightarrow> nat \<Rightarrow> string + string) \<Rightarrow> nat \<Rightarrow> string \<Rightarrow> string + string" where
  "read_loop rd cap got =
     (case rd (length got) (cap - length got) of
        Inl e \<Rightarrow> Inl e
      | Inr bs \<Rightarrow>
          (if bs = [] then Inr got
           else if cap \<le> length (got @ bs) then Inr (got @ bs)
           else read_loop rd cap (got @ bs)))"
  by pat_completeness auto
termination
  by (relation "measure (\<lambda>(rd, cap, got). cap - length got)") (auto simp: neq_Nil_conv)

declare read_loop.simps [simp del]

definition trim_char :: "char \<Rightarrow> bool" where
  "trim_char c \<longleftrightarrow> c = CHR 0x0A \<or> c = CHR 0x0D \<or> c = CHR '' ''"

definition trim_trailing :: "string \<Rightarrow> string" where
  "trim_trailing s = rev (dropWhile trim_char (rev s))"

definition read_file_secret :: "secret_env \<Rightarrow> string \<Rightarrow> string + string" where
  "read_file_secret env path =
     (case lstat env path of
        Inl e \<Rightarrow> Inl (snprintf_err (''lstat('' @ path @ '') failed: '' @ e))
      | Inr st \<Rightarrow>
          (if \<not> S_ISREG (st_mode st)
           then Inl (snprintf_err (''secret file '' @ path @ '' is not a regular file''))
           else if st_uid st \<noteq> geteuid env
           then Inl (snprintf_err (''secret file '' @ path @ '' owner uid='' @ fmt_nat (unat (st_uid st))
                       @ '' does not match postgres uid='' @ fmt_nat (unat (geteuid env))))
           else if and (st_mode st) S_IRWXG_O \<noteq> 0
           then Inl (snprintf_err (''secret file '' @ path @ '' has permissions 0''
                       @ fmt_o (unat (and (st_mode st) 0x1FF)) @ ''; must be 0400 or 0600''))
           else (case file_open env path of
                   Some e \<Rightarrow> Inl (snprintf_err (''open('' @ path @ '') failed: '' @ e))
                 | None \<Rightarrow>
                     (if one_mib < secret_cap (st_size st)
                      then Inl (snprintf_err (''secret file '' @ path @ '' exceeds 1 MiB''))
                      else (case read_loop (file_read env path) (secret_cap (st_size st)) [] of
                              Inl e \<Rightarrow> Inl (snprintf_err (''read('' @ path @ '') failed: '' @ e))
                            | Inr bs \<Rightarrow> Inr (trim_trailing bs))))))"

section \<open>HTTPS\<close>

record curl_sink_t =
  sink_buf :: string
  sink_cap :: nat
  sink_cap_max :: nat

text \<open>The loop that grows the buffer; \<open>need\<close> is \<open>s->len + want\<close>.\<close>

partial_function (option) sink_grow :: "nat \<Rightarrow> nat \<Rightarrow> nat \<Rightarrow> nat option" where
  "sink_grow need cap_max cap =
     (if cap \<le> need
      then sink_grow need cap_max (min (if cap \<noteq> 0 then cap * 2 else 4096) cap_max)
      else Some cap)"

text \<open>The write callback: the outer \<open>None\<close> never returns; \<open>Inl\<close> is the return value 0 that aborts.\<close>

definition curl_sink_write :: "string \<Rightarrow> curl_sink_t \<Rightarrow> (unit + curl_sink_t) option" where
  "curl_sink_write ptr s =
     (if sink_cap_max s < length (sink_buf s) + length ptr then Some (Inl ())
      else map_option (\<lambda>cap. Inr (s\<lparr>sink_buf := sink_buf s @ ptr, sink_cap := cap\<rparr>))
             (sink_grow (length (sink_buf s) + length ptr) (sink_cap_max s) (sink_cap s)))"

text \<open>\<open>curl_easy_perform\<close> hands over the blocks in order until the callback refuses one.\<close>

fun perform_blocks :: "string list \<Rightarrow> curl_sink_t \<Rightarrow> (unit + curl_sink_t) option" where
  "perform_blocks [] s = Some (Inr s)"
| "perform_blocks (b # bs) s =
     (case curl_sink_write b s of
        None \<Rightarrow> None
      | Some (Inl _) \<Rightarrow> Some (Inl ())
      | Some (Inr s') \<Rightarrow> perform_blocks bs s')"

definition sink_init :: curl_sink_t where
  "sink_init = \<lparr>sink_buf = [], sink_cap = 4096, sink_cap_max = one_mib\<rparr>"

definition read_https_secret :: "secret_env \<Rightarrow> string \<Rightarrow> (string + string) option" where
  "read_https_secret env url =
     (if \<not> starts_with ''https://'' url
      then Some (Inl (snprintf_err ''secret URL must start with https:// (plain http is rejected)''))
      else if \<not> curl_ready env then Some (Inl (snprintf_err ''curl_easy_init failed''))
      else (case perform_blocks (blocks (https_transfer env url)) sink_init of
              None \<Rightarrow> None
            | Some (Inl _) \<Rightarrow> Some (Inl (snprintf_err (''https GET failed: '' @ write_error env)))
            | Some (Inr sink) \<Rightarrow>
                (case transport_error (https_transfer env url) of
                   Some e \<Rightarrow> Some (Inl (snprintf_err (''https GET failed: '' @ e)))
                 | None \<Rightarrow>
                     (if http_status (https_transfer env url) < 200 \<or> 300 \<le> http_status (https_transfer env url)
                      then Some (Inl (snprintf_err (''https GET returned HTTP ''
                             @ fmt_d (http_status (https_transfer env url)))))
                      else Some (Inr (trim_trailing (sink_buf sink)))))))"

section \<open>The SQL function\<close>

definition resolve_outcome :: "string + string \<Rightarrow> string result" where
  "resolve_outcome r =
     (case r of
        Inr t \<Rightarrow> Inr t
      | Inl err \<Rightarrow> Inl (Ereport ERRCODE_DATA_EXCEPTION
          (''maludb_secret_resolve_external: '' @ (if err \<noteq> [] then err else ''unknown failure''))))"

definition maludb_secret_resolve_external :: "secret_env \<Rightarrow> string \<Rightarrow> string result option" where
  "maludb_secret_resolve_external env uri =
     (if starts_with ''file://'' uri
      then (case path_check_allowed (secret_file_root env) (drop 7 uri) of
              Inl err \<Rightarrow> Some (Inl (Ereport ERRCODE_INSUFFICIENT_PRIVILEGE
                                 (''maludb_secret_resolve_external: '' @ err)))
            | Inr _ \<Rightarrow> Some (resolve_outcome (read_file_secret env (drop 7 uri))))
      else if starts_with ''https://'' uri
      then map_option resolve_outcome (read_https_secret env uri)
      else Some (Inl (Ereport ERRCODE_FEATURE_NOT_SUPPORTED
             (''maludb_secret_resolve_external: unsupported scheme in '' @ squoted uri))))"

section \<open>Allowlist\<close>

text \<open>A path is under a root when it is the root or continues it with a slash.\<close>

definition under_root :: "string \<Rightarrow> string \<Rightarrow> bool" where
  "under_root path root \<longleftrightarrow> root \<noteq> [] \<and> (path = root \<or> (\<exists>t. path = root @ CHR ''/'' # t))"

text \<open>The colon-separated roots of the setting.\<close>

fun colon_roots :: "string \<Rightarrow> string list" where
  "colon_roots [] = [[]]"
| "colon_roots (c # cs) =
     (if c = CHR '':'' then [] # colon_roots cs
      else (case colon_roots cs of r # rs \<Rightarrow> (c # r) # rs | [] \<Rightarrow> [[c]]))"

lemma root_hit_under_root: "root_hit path root \<longleftrightarrow> under_root path root"
  by (auto simp: root_hit_def under_root_def starts_with_iff split: list.splits)

lemma colon_roots_no_colon: "CHR '':'' \<notin> set r \<Longrightarrow> colon_roots r = [r]"
  by (induction r) auto

lemma colon_roots_append: "CHR '':'' \<notin> set r \<Longrightarrow> colon_roots (r @ CHR '':'' # s) = r # colon_roots s"
  by (induction r) auto

lemma root_loop_iff: "root_loop path p \<longleftrightarrow> (\<exists>r \<in> set (colon_roots p). under_root path r)"
proof (induction path p rule: root_loop.induct)
  case (1 path p)
  show ?case
  proof (cases "p = []")
    case True
    then show ?thesis by (simp add: root_loop.simps under_root_def)
  next
    case ne: False
    show ?thesis
    proof (cases "strchr p (CHR '':'')")
      case None
      then have "colon_roots p = [p]" by (simp add: strchr_None_iff colon_roots_no_colon)
      then show ?thesis using ne None by (simp add: root_loop.simps [of path p] root_hit_under_root)
    next
      case (Some i)
      then have p: "p = take i p @ CHR '':'' # drop (Suc i) p" by (rule strchr_SomeD)
      from Some have "CHR '':'' \<notin> set (take i p)" by (simp add: strchr_Some_iff)
      then have "colon_roots p = take i p # colon_roots (drop (Suc i) p)"
        by (subst p) (rule colon_roots_append)
      then show ?thesis using ne Some "1.IH" [OF ne Some]
        by (simp add: root_loop.simps [of path p] root_hit_under_root)
    qed
  qed
qed

definition configured_roots :: "secret_env \<Rightarrow> string list" where
  "configured_roots env =
     colon_roots (case secret_file_root env of
        None \<Rightarrow> secret_file_root_default
      | Some r \<Rightarrow> if r \<noteq> [] then r else secret_file_root_default)"

lemma path_check_allowed_iff:
  "path_check_allowed (secret_file_root env) path = Inr () \<longleftrightarrow>
   starts_with ''/'' path \<and> (\<nexists>u v. path = u @ ''/../'' @ v) \<and> (\<nexists>u v. path = u @ ''/./'' @ v) \<and>
   (\<exists>r \<in> set (configured_roots env). under_root path r)"
  unfolding path_check_allowed_def root_loop_iff configured_roots_def strstr_None_iff [symmetric] by auto

section \<open>Reading\<close>

text \<open>
  A file that does not change while it is read: a read delivers some of the bytes at its offset,
  at most the number asked for and none only at the end.
\<close>

definition stable_file :: "(nat \<Rightarrow> nat \<Rightarrow> string + string) \<Rightarrow> string \<Rightarrow> bool" where
  "stable_file rd content \<longleftrightarrow>
     (\<forall>off cnt. 0 < cnt \<longrightarrow> (\<exists>k \<le> cnt. rd off cnt = Inr (take k (drop off content)) \<and>
                               (off < length content \<longrightarrow> 0 < k)))"

lemma stable_fileE:
  assumes "stable_file rd content" "0 < cnt"
  obtains k where "k \<le> cnt" "rd off cnt = Inr (take k (drop off content))" "off < length content \<Longrightarrow> 0 < k"
  using assms unfolding stable_file_def by meson

lemma read_loop_take:
  assumes "stable_file rd content" "len < cap"
  shows "read_loop rd cap (take len content) = Inr (take cap content)"
  using assms(2)
proof (induction "cap - len" arbitrary: len rule: less_induct)
  case less
  show ?case
  proof (cases "len < length content")
    case False
    then have "take len content = content" "take cap content = content" using less.prems by simp_all
    moreover from less.prems False have "0 < cap - length content" by simp
    ultimately show ?thesis
      using assms(1) by (elim stable_fileE [of rd content "cap - length content" "length content"])
        (simp_all add: read_loop.simps [of rd cap content])
  next
    case True
    from less.prems obtain k where k: "k \<le> cap - len" "rd len (cap - len) = Inr (take k (drop len content))"
      "0 < k" using stable_fileE [OF assms(1), of "cap - len" len] True by (metis zero_less_diff)
    have app: "take len content @ take k (drop len content) = take (len + k) content"
      by (simp add: take_add)
    show ?thesis
    proof (cases "cap \<le> length (take (len + k) content)")
      case full: True
      with k(1) less.prems have "len + k = cap" by auto
      with full True k show ?thesis by (simp add: read_loop.simps [of rd cap "take len content"] app)
    next
      case more: False
      have "read_loop rd cap (take (len + k) content) = Inr (take cap content)"
      proof (cases "len + k < cap")
        case lt: True
        with less.hyps [of "len + k"] k(3) less.prems show ?thesis by simp
      next
        case False
        with k(1) less.prems have "len + k = cap" by simp
        with more have short: "length content < cap" by simp
        show ?thesis
          using assms(1) short by (elim stable_fileE [of rd content "cap - length content" "length content"])
            (simp_all add: read_loop.simps [of rd cap content] \<open>len + k = cap\<close>)
      qed
      with more True k show ?thesis by (auto simp: read_loop.simps [of rd cap "take len content"] app)
    qed
  qed
qed

lemma secret_cap_bounds: "0 < secret_cap sz" "secret_cap sz \<le> one_mib"
  by (auto simp: secret_cap_def one_mib_def)

lemma read_file_secret_iff:
  "read_file_secret env path = Inr t \<longleftrightarrow>
   (\<exists>st bs. lstat env path = Inr st \<and> S_ISREG (st_mode st) \<and> st_uid st = geteuid env \<and>
      and (st_mode st) S_IRWXG_O = 0 \<and> file_open env path = None \<and>
      read_loop (file_read env path) (secret_cap (st_size st)) [] = Inr bs \<and> t = trim_trailing bs)"
  by (auto simp: read_file_secret_def not_less [THEN iffD2, OF secret_cap_bounds(2)]
      split: sum.splits option.splits if_splits)

lemma resolve_outcome_Inr [simp]: "resolve_outcome r = Inr t \<longleftrightarrow> r = Inr t"
  by (auto simp: resolve_outcome_def split: sum.splits)

lemma resolve_file:
  "maludb_secret_resolve_external env (''file://'' @ path) =
     (case path_check_allowed (secret_file_root env) path of
        Inl err \<Rightarrow> Some (Inl (Ereport ERRCODE_INSUFFICIENT_PRIVILEGE (''maludb_secret_resolve_external: '' @ err)))
      | Inr _ \<Rightarrow> Some (resolve_outcome (read_file_secret env path)))"
proof -
  have "drop 7 (''file://'' @ path) = path" by simp
  then show ?thesis by (simp only: maludb_secret_resolve_external_def starts_with_append if_True)
qed

lemma resolve_file_iff:
  "maludb_secret_resolve_external env (''file://'' @ path) = Some (Inr t) \<longleftrightarrow>
   path_check_allowed (secret_file_root env) path = Inr () \<and> read_file_secret env path = Inr t"
  unfolding resolve_file by (auto split: sum.splits)

text \<open>
  C16. A \<open>file://\<close> secret is returned exactly when the path is absolute, has no \<open>/../\<close> and no \<open>/./\<close>,
  lies under one of the colon-separated roots of the setting (or of its default), and names a
  regular file, owned by the server's user, without any group or world permission, that can be
  opened and read. This is less than the comments of the source promise: directories on the way may
  be symbolic links (only the last component is tested and opened with \<open>O_NOFOLLOW\<close>), and of the mode
  only the group and world bits are tested, so that 0700 passes where 0400 or 0600 is demanded. A
  final \<open>/..\<close> passes the test of the path, but what it names is a directory.
\<close>

theorem secret_file_access:
  "maludb_secret_resolve_external env (''file://'' @ path) = Some (Inr t) \<longleftrightarrow>
   starts_with ''/'' path \<and> (\<nexists>u v. path = u @ ''/../'' @ v) \<and> (\<nexists>u v. path = u @ ''/./'' @ v) \<and>
   (\<exists>r \<in> set (configured_roots env). under_root path r) \<and>
   (\<exists>st bs. lstat env path = Inr st \<and> S_ISREG (st_mode st) \<and> st_uid st = geteuid env \<and>
      and (st_mode st) S_IRWXG_O = 0 \<and> file_open env path = None \<and>
      read_loop (file_read env path) (secret_cap (st_size st)) [] = Inr bs \<and> t = trim_trailing bs)"
  unfolding resolve_file_iff path_check_allowed_iff read_file_secret_iff by blast

text \<open>
  C17. The value of a \<open>file://\<close> secret: of a file that does not change while it is read, the whole
  content without its trailing white space when its size is between one byte and 1 MiB; of a file
  of 1 MiB or more only the first 65536 bytes, without an error.
\<close>

theorem secret_file_content:
  assumes "maludb_secret_resolve_external env (''file://'' @ path) = Some (Inr t)"
    and "lstat env path = Inr st" and "st_size st = int (length content)"
    and "stable_file (file_read env path) content" and "content \<noteq> []"
  shows "t = trim_trailing (if length content < one_mib then content else take 65536 content)"
proof -
  have "read_loop (file_read env path) (secret_cap (st_size st)) [] = Inr (take (secret_cap (st_size st)) content)"
    using read_loop_take [OF assms(4), of 0 "secret_cap (st_size st)"] secret_cap_bounds(1) by simp
  with assms(1,2) have "t = trim_trailing (take (secret_cap (st_size st)) content)"
    unfolding resolve_file_iff read_file_secret_iff by auto
  with assms(3,5) show ?thesis by (auto simp: secret_cap_def)
qed

section \<open>The response buffer\<close>

lemma sink_grow_Some:
  assumes "need < cap_max"
  shows "\<exists>c. sink_grow need cap_max cap = Some c \<and> need < c \<and> c \<le> max cap cap_max"
proof (induction "cap_max - cap" arbitrary: cap rule: less_induct)
  case less
  show ?case
  proof (cases "cap \<le> need")
    case True
    let ?c = "min (if cap \<noteq> 0 then cap * 2 else 4096) cap_max"
    from True assms have "cap_max - ?c < cap_max - cap" by (auto simp: min_def)
    from less [OF this] True show ?thesis by (subst sink_grow.simps) auto
  next
    case False
    then show ?thesis by (subst sink_grow.simps) simp
  qed
qed

lemma sink_grow_None:
  assumes "cap \<le> cap_max"
  shows "sink_grow cap_max cap_max cap = None"
proof -
  have "c \<le> cm \<longrightarrow> need \<noteq> cm" if "sink_grow need cm c = Some r" for need cm c r
    by (rule sink_grow.raw_induct [OF _ that, where P = "\<lambda>need cm c r. c \<le> cm \<longrightarrow> need \<noteq> cm"])
      (auto split: if_splits)
  with assms show ?thesis by (cases "sink_grow cap_max cap_max cap") auto
qed

definition sink_ok :: "curl_sink_t \<Rightarrow> bool" where
  "sink_ok s \<longleftrightarrow> sink_cap s \<le> sink_cap_max s \<and> sink_cap_max s = one_mib"

lemma curl_sink_write_fits:
  assumes "sink_ok s" "length (sink_buf s) + length b < one_mib"
  shows "\<exists>s'. curl_sink_write b s = Some (Inr s') \<and> sink_ok s' \<and> sink_buf s' = sink_buf s @ b \<and>
              length (sink_buf s') < sink_cap s'"
  using assms sink_grow_Some [of "length (sink_buf s) + length b" "sink_cap_max s" "sink_cap s"]
  by (auto simp: curl_sink_write_def sink_ok_def max_def)

lemma perform_blocks_fit:
  assumes "sink_ok s" "length (sink_buf s) + length (concat bs) < one_mib"
  shows "\<exists>s'. perform_blocks bs s = Some (Inr s') \<and> sink_ok s' \<and> sink_buf s' = sink_buf s @ concat bs"
  using assms
proof (induction bs arbitrary: s)
  case Nil
  then show ?case by simp
next
  case (Cons b bs)
  from Cons.prems(2) have "length (sink_buf s) + length b < one_mib" by simp
  from curl_sink_write_fits [OF Cons.prems(1) this] obtain s' where
    s': "curl_sink_write b s = Some (Inr s')" "sink_ok s'" "sink_buf s' = sink_buf s @ b" by blast
  from Cons.IH [OF s'(2)] Cons.prems(2) s' show ?case by simp
qed

lemma perform_blocks_append:
  "perform_blocks bs s = Some (Inr s') \<Longrightarrow> perform_blocks (bs @ cs) s = perform_blocks cs s'"
  by (induction bs arbitrary: s) (auto split: option.splits sum.splits)

lemma sink_init_ok: "sink_ok sink_init" "sink_buf sink_init = []"
  by (simp_all add: sink_ok_def sink_init_def one_mib_def)

lemma perform_blocks_hang:
  assumes "length (concat bs) < one_mib" "length (concat bs) + length b = one_mib"
  shows "perform_blocks (bs @ b # cs) sink_init = None"
proof -
  from perform_blocks_fit [OF sink_init_ok(1), of bs] assms(1) sink_init_ok(2) obtain s where
    s: "perform_blocks bs sink_init = Some (Inr s)" "sink_ok s" "sink_buf s = concat bs" by auto
  with assms(2) sink_grow_None [of "sink_cap s" one_mib] have "curl_sink_write b s = None"
    by (simp add: curl_sink_write_def sink_ok_def)
  then show ?thesis by (simp add: perform_blocks_append [OF s(1)])
qed

text \<open>
  C18. An \<open>https://\<close> secret shorter than 1 MiB: the call returns, the value is the body without its
  trailing white space when the transfer succeeds with a 2xx status, and an error otherwise.
\<close>

theorem https_secret_value:
  assumes "curl_ready env" and "https_transfer env (''https://'' @ rest) = tr"
    and "length (concat (blocks tr)) < one_mib"
  shows "maludb_secret_resolve_external env (''https://'' @ rest) = Some
    (case transport_error tr of
       Some e \<Rightarrow> resolve_outcome (Inl (snprintf_err (''https GET failed: '' @ e)))
     | None \<Rightarrow>
         if 200 \<le> http_status tr \<and> http_status tr < 300
         then Inr (trim_trailing (concat (blocks tr)))
         else resolve_outcome (Inl (snprintf_err (''https GET returned HTTP '' @ fmt_d (http_status tr)))))"
proof -
  from perform_blocks_fit [OF sink_init_ok(1), of "blocks tr"] assms(3) sink_init_ok(2) obtain s where
    s: "perform_blocks (blocks tr) sink_init = Some (Inr s)" "sink_buf s = concat (blocks tr)" by auto
  have u: "starts_with ''https://'' (''https://'' @ rest)" by (rule starts_with_append)
  have nf: "\<not> starts_with ''file://'' (''https://'' @ rest)" by (simp add: starts_with_def)
  have "read_https_secret env (''https://'' @ rest) = Some
    (case transport_error tr of
       Some e \<Rightarrow> Inl (snprintf_err (''https GET failed: '' @ e))
     | None \<Rightarrow>
         if 200 \<le> http_status tr \<and> http_status tr < 300 then Inr (trim_trailing (concat (blocks tr)))
         else Inl (snprintf_err (''https GET returned HTTP '' @ fmt_d (http_status tr))))"
    using s assms(1) u unfolding read_https_secret_def assms(2) by (auto split: option.splits)
  then show ?thesis
    unfolding maludb_secret_resolve_external_def using u nf
    by (auto simp: resolve_outcome_def split: option.splits)
qed

text \<open>
  C19. A response whose blocks add up to exactly 1 MiB at some point makes the resolver loop for
  ever: the buffer may not grow past \<open>cap_max\<close>, but the loop asks for one byte more.
\<close>

theorem https_secret_hangs:
  assumes "curl_ready env" and "blocks (https_transfer env (''https://'' @ rest)) = bs @ b # cs"
    and "length (concat bs) < one_mib" and "length (concat bs) + length b = one_mib"
  shows "maludb_secret_resolve_external env (''https://'' @ rest) = None"
proof -
  have u: "starts_with ''https://'' (''https://'' @ rest)" by (rule starts_with_append)
  have nf: "\<not> starts_with ''file://'' (''https://'' @ rest)" by (simp add: starts_with_def)
  have "read_https_secret env (''https://'' @ rest) = None"
    using assms(1) u unfolding read_https_secret_def assms(2) perform_blocks_hang [OF assms(3,4)] by simp
  with u nf show ?thesis unfolding maludb_secret_resolve_external_def by simp
qed

section \<open>Witnesses\<close>

definition sample_secret_env :: "string list \<Rightarrow> secret_env" where
  "sample_secret_env bs = \<lparr>secret_file_root = None, geteuid = 26,
     lstat = (\<lambda>p. Inr \<lparr>st_mode = 0x8180, st_uid = 26, st_size = 4\<rparr>), file_open = (\<lambda>p. None),
     file_read = (\<lambda>p off n. Inr (take n (drop off ''abc ''))), curl_ready = True,
     https_transfer = (\<lambda>u. \<lparr>blocks = bs, transport_error = None, http_status = 200\<rparr>),
     write_error = ''Failed writing received data to disk/application''\<rparr>"

lemma sample_file_stable: "stable_file (file_read (sample_secret_env []) path) ''abc ''"
  unfolding stable_file_def by (auto simp: sample_secret_env_def)

lemma sample_file_resolves:
  "maludb_secret_resolve_external (sample_secret_env []) (''file://'' @ ''/etc/maludb/secrets/k'')
   = Some (Inr (trim_trailing ''abc ''))"
proof -
  have "path_check_allowed (secret_file_root (sample_secret_env [])) ''/etc/maludb/secrets/k'' = Inr ()"
    by code_simp
  moreover have "read_loop (file_read (sample_secret_env []) ''/etc/maludb/secrets/k'') 4 [] = Inr ''abc ''"
    using read_loop_take [OF sample_file_stable, of 0 4] by simp
  ultimately show ?thesis unfolding resolve_file_iff read_file_secret_iff
    by (simp add: sample_secret_env_def S_ISREG_def S_IFMT_def S_IFREG_def S_IRWXG_O_def secret_cap_def one_mib_def)
qed

theorem secret_file_content_witness:
  "maludb_secret_resolve_external (sample_secret_env []) (''file://'' @ ''/etc/maludb/secrets/k'')
     = Some (Inr ''abc'') \<and> trim_trailing ''abc '' = ''abc''"
proof -
  have e: "trim_trailing ''abc '' = ''abc''" by (simp add: trim_trailing_def trim_char_def)
  have "trim_trailing ''abc '' = trim_trailing (if length ''abc '' < one_mib then ''abc '' else take 65536 ''abc '')"
    by (rule secret_file_content [OF sample_file_resolves _ _ sample_file_stable,
          where st = "\<lparr>st_mode = 0x8180, st_uid = 26, st_size = 4\<rparr>"]) (simp_all add: sample_secret_env_def)
  then show ?thesis using sample_file_resolves e by simp
qed

theorem https_secret_value_witness:
  "maludb_secret_resolve_external (sample_secret_env [''ab'', ''c'']) (''https://'' @ ''h/k'') = Some (Inr (trim_trailing ''abc''))"
  using https_secret_value [of "sample_secret_env [''ab'', ''c'']" "''h/k''", OF _ refl]
  by (simp add: sample_secret_env_def one_mib_def)

theorem https_secret_hangs_witness:
  "maludb_secret_resolve_external (sample_secret_env [replicate one_mib (CHR ''x'')]) (''https://'' @ ''h/k'') = None"
  by (rule https_secret_hangs [where bs = "[]" and b = "replicate one_mib (CHR ''x'')" and cs = "[]"])
    (simp_all add: sample_secret_env_def one_mib_def)

end
