(* ===== verification/Atomic_Ingest.thy ===== *)
theory Atomic_Ingest
  imports Prelude
begin

text \<open>
  src/src/maludb_atomic.c: the two functions that write a claim, or a fact, together with its ledger
  entry. The statements are executed by the server through SPI, a parameter: \<open>spi_execute\<close> takes the
  text of a statement, its arguments (\<open>SqlNull\<close> for those marked \<open>'n'\<close>) and the database, and
  returns the status and the first column of the rows with the changed database, or raises. An
  error leaves no database behind: \<open>ereport(ERROR)\<close> aborts the enclosing transaction.
\<close>

section \<open>SPI\<close>

datatype sql_value =
    SqlNull
  | Text string
  | Int8 i64
  | Jsonb string
  | Int8Array "i64 option list"
  | Bytea string
  | JsonbObject "(string \<times> sql_value) list"

record 'db spi_session =
  spi_connect_ret :: int
  spi_execute :: "string \<Rightarrow> sql_value list \<Rightarrow> 'db \<Rightarrow> pg_error + (int \<times> i64 option list) \<times> 'db"

definition spi_int8_singleton :: "string \<Rightarrow> i64 option list \<Rightarrow> i64 result" where
  "spi_int8_singleton err_label rows =
     (if length rows \<noteq> 1
      then Inl (Ereport ERRCODE_INTERNAL_ERROR
                  (err_label @ '': expected 1 row, got '' @ fmt_nat (length rows)))
      else (case hd rows of
              None \<Rightarrow> Inl (Ereport ERRCODE_NULL_VALUE_NOT_ALLOWED (err_label @ '': NULL value returned''))
            | Some v \<Rightarrow> Inr v))"

text \<open>\<open>SPI_execute_with_args\<close> with the test of its status that follows each call.\<close>

definition spi_select ::
  "'db spi_session \<Rightarrow> string \<Rightarrow> string \<Rightarrow> sql_value list \<Rightarrow> 'db \<Rightarrow> pg_error + i64 option list \<times> 'db" where
  "spi_select spi failed sql params db =
     (case spi_execute spi sql params db of
        Inl e \<Rightarrow> Inl e
      | Inr ((ret, rows), db') \<Rightarrow>
          (if ret \<noteq> SPI_OK_SELECT then Inl (Ereport ERRCODE_INTERNAL_ERROR (failed @ fmt_d ret))
           else Inr (rows, db')))"

section \<open>Claims\<close>

definition register_source_package_sql :: string where
  "register_source_package_sql =
     ''SELECT maludb_core.register_source_package(  p_source_type   => $1,  p_content_text  => $2,  p_origin_jsonb  => $3)''"

definition register_claim_sql :: string where
  "register_claim_sql =
     ''SELECT maludb_core.register_claim(  p_subject           => $1,  p_verb              => $2,  p_object_value      => $3,  p_statement_text    => $4,  p_source_package_id => $5,  p_source_locator    => $6)''"

definition record_claim_derivation_sql :: string where
  "record_claim_derivation_sql =
     ''SELECT maludb_core.record_derivation(  p_derived_object_type => $1,  p_derived_object_id   => $2,  p_parser_name         => $3,  p_model_request_id    => $4,  p_inputs_jsonb        => $5)''"

record ingest_args =
  source_type :: sql_value
  source_text :: sql_value
  ing_subject :: sql_value
  ing_verb :: sql_value
  ing_object_value :: sql_value
  ing_statement_text :: sql_value
  ing_parser_name :: sql_value
  origin_jsonb :: sql_value
  source_locator :: sql_value
  model_request_id :: sql_value
  ing_inputs_jsonb :: sql_value

definition maludb_ingest_claim_atomic ::
  "'db spi_session \<Rightarrow> ingest_args \<Rightarrow> 'db \<Rightarrow> pg_error + i64 \<times> 'db" where
  "maludb_ingest_claim_atomic spi a db =
     (if source_type a = SqlNull
      then Inl (Ereport ERRCODE_NULL_VALUE_NOT_ALLOWED ''ingest_claim_atomic: source_type is required'')
      else if source_text a = SqlNull
      then Inl (Ereport ERRCODE_NULL_VALUE_NOT_ALLOWED ''ingest_claim_atomic: source_text is required (v1)'')
      else if spi_connect_ret spi \<noteq> SPI_OK_CONNECT
      then Inl (Ereport ERRCODE_INTERNAL_ERROR (''SPI_connect failed: '' @ fmt_d (spi_connect_ret spi)))
      else
        andthen (spi_select spi ''ingest_claim_atomic: register_source_package failed: ''
                   register_source_package_sql [source_type a, source_text a, origin_jsonb a] db)
          (\<lambda>(rows1, db1).
        andthen (spi_int8_singleton ''register_source_package'' rows1) (\<lambda>source_pkg_id.
        andthen (spi_select spi ''ingest_claim_atomic: register_claim failed: '' register_claim_sql
                   [ing_subject a, ing_verb a, ing_object_value a, ing_statement_text a,
                    Int8 source_pkg_id, source_locator a] db1)
          (\<lambda>(rows2, db2).
        andthen (spi_int8_singleton ''register_claim'' rows2) (\<lambda>claim_id.
        andthen (spi_select spi ''ingest_claim_atomic: record_derivation failed: '' record_claim_derivation_sql
                   [Text ''claim'', Int8 claim_id, ing_parser_name a, model_request_id a, ing_inputs_jsonb a] db2)
          (\<lambda>(rows3, db3). Inr (claim_id, db3)))))))"

section \<open>Facts\<close>

definition claim_count_sql :: string where
  "claim_count_sql =
     ''SELECT count(*)::bigint FROM maludb_core.malu$claim WHERE claim_id = ANY($1)''"

definition register_fact_sql :: string where
  "register_fact_sql =
     ''SELECT maludb_core.register_fact(  p_claim_ids           => $1,  p_subject             => $2,  p_verb                => $3,  p_object_value        => $4,  p_statement_text      => $5,  p_verification_scope  => $6,  p_verification_method => $7)''"

definition record_fact_derivation_sql :: string where
  "record_fact_derivation_sql =
     ''SELECT maludb_core.record_derivation(  p_derived_object_type => $1,  p_derived_object_id   => $2,  p_parser_name         => $3,  p_verifier_name       => $4,  p_inputs_jsonb        => $5)''"

record promote_args =
  claim_ids :: "i64 option list option"
  pro_subject :: sql_value
  pro_verb :: sql_value
  pro_object_value :: sql_value
  pro_statement_text :: sql_value
  verification_scope :: sql_value
  verification_method :: sql_value
  pro_parser_name :: sql_value
  verifier_name :: sql_value
  pro_inputs_jsonb :: sql_value

definition promote_no_data :: pg_error where
  "promote_no_data = Ereport ERRCODE_NO_DATA_FOUND
     ''promote_claim_to_fact_atomic: one or more claim_ids not visible or missing''"

definition promote_writes ::
  "'db spi_session \<Rightarrow> promote_args \<Rightarrow> i64 option list \<Rightarrow> 'db \<Rightarrow> pg_error + i64 \<times> 'db" where
  "promote_writes spi a ids db =
     andthen (spi_select spi ''promote_claim_to_fact_atomic: register_fact failed: '' register_fact_sql
                [Int8Array ids, pro_subject a, pro_verb a, pro_object_value a, pro_statement_text a,
                 verification_scope a, verification_method a] db)
       (\<lambda>(rows1, db1).
     andthen (spi_int8_singleton ''register_fact'' rows1) (\<lambda>fact_id.
     andthen (spi_select spi ''promote_claim_to_fact_atomic: record_derivation failed: '' record_fact_derivation_sql
                [Text ''fact'', Int8 fact_id, pro_parser_name a, verifier_name a, pro_inputs_jsonb a] db1)
       (\<lambda>(rows2, db2). Inr (fact_id, db2))))"

definition maludb_promote_claim_to_fact_atomic ::
  "'db spi_session \<Rightarrow> promote_args \<Rightarrow> 'db \<Rightarrow> pg_error + i64 \<times> 'db" where
  "maludb_promote_claim_to_fact_atomic spi a db =
     (case claim_ids a of
        None \<Rightarrow> Inl (Ereport ERRCODE_NULL_VALUE_NOT_ALLOWED ''promote_claim_to_fact_atomic: claim_ids required'')
      | Some ids \<Rightarrow>
          (if length ids = 0
           then Inl (Ereport ERRCODE_INVALID_PARAMETER_VALUE
                       ''promote_claim_to_fact_atomic: claim_ids must be non-empty'')
           else if spi_connect_ret spi \<noteq> SPI_OK_CONNECT
           then Inl (Ereport ERRCODE_INTERNAL_ERROR (''SPI_connect failed: '' @ fmt_d (spi_connect_ret spi)))
           else
             andthen (spi_select spi ''promote_claim_to_fact_atomic: claim verification failed: ''
                        claim_count_sql [Int8Array ids] db)
               (\<lambda>(rows0, db0).
             andthen (spi_int8_singleton ''claim verification'' rows0) (\<lambda>n.
               if n \<noteq> of_nat (length ids) then Inl promote_no_data
               else promote_writes spi a ids db0))))"

section \<open>What the calls leave behind\<close>

lemma spi_int8_singleton_Inr [simp]: "spi_int8_singleton l rows = Inr v \<longleftrightarrow> rows = [Some v]"
  by (cases rows) (auto simp: spi_int8_singleton_def split: option.splits)

lemma spi_select_Inr [simp]:
  "spi_select spi f sql ps db = Inr (rows, db') \<longleftrightarrow> spi_execute spi sql ps db = Inr ((SPI_OK_SELECT, rows), db')"
  by (auto simp: spi_select_def split: sum.splits)

lemma ingest_chain:
  "maludb_ingest_claim_atomic spi a db = Inr (claim_id, db') \<longleftrightarrow>
   source_type a \<noteq> SqlNull \<and> source_text a \<noteq> SqlNull \<and> spi_connect_ret spi = SPI_OK_CONNECT \<and>
   (\<exists>pkg db1 db2 rows.
      spi_execute spi register_source_package_sql [source_type a, source_text a, origin_jsonb a] db
        = Inr ((SPI_OK_SELECT, [Some pkg]), db1) \<and>
      spi_execute spi register_claim_sql
          [ing_subject a, ing_verb a, ing_object_value a, ing_statement_text a, Int8 pkg, source_locator a] db1
        = Inr ((SPI_OK_SELECT, [Some claim_id]), db2) \<and>
      spi_execute spi record_claim_derivation_sql
          [Text ''claim'', Int8 claim_id, ing_parser_name a, model_request_id a, ing_inputs_jsonb a] db2
        = Inr ((SPI_OK_SELECT, rows), db'))"
  by (auto simp: maludb_ingest_claim_atomic_def andthen_eq_Inr)

lemma promote_chain:
  "maludb_promote_claim_to_fact_atomic spi a db = Inr (fact_id, db') \<longleftrightarrow>
   (\<exists>ids. claim_ids a = Some ids \<and> ids \<noteq> [] \<and> spi_connect_ret spi = SPI_OK_CONNECT \<and>
     (\<exists>db0 db1 rows.
        spi_execute spi claim_count_sql [Int8Array ids] db
          = Inr ((SPI_OK_SELECT, [Some (of_nat (length ids))]), db0) \<and>
        spi_execute spi register_fact_sql
            [Int8Array ids, pro_subject a, pro_verb a, pro_object_value a, pro_statement_text a,
             verification_scope a, verification_method a] db0
          = Inr ((SPI_OK_SELECT, [Some fact_id]), db1) \<and>
        spi_execute spi record_fact_derivation_sql
            [Text ''fact'', Int8 fact_id, pro_parser_name a, verifier_name a, pro_inputs_jsonb a] db1
          = Inr ((SPI_OK_SELECT, rows), db')))"
  by (auto simp: maludb_promote_claim_to_fact_atomic_def promote_writes_def andthen_eq_Inr split: option.splits)

text \<open>
  What the tables hold for a caller: the source packages, the claims the caller sees with the package
  they cite (which may be NULL), the links from facts to claims, and the objects with a ledger entry.
  The laws say what the SQL functions do to these four: each inserts its row and returns the new id,
  the links of a fact are one per claim id, and the count is over the visible rows of the claim table
  whose id is in the array. Ingest_Sql models the functions themselves, with the rows they insert into
  the event table besides, and proves the laws of them (\<open>sql_store_laws\<close>).
\<close>

record 'db store_view =
  packages :: "'db \<Rightarrow> i64 set"
  claims :: "'db \<Rightarrow> (i64 \<times> sql_value) set"
  fact_claims :: "'db \<Rightarrow> (i64 \<times> i64) set"
  ledger :: "'db \<Rightarrow> (string \<times> i64) set"

definition visible_ids :: "'db store_view \<Rightarrow> i64 option list \<Rightarrow> 'db \<Rightarrow> i64 set" where
  "visible_ids v ids db = {c. Some c \<in> set ids \<and> c \<in> fst ` claims v db}"

definition inserts ::
  "'db store_view \<Rightarrow> 'db \<Rightarrow> 'db \<Rightarrow> i64 set \<Rightarrow> (i64 \<times> sql_value) set \<Rightarrow> (i64 \<times> i64) set \<Rightarrow> (string \<times> i64) set \<Rightarrow> bool" where
  "inserts v db db' ps cs fs ls \<longleftrightarrow>
     packages v db' = packages v db \<union> ps \<and> claims v db' = claims v db \<union> cs \<and>
     fact_claims v db' = fact_claims v db \<union> fs \<and> ledger v db' = ledger v db \<union> ls"

definition package_law :: "'db spi_session \<Rightarrow> 'db store_view \<Rightarrow> bool" where
  "package_law spi v \<longleftrightarrow>
     (\<forall>ps db i db'. spi_execute spi register_source_package_sql ps db = Inr ((SPI_OK_SELECT, [Some i]), db') \<longrightarrow>
        inserts v db db' {i} {} {} {})"

definition claim_law :: "'db spi_session \<Rightarrow> 'db store_view \<Rightarrow> bool" where
  "claim_law spi v \<longleftrightarrow>
     (\<forall>a1 a2 a3 a4 p a6 db i db'.
        spi_execute spi register_claim_sql [a1, a2, a3, a4, Int8 p, a6] db = Inr ((SPI_OK_SELECT, [Some i]), db') \<longrightarrow>
        inserts v db db' {} {(i, Int8 p)} {} {})"

definition count_law :: "'db spi_session \<Rightarrow> 'db store_view \<Rightarrow> bool" where
  "count_law spi v \<longleftrightarrow>
     (\<forall>ids db rows db'. spi_execute spi claim_count_sql [Int8Array ids] db = Inr ((SPI_OK_SELECT, rows), db') \<longrightarrow>
        inserts v db db' {} {} {} {} \<and> rows = [Some (of_nat (card (visible_ids v ids db)))])"

definition fact_law :: "'db spi_session \<Rightarrow> 'db store_view \<Rightarrow> bool" where
  "fact_law spi v \<longleftrightarrow>
     (\<forall>ids ps db i db'. spi_execute spi register_fact_sql (Int8Array ids # ps) db = Inr ((SPI_OK_SELECT, [Some i]), db') \<longrightarrow>
        inserts v db db' {} {} {(i, c) | c. Some c \<in> set ids} {})"

definition ledger_law :: "string \<Rightarrow> 'db spi_session \<Rightarrow> 'db store_view \<Rightarrow> bool" where
  "ledger_law sql spi v \<longleftrightarrow>
     (\<forall>ty i ps db rows db'. spi_execute spi sql (Text ty # Int8 i # ps) db = Inr ((SPI_OK_SELECT, rows), db') \<longrightarrow>
        inserts v db db' {} {} {} {(ty, i)})"

definition store_laws :: "'db spi_session \<Rightarrow> 'db store_view \<Rightarrow> bool" where
  "store_laws spi v \<longleftrightarrow>
     package_law spi v \<and> claim_law spi v \<and> count_law spi v \<and> fact_law spi v \<and>
     ledger_law record_claim_derivation_sql spi v \<and> ledger_law record_fact_derivation_sql spi v"

lemma package_lawD:
  "store_laws spi v \<Longrightarrow> spi_execute spi register_source_package_sql ps db = Inr ((SPI_OK_SELECT, [Some i]), db') \<Longrightarrow>
   inserts v db db' {i} {} {} {}"
  unfolding store_laws_def package_law_def by blast

lemma claim_lawD:
  "store_laws spi v \<Longrightarrow>
   spi_execute spi register_claim_sql [a1, a2, a3, a4, Int8 p, a6] db = Inr ((SPI_OK_SELECT, [Some i]), db') \<Longrightarrow>
   inserts v db db' {} {(i, Int8 p)} {} {}"
  unfolding store_laws_def claim_law_def by blast

lemma count_lawD:
  "store_laws spi v \<Longrightarrow> spi_execute spi claim_count_sql [Int8Array ids] db = Inr ((SPI_OK_SELECT, rows), db') \<Longrightarrow>
   inserts v db db' {} {} {} {} \<and> rows = [Some (of_nat (card (visible_ids v ids db)))]"
  unfolding store_laws_def count_law_def by blast

lemma fact_lawD:
  "store_laws spi v \<Longrightarrow>
   spi_execute spi register_fact_sql (Int8Array ids # ps) db = Inr ((SPI_OK_SELECT, [Some i]), db') \<Longrightarrow>
   inserts v db db' {} {} {(i, c) | c. Some c \<in> set ids} {}"
  unfolding store_laws_def fact_law_def by blast

lemma ledger_lawD:
  "ledger_law sql spi v \<Longrightarrow> spi_execute spi sql (Text ty # Int8 i # ps) db = Inr ((SPI_OK_SELECT, rows), db') \<Longrightarrow>
   inserts v db db' {} {} {} {(ty, i)}"
  unfolding ledger_law_def by blast

lemma store_laws_ledger:
  assumes "store_laws spi v"
  shows "ledger_law record_claim_derivation_sql spi v" "ledger_law record_fact_derivation_sql spi v"
  using assms by (simp_all add: store_laws_def)

lemma inserts_trans:
  "inserts v a b ps cs fs ls \<Longrightarrow> inserts v b c ps' cs' fs' ls' \<Longrightarrow>
   inserts v a c (ps \<union> ps') (cs \<union> cs') (fs \<union> fs') (ls \<union> ls')"
  by (simp add: inserts_def Un_assoc)

lemma visible_ids_card:
  assumes "card (visible_ids v ids db) = length ids"
  shows "distinct ids" "set ids = Some ` visible_ids v ids db"
proof -
  let ?S = "visible_ids v ids db"
  have sub: "Some ` ?S \<subseteq> set ids" by (auto simp: visible_ids_def)
  have img: "card (Some ` ?S) = card ?S" by (rule card_image) simp
  have "card (Some ` ?S) \<le> card (set ids)" using sub by (simp add: card_mono)
  moreover have "card (set ids) \<le> length ids" by (rule card_length)
  ultimately have eq: "card (set ids) = length ids" "card (Some ` ?S) = card (set ids)"
    using assms img by linarith+
  from eq(1) show "distinct ids" by (rule card_distinct)
  from card_subset_eq [OF _ sub eq(2)] show "set ids = Some ` ?S" by simp
qed

lemma visible_ids_le: "card (visible_ids v ids db) \<le> length ids"
proof -
  have "card (Some ` visible_ids v ids db) \<le> card (set ids)"
    by (rule card_mono) (auto simp: visible_ids_def)
  then show ?thesis using card_length [of ids] by (simp add: card_image)
qed

lemma of_nat_count_eq:
  assumes "length ids < 2 ^ 63"
  shows "(of_nat (card (visible_ids v ids db)) :: i64) = of_nat (length ids) \<longleftrightarrow>
         card (visible_ids v ids db) = length ids"
proof -
  have "card (visible_ids v ids db) < 2 ^ 64" "length ids < 2 ^ 64"
    using assms visible_ids_le [of v ids db] by simp_all
  then show ?thesis by (simp add: word_of_nat_eq_iff take_bit_nat_eq_self)
qed

text \<open>
  C21. A successful \<open>promote_claim_to_fact_atomic\<close> was given distinct ids of existing, visible
  claims; it has linked the new fact to each of them and written the ledger entry of the fact.
\<close>

theorem promote_links_existing_claims:
  assumes "store_laws spi v" and "claim_ids a = Some ids" and "length ids < 2 ^ 63"
    and "maludb_promote_claim_to_fact_atomic spi a db = Inr (fact_id, db')"
  shows "distinct ids \<and> set ids = Some ` visible_ids v ids db \<and>
         inserts v db db' {} {} {(fact_id, c) | c. Some c \<in> set ids} {(''fact'', fact_id)}"
proof -
  from assms(2,4) obtain db0 db1 rows where
    0: "spi_execute spi claim_count_sql [Int8Array ids] db
        = Inr ((SPI_OK_SELECT, [Some (of_nat (length ids))]), db0)" and
    1: "spi_execute spi register_fact_sql
          [Int8Array ids, pro_subject a, pro_verb a, pro_object_value a, pro_statement_text a,
           verification_scope a, verification_method a] db0 = Inr ((SPI_OK_SELECT, [Some fact_id]), db1)" and
    2: "spi_execute spi record_fact_derivation_sql
          [Text ''fact'', Int8 fact_id, pro_parser_name a, verifier_name a, pro_inputs_jsonb a] db1
        = Inr ((SPI_OK_SELECT, rows), db')"
    unfolding promote_chain by auto
  note c = count_lawD [OF assms(1) 0]
  from c have n: "card (visible_ids v ids db) = length ids"
    using of_nat_count_eq [OF assms(3), of v db] by simp
  note w = fact_lawD [OF assms(1) 1] ledger_lawD [OF store_laws_ledger(2) [OF assms(1)] 2]
  from inserts_trans [OF inserts_trans [OF conjunct1 [OF c] w(1)] w(2)] visible_ids_card [OF n] show ?thesis by simp
qed

text \<open>
  Ids that repeat a claim, or name one that is not visible, are refused with no_data_found
  before anything is written, also when every id of the list exists.
\<close>

lemma promote_refuses_duplicates:
  assumes "store_laws spi v" and "claim_ids a = Some ids" and "length ids < 2 ^ 63"
    and "spi_connect_ret spi = SPI_OK_CONNECT"
    and "spi_execute spi claim_count_sql [Int8Array ids] db = Inr ((SPI_OK_SELECT, rows), db0)"
    and "\<not> distinct ids \<or> set ids \<noteq> Some ` visible_ids v ids db" and "ids \<noteq> []"
  shows "maludb_promote_claim_to_fact_atomic spi a db = Inl promote_no_data"
proof -
  have rows: "rows = [Some (of_nat (card (visible_ids v ids db)))]"
    using count_lawD [OF assms(1,5)] by blast
  have "card (visible_ids v ids db) \<noteq> length ids" using visible_ids_card [of v ids db] assms(6) by blast
  then have "(of_nat (card (visible_ids v ids db)) :: i64) \<noteq> of_nat (length ids)"
    unfolding of_nat_count_eq [OF assms(3)] .
  with assms(2,4,5,7) rows show ?thesis
    by (simp add: maludb_promote_claim_to_fact_atomic_def spi_select_def spi_int8_singleton_def)
qed

section \<open>The statements\<close>

lemmas sql_defs = register_source_package_sql_def register_claim_sql_def register_fact_sql_def
  claim_count_sql_def record_claim_derivation_sql_def record_fact_derivation_sql_def

lemma sql_distinct:
  "register_source_package_sql \<noteq> claim_count_sql" "register_claim_sql \<noteq> claim_count_sql"
  "register_fact_sql \<noteq> claim_count_sql" "record_claim_derivation_sql \<noteq> claim_count_sql"
  "record_fact_derivation_sql \<noteq> claim_count_sql" "register_claim_sql \<noteq> register_source_package_sql"
  "register_fact_sql \<noteq> register_source_package_sql" "register_fact_sql \<noteq> register_claim_sql"
  "record_claim_derivation_sql \<noteq> register_source_package_sql"
  "record_claim_derivation_sql \<noteq> register_claim_sql" "record_claim_derivation_sql \<noteq> register_fact_sql"
  "record_fact_derivation_sql \<noteq> register_source_package_sql"
  "record_fact_derivation_sql \<noteq> register_claim_sql" "record_fact_derivation_sql \<noteq> register_fact_sql"
  "record_fact_derivation_sql \<noteq> record_claim_derivation_sql"
  by (simp_all add: sql_defs)

end
