(* ===== verification/Ingest_Sql.thy ===== *)
theory Ingest_Sql
  imports Atomic_Ingest
begin

text \<open>
  src/sql/extension/maludb_core--0.106.0.sql: the SQL functions that the two functions of
  src/src/maludb_atomic.c call (\<open>register_source_package\<close>, \<open>register_claim\<close>, \<open>register_fact\<close>,
  \<open>record_derivation\<close>, and \<open>emit_event\<close> that the first three call), with the tables they insert into.
  A row is the columns its INSERT names and \<open>owner_schema\<close>, whose default is \<open>current_schema()\<close>; the
  columns that are left to a default, a generation expression or the resolving triggers (times, search
  vectors, resolved subject and verb ids) are not part of it. The bodies name their tables without a
  schema: the search path of the caller resolves them to the extension's tables. What else can refuse
  a row (CHECK constraints, foreign keys, the exclusion of overlapping facts, triggers, row-level
  security, privileges) is the parameter \<open>refuses\<close>: it raises and inserts nothing. The encoding to
  UTF-8 and the hash are the server's.
\<close>

section \<open>The tables\<close>

datatype ingest_table = SOURCE_PACKAGE | CLAIM | FACT | DERIVATION_LEDGER | EVENT

record sql_row =
  owner_schema :: string
  row_columns :: "(string \<times> sql_value) list"

record ingest_db =
  rows_of :: "ingest_table \<Rightarrow> i64 \<rightharpoonup> sql_row"
  last_value :: "ingest_table \<Rightarrow> i64"
  fact_claim_rows :: "(i64 \<times> i64) set"
  notified :: "(string \<times> string) list"

record sql_env =
  current_schema :: string
  to_utf8 :: "string \<Rightarrow> string"
  sha256_hex :: "string \<Rightarrow> string"
  refuses :: "ingest_table \<Rightarrow> i64 \<Rightarrow> sql_row \<Rightarrow> ingest_db \<Rightarrow> pg_error option"
  refuses_link :: "i64 \<Rightarrow> i64 \<Rightarrow> ingest_db \<Rightarrow> pg_error option"
  claim_granted :: "i64 \<Rightarrow> bool"
  bypasses_rls :: bool

primrec not_null_columns :: "ingest_table \<Rightarrow> string list" where
  "not_null_columns SOURCE_PACKAGE = [''source_type'', ''content_hash'', ''content_size'', ''retention_class'', ''sensitivity'']"
| "not_null_columns CLAIM = [''sensitivity'']"
| "not_null_columns FACT = [''sensitivity'']"
| "not_null_columns DERIVATION_LEDGER = [''derived_object_type'', ''derived_object_id'', ''inputs_jsonb'', ''inputs_hash'']"
| "not_null_columns EVENT = [''event_kind'', ''payload'']"

definition column :: "sql_row \<Rightarrow> string \<Rightarrow> sql_value" where
  "column r c = (case map_of (row_columns r) c of None \<Rightarrow> SqlNull | Some v \<Rightarrow> v)"

definition nextval :: "ingest_table \<Rightarrow> ingest_db \<Rightarrow> pg_error + i64 \<times> ingest_db" where
  "nextval t db =
     (if last_value db t = 2 ^ 63 - 1
      then Inl (Ereport ERRCODE_SEQUENCE_GENERATOR_LIMIT_EXCEEDED ''nextval: reached maximum value of sequence'')
      else Inr (last_value db t + 1, db\<lparr>last_value := (last_value db)(t := last_value db t + 1)\<rparr>))"

text \<open>\<open>INSERT INTO t (\<dots>) VALUES (\<dots>) RETURNING\<close> the key, a \<open>bigserial\<close>.\<close>

definition insert_into ::
  "sql_env \<Rightarrow> ingest_table \<Rightarrow> (string \<times> sql_value) list \<Rightarrow> ingest_db \<Rightarrow> pg_error + i64 \<times> ingest_db" where
  "insert_into env t cols db =
     andthen (nextval t db) (\<lambda>(k, db1).
       let row = \<lparr>owner_schema = current_schema env, row_columns = cols\<rparr> in
       if list_ex (\<lambda>c. column row c = SqlNull) (not_null_columns t)
       then Inl (Ereport ERRCODE_NOT_NULL_VIOLATION ''null value in column violates not-null constraint'')
       else if rows_of db1 t k \<noteq> None
       then Inl (Ereport ERRCODE_UNIQUE_VIOLATION ''duplicate key value violates unique constraint'')
       else (case refuses env t k row db1 of
               Some e \<Rightarrow> Inl e
             | None \<Rightarrow> Inr (k, db1\<lparr>rows_of := (rows_of db1)(t := (rows_of db1 t)(k \<mapsto> row))\<rparr>)))"

text \<open>\<open>convert_to(v, 'UTF8')\<close> of a text, and the cast of a jsonb to its text.\<close>

definition convert_to_utf8 :: "sql_env \<Rightarrow> sql_value \<Rightarrow> string result" where
  "convert_to_utf8 env v =
     (case v of
        Text s \<Rightarrow> Inr (to_utf8 env s)
      | _ \<Rightarrow> Inl (Ereport ERRCODE_DATATYPE_MISMATCH ''convert_to''))"

definition jsonb_text :: "sql_value \<Rightarrow> sql_value" where
  "jsonb_text v = (case v of Jsonb s \<Rightarrow> Text s | _ \<Rightarrow> SqlNull)"

definition coalesce :: "sql_value \<Rightarrow> sql_value \<Rightarrow> sql_value" where
  "coalesce v d = (if v = SqlNull then d else v)"

section \<open>The functions\<close>

definition emit_event ::
  "sql_env \<Rightarrow> sql_value \<Rightarrow> sql_value \<Rightarrow> sql_value \<Rightarrow> sql_value \<Rightarrow> sql_value \<Rightarrow> sql_value \<Rightarrow> sql_value \<Rightarrow> sql_value \<Rightarrow>
   ingest_db \<Rightarrow> pg_error + i64 \<times> ingest_db" where
  "emit_event env p_event_kind p_payload p_account_id p_partition p_active_pool_id p_object_type p_object_id p_scope db =
     andthen
       (insert_into env EVENT
          [(''event_kind'', p_event_kind), (''account_id'', p_account_id), (''partition'', p_partition),
           (''active_pool_id'', p_active_pool_id), (''object_type'', p_object_type), (''object_id'', p_object_id),
           (''scope'', p_scope), (''payload'', p_payload)] db)
       (\<lambda>(v_id, db1). Inr (v_id, db1\<lparr>notified := notified db1 @ [(''maludb_event'', fmt_d (sint v_id))]\<rparr>))"

definition register_source_package ::
  "sql_env \<Rightarrow> sql_value \<Rightarrow> sql_value \<Rightarrow> sql_value \<Rightarrow> sql_value \<Rightarrow> sql_value \<Rightarrow> sql_value \<Rightarrow> sql_value \<Rightarrow> sql_value \<Rightarrow>
   sql_value \<Rightarrow> ingest_db \<Rightarrow> pg_error + i64 \<times> ingest_db" where
  "register_source_package env p_source_type p_content_bytes p_content_text p_content_jsonb p_media_type
       p_origin_jsonb p_captured_at p_retention_class p_sensitivity db =
     (if p_content_bytes = SqlNull \<and> p_content_text = SqlNull \<and> p_content_jsonb = SqlNull
      then Inl (Ereport ERRCODE_INVALID_PARAMETER_VALUE
                  ''register_source_package: one of content_bytes / _text / _jsonb is required'')
      else
        andthen
          (if p_content_bytes \<noteq> SqlNull
           then (case p_content_bytes of
                   Bytea b \<Rightarrow> Inr b | _ \<Rightarrow> Inl (Ereport ERRCODE_DATATYPE_MISMATCH ''bytea''))
           else if p_content_text \<noteq> SqlNull then convert_to_utf8 env p_content_text
           else convert_to_utf8 env (jsonb_text p_content_jsonb))
          (\<lambda>v_bytes.
        let v_hash = Text (sha256_hex env v_bytes); v_size = Int8 (of_nat (length v_bytes)) in
        andthen
          (insert_into env SOURCE_PACKAGE
             [(''source_type'', p_source_type), (''content_bytes'', p_content_bytes),
              (''content_text'', p_content_text), (''content_jsonb'', p_content_jsonb),
              (''content_hash'', v_hash), (''content_size'', v_size), (''media_type'', p_media_type),
              (''origin_jsonb'', p_origin_jsonb), (''captured_at'', p_captured_at),
              (''retention_class'', p_retention_class), (''sensitivity'', p_sensitivity)] db)
          (\<lambda>(v_id, db1).
        andthen
          (emit_event env (Text ''register_source_package'')
             (JsonbObject [(''source_package_id'', Int8 v_id), (''source_type'', p_source_type),
                (''content_hash'', v_hash), (''content_size'', v_size), (''sensitivity'', p_sensitivity)])
             SqlNull SqlNull SqlNull (Text ''source_package'') (Int8 v_id) SqlNull db1)
          (\<lambda>(_, db2). Inr (v_id, db2)))))"

definition register_claim ::
  "sql_env \<Rightarrow> sql_value \<Rightarrow> sql_value \<Rightarrow> sql_value \<Rightarrow> sql_value \<Rightarrow> sql_value \<Rightarrow> sql_value \<Rightarrow> sql_value \<Rightarrow> sql_value \<Rightarrow>
   sql_value \<Rightarrow> sql_value \<Rightarrow> ingest_db \<Rightarrow> pg_error + i64 \<times> ingest_db" where
  "register_claim env p_subject p_verb p_predicate p_object_value p_relationship p_statement_text
       p_statement_jsonb p_source_package_id p_source_locator p_sensitivity db =
     andthen
       (insert_into env CLAIM
          [(''subject'', p_subject), (''verb'', p_verb), (''predicate'', p_predicate),
           (''object_value'', p_object_value), (''relationship'', p_relationship),
           (''statement_text'', p_statement_text), (''statement_jsonb'', p_statement_jsonb),
           (''source_package_id'', p_source_package_id), (''source_locator'', p_source_locator),
           (''sensitivity'', p_sensitivity)] db)
       (\<lambda>(v_id, db1).
     andthen
       (emit_event env (Text ''register_claim'')
          (JsonbObject [(''claim_id'', Int8 v_id), (''source_package_id'', p_source_package_id),
             (''subject'', p_subject), (''verb'', p_verb), (''predicate'', p_predicate), (''sensitivity'', p_sensitivity)])
          SqlNull SqlNull SqlNull (Text ''claim'') (Int8 v_id) SqlNull db1)
       (\<lambda>(_, db2). Inr (v_id, db2)))"

text \<open>The loop that inserts one row of \<open>malu$fact_claim\<close> per element; its two columns are NOT NULL and its key.\<close>

primrec link_claims :: "sql_env \<Rightarrow> i64 \<Rightarrow> i64 option list \<Rightarrow> ingest_db \<Rightarrow> ingest_db result" where
  "link_claims env v_id [] db = Inr db"
| "link_claims env v_id (v_claim # rest) db =
     (case v_claim of
        None \<Rightarrow> Inl (Ereport ERRCODE_NOT_NULL_VIOLATION ''null value in column violates not-null constraint'')
      | Some c \<Rightarrow>
          (if (v_id, c) \<in> fact_claim_rows db
           then Inl (Ereport ERRCODE_UNIQUE_VIOLATION ''duplicate key value violates unique constraint'')
           else (case refuses_link env v_id c db of
                   Some e \<Rightarrow> Inl e
                 | None \<Rightarrow> link_claims env v_id rest (db\<lparr>fact_claim_rows := insert (v_id, c) (fact_claim_rows db)\<rparr>))))"

definition register_fact ::
  "sql_env \<Rightarrow> sql_value \<Rightarrow> sql_value \<Rightarrow> sql_value \<Rightarrow> sql_value \<Rightarrow> sql_value \<Rightarrow> sql_value \<Rightarrow> sql_value \<Rightarrow> sql_value \<Rightarrow>
   sql_value \<Rightarrow> sql_value \<Rightarrow> sql_value \<Rightarrow> ingest_db \<Rightarrow> pg_error + i64 \<times> ingest_db" where
  "register_fact env p_claim_ids p_subject p_verb p_predicate p_object_value p_relationship p_statement_text
       p_statement_jsonb p_verification_scope p_verification_method p_sensitivity db =
     andthen
       (insert_into env FACT
          [(''subject'', p_subject), (''verb'', p_verb), (''predicate'', p_predicate),
           (''object_value'', p_object_value), (''relationship'', p_relationship),
           (''statement_text'', p_statement_text), (''statement_jsonb'', p_statement_jsonb),
           (''verification_scope'', p_verification_scope), (''verification_method'', p_verification_method),
           (''sensitivity'', p_sensitivity)] db)
       (\<lambda>(v_id, db1).
     andthen
       (case p_claim_ids of
          SqlNull \<Rightarrow> Inr db1
        | Int8Array ids \<Rightarrow> link_claims env v_id ids db1
        | _ \<Rightarrow> Inl (Ereport ERRCODE_DATATYPE_MISMATCH ''bigint[]''))
       (\<lambda>db2.
     andthen
       (emit_event env (Text ''register_fact'')
          (JsonbObject [(''fact_id'', Int8 v_id), (''claim_ids'', coalesce p_claim_ids (Jsonb ''[]'')),
             (''subject'', p_subject), (''verb'', p_verb), (''predicate'', p_predicate),
             (''verification_method'', p_verification_method), (''sensitivity'', p_sensitivity)])
          SqlNull SqlNull SqlNull (Text ''fact'') (Int8 v_id) SqlNull db2)
       (\<lambda>(_, db3). Inr (v_id, db3))))"

definition record_derivation ::
  "sql_env \<Rightarrow> sql_value \<Rightarrow> sql_value \<Rightarrow> sql_value \<Rightarrow> sql_value \<Rightarrow> sql_value \<Rightarrow> sql_value \<Rightarrow> sql_value \<Rightarrow> sql_value \<Rightarrow>
   sql_value \<Rightarrow> ingest_db \<Rightarrow> pg_error + i64 \<times> ingest_db" where
  "record_derivation env p_derived_object_type p_derived_object_id p_parser_name p_model_alias_id
       p_prompt_template_id p_policy_name p_verifier_name p_model_request_id p_inputs_jsonb db =
     andthen (convert_to_utf8 env (jsonb_text (coalesce p_inputs_jsonb (Jsonb ''[]'')))) (\<lambda>v_bytes.
       insert_into env DERIVATION_LEDGER
         [(''derived_object_type'', p_derived_object_type), (''derived_object_id'', p_derived_object_id),
          (''parser_name'', p_parser_name), (''model_alias_id'', p_model_alias_id),
          (''prompt_template_id'', p_prompt_template_id), (''policy_name'', p_policy_name),
          (''verifier_name'', p_verifier_name), (''model_request_id'', p_model_request_id),
          (''inputs_jsonb'', coalesce p_inputs_jsonb (Jsonb ''[]'')),
          (''inputs_hash'', Text (sha256_hex env v_bytes))] db)"

section \<open>The session\<close>

text \<open>
  The policies \<open>tenant_owner\<close> and \<open>grant_visibility\<close> of \<open>malu$claim\<close>: a row is seen by its owner, by a schema
  with a live grant on it, and by a role that bypasses row-level security. \<open>claim_id\<close> is the primary
  key, so the count is over the distinct ids of the array.
\<close>

definition claim_visible :: "sql_env \<Rightarrow> i64 \<Rightarrow> sql_row \<Rightarrow> bool" where
  "claim_visible env k r \<longleftrightarrow> owner_schema r = current_schema env \<or> claim_granted env k \<or> bypasses_rls env"

definition claim_counted :: "sql_env \<Rightarrow> ingest_db \<Rightarrow> i64 option \<Rightarrow> bool" where
  "claim_counted env db i =
     (case i of
        None \<Rightarrow> False
      | Some k \<Rightarrow> (case rows_of db CLAIM k of None \<Rightarrow> False | Some r \<Rightarrow> claim_visible env k r))"

definition claim_count :: "sql_env \<Rightarrow> i64 option list \<Rightarrow> ingest_db \<Rightarrow> i64" where
  "claim_count env ids db = of_nat (length (filter (claim_counted env db) (remdups ids)))"

definition one_row :: "pg_error + i64 \<times> ingest_db \<Rightarrow> pg_error + (int \<times> i64 option list) \<times> ingest_db" where
  "one_row r = andthen r (\<lambda>(v, db'). Inr ((SPI_OK_SELECT, [Some v]), db'))"

text \<open>A parameter that a statement leaves out has the default of the function's declaration.\<close>

definition sql_execute ::
  "sql_env \<Rightarrow> string \<Rightarrow> sql_value list \<Rightarrow> ingest_db \<Rightarrow> pg_error + (int \<times> i64 option list) \<times> ingest_db" where
  "sql_execute env sql ps db =
     (let bad = Inl (Ereport ERRCODE_DATATYPE_MISMATCH ''parameters of the statement'') in
      if sql = register_source_package_sql
      then (case ps of
              [stype, content_text, origin] \<Rightarrow>
                one_row (register_source_package env stype SqlNull content_text SqlNull SqlNull origin SqlNull
                           (Text ''standard'') (Text ''internal'') db)
            | _ \<Rightarrow> bad)
      else if sql = register_claim_sql
      then (case ps of
              [subject, verb, object_value, statement_text, package, locator] \<Rightarrow>
                one_row (register_claim env subject verb SqlNull object_value SqlNull statement_text SqlNull package
                           locator (Text ''internal'') db)
            | _ \<Rightarrow> bad)
      else if sql = record_claim_derivation_sql
      then (case ps of
              [object_type, object_id, parser, request, inputs] \<Rightarrow>
                one_row (record_derivation env object_type object_id parser SqlNull SqlNull SqlNull SqlNull request
                           inputs db)
            | _ \<Rightarrow> bad)
      else if sql = claim_count_sql
      then (case ps of [Int8Array ids] \<Rightarrow> one_row (Inr (claim_count env ids db, db)) | _ \<Rightarrow> bad)
      else if sql = register_fact_sql
      then (case ps of
              [ids, subject, verb, object_value, statement_text, scope, verification] \<Rightarrow>
                one_row (register_fact env ids subject verb SqlNull object_value SqlNull statement_text SqlNull scope
                           verification (Text ''internal'') db)
            | _ \<Rightarrow> bad)
      else if sql = record_fact_derivation_sql
      then (case ps of
              [object_type, object_id, parser, verifier, inputs] \<Rightarrow>
                one_row (record_derivation env object_type object_id parser SqlNull SqlNull SqlNull verifier SqlNull
                           inputs db)
            | _ \<Rightarrow> bad)
      else Inl (Ereport ERRCODE_FEATURE_NOT_SUPPORTED ''statement''))"

definition sql_session :: "sql_env \<Rightarrow> ingest_db spi_session" where
  "sql_session env = \<lparr>spi_connect_ret = SPI_OK_CONNECT, spi_execute = sql_execute env\<rparr>"

section \<open>What the functions insert\<close>

definition new_row :: "sql_env \<Rightarrow> (string \<times> sql_value) list \<Rightarrow> sql_row" where
  "new_row env cols = \<lparr>owner_schema = current_schema env, row_columns = cols\<rparr>"

definition event_row :: "sql_env \<Rightarrow> string \<Rightarrow> string \<Rightarrow> i64 \<Rightarrow> (string \<times> sql_value) list \<Rightarrow> sql_row" where
  "event_row env kind object_type object_id payload =
     new_row env [(''event_kind'', Text kind), (''account_id'', SqlNull), (''partition'', SqlNull),
       (''active_pool_id'', SqlNull), (''object_type'', Text object_type), (''object_id'', Int8 object_id),
       (''scope'', SqlNull), (''payload'', JsonbObject payload)]"

text \<open>One row more in a table, under a key that was free, and nothing else.\<close>

definition adds_row :: "ingest_table \<Rightarrow> i64 \<Rightarrow> sql_row \<Rightarrow> ingest_db \<Rightarrow> ingest_db \<Rightarrow> bool" where
  "adds_row t k r db db' \<longleftrightarrow>
     k \<notin> dom (rows_of db t) \<and> rows_of db' = (rows_of db)(t := (rows_of db t)(k \<mapsto> r)) \<and>
     fact_claim_rows db' = fact_claim_rows db"

lemma insert_into_adds:
  "insert_into env t cols db = Inr (k, db') \<Longrightarrow>
   adds_row t k (new_row env cols) db db' \<and> notified db' = notified db"
  by (auto simp: insert_into_def nextval_def adds_row_def new_row_def andthen_eq_Inr Let_def
      split: if_splits option.splits)

lemma emit_event_adds:
  "emit_event env (Text kind) (JsonbObject payload) SqlNull SqlNull SqlNull (Text ty) (Int8 i) SqlNull db = Inr (e, db') \<Longrightarrow>
   adds_row EVENT e (event_row env kind ty i payload) db db' \<and>
   notified db' = notified db @ [(''maludb_event'', fmt_d (sint e))]"
  by (auto simp: emit_event_def andthen_eq_Inr event_row_def adds_row_def dest!: insert_into_adds)

lemma convert_to_utf8_Inr: "convert_to_utf8 env v = Inr b \<longleftrightarrow> (\<exists>s. v = Text s \<and> b = to_utf8 env s)"
  by (cases v) (auto simp: convert_to_utf8_def)

lemma jsonb_text_Text: "jsonb_text v = Text s \<longleftrightarrow> v = Jsonb s"
  by (cases v) (auto simp: jsonb_text_def)

lemma register_source_package_adds:
  assumes "register_source_package env stype SqlNull content SqlNull SqlNull origin SqlNull (Text cls) (Text sens) db
           = Inr (p, db')"
  shows "\<exists>txt e db1. content = Text txt \<and>
     adds_row SOURCE_PACKAGE p
       (new_row env [(''source_type'', stype), (''content_bytes'', SqlNull), (''content_text'', Text txt),
          (''content_jsonb'', SqlNull), (''content_hash'', Text (sha256_hex env (to_utf8 env txt))),
          (''content_size'', Int8 (of_nat (length (to_utf8 env txt)))), (''media_type'', SqlNull),
          (''origin_jsonb'', origin), (''captured_at'', SqlNull), (''retention_class'', Text cls),
          (''sensitivity'', Text sens)]) db db1 \<and>
     adds_row EVENT e
       (event_row env ''register_source_package'' ''source_package'' p
          [(''source_package_id'', Int8 p), (''source_type'', stype),
           (''content_hash'', Text (sha256_hex env (to_utf8 env txt))),
           (''content_size'', Int8 (of_nat (length (to_utf8 env txt)))), (''sensitivity'', Text sens)]) db1 db' \<and>
     notified db' = notified db @ [(''maludb_event'', fmt_d (sint e))]"
  using assms unfolding register_source_package_def
  by (auto simp: andthen_eq_Inr Let_def convert_to_utf8_Inr split: if_splits dest!: insert_into_adds emit_event_adds) metis

lemma register_claim_adds:
  assumes "register_claim env subj verb SqlNull obj SqlNull stmt SqlNull pkg loc (Text sens) db = Inr (c, db')"
  shows "\<exists>e db1.
     adds_row CLAIM c
       (new_row env [(''subject'', subj), (''verb'', verb), (''predicate'', SqlNull), (''object_value'', obj),
          (''relationship'', SqlNull), (''statement_text'', stmt), (''statement_jsonb'', SqlNull),
          (''source_package_id'', pkg), (''source_locator'', loc), (''sensitivity'', Text sens)]) db db1 \<and>
     adds_row EVENT e
       (event_row env ''register_claim'' ''claim'' c
          [(''claim_id'', Int8 c), (''source_package_id'', pkg), (''subject'', subj), (''verb'', verb),
           (''predicate'', SqlNull), (''sensitivity'', Text sens)]) db1 db' \<and>
     notified db' = notified db @ [(''maludb_event'', fmt_d (sint e))]"
  using assms unfolding register_claim_def
  by (auto simp: andthen_eq_Inr dest!: insert_into_adds emit_event_adds) metis

lemma record_derivation_adds:
  assumes "record_derivation env ty i parser alias prompt policy verifier request inputs db = Inr (d, db')"
  shows "\<exists>j. coalesce inputs (Jsonb ''[]'') = Jsonb j \<and>
     adds_row DERIVATION_LEDGER d
       (new_row env [(''derived_object_type'', ty), (''derived_object_id'', i), (''parser_name'', parser),
          (''model_alias_id'', alias), (''prompt_template_id'', prompt), (''policy_name'', policy),
          (''verifier_name'', verifier), (''model_request_id'', request), (''inputs_jsonb'', Jsonb j),
          (''inputs_hash'', Text (sha256_hex env (to_utf8 env j)))]) db db' \<and> notified db' = notified db"
  using assms unfolding record_derivation_def
  by (auto simp: andthen_eq_Inr convert_to_utf8_Inr jsonb_text_Text dest!: insert_into_adds)

lemma link_claims_adds:
  "link_claims env f ids db = Inr db' \<Longrightarrow>
   rows_of db' = rows_of db \<and> notified db' = notified db \<and>
   fact_claim_rows db' = fact_claim_rows db \<union> {(f, c) | c. Some c \<in> set ids}"
  by (induction ids arbitrary: db) (auto split: option.splits if_splits)

lemma register_fact_adds:
  assumes "register_fact env (Int8Array ids) subj verb pred obj rel stmt stmtj scope meth sens db = Inr (f, db')"
  shows "\<exists>e r r'. rows_of db' = (rows_of db)(FACT := (rows_of db FACT)(f \<mapsto> r), EVENT := (rows_of db EVENT)(e \<mapsto> r')) \<and>
     fact_claim_rows db' = fact_claim_rows db \<union> {(f, c) | c. Some c \<in> set ids}"
proof -
  from assms obtain cols payload db1 db2 e where
    i: "insert_into env FACT cols db = Inr (f, db1)" and
    l: "link_claims env f ids db1 = Inr db2" and
    e: "emit_event env (Text ''register_fact'') (JsonbObject payload) SqlNull SqlNull SqlNull (Text ''fact'')
          (Int8 f) SqlNull db2 = Inr (e, db')"
    unfolding register_fact_def by (auto simp: andthen_eq_Inr)
  show ?thesis
    using insert_into_adds [OF i] link_claims_adds [OF l] emit_event_adds [OF e] unfolding adds_row_def
    by (intro exI [of _ e] exI [of _ "new_row env cols"] exI [of _ "event_row env ''register_fact'' ''fact'' f payload"] conjI)
      simp_all
qed

lemmas execute_simps = sql_session_def sql_execute_def Let_def sql_distinct sql_distinct [symmetric]

lemma one_row_Inr [simp]: "one_row r = Inr ((ret, rows), db') \<longleftrightarrow> ret = SPI_OK_SELECT \<and> (\<exists>v. rows = [Some v] \<and> r = Inr (v, db'))"
  by (auto simp: one_row_def andthen_eq_Inr)

lemma execute_package:
  "spi_execute (sql_session env) register_source_package_sql ps db = Inr (res, db') \<Longrightarrow>
   \<exists>stype content origin. ps = [stype, content, origin] \<and>
     one_row (register_source_package env stype SqlNull content SqlNull SqlNull origin SqlNull
       (Text ''standard'') (Text ''internal'') db) = Inr (res, db')"
  by (simp add: execute_simps split: list.splits)

lemma execute_claim:
  "spi_execute (sql_session env) register_claim_sql [subj, verb, obj, stmt, pkg, loc] db =
   one_row (register_claim env subj verb SqlNull obj SqlNull stmt SqlNull pkg loc (Text ''internal'') db)"
  by (simp add: execute_simps)

lemma execute_count:
  "spi_execute (sql_session env) claim_count_sql [Int8Array ids] db = one_row (Inr (claim_count env ids db, db))"
  by (simp add: execute_simps)

lemma execute_fact:
  "spi_execute (sql_session env) register_fact_sql ps db = Inr (res, db') \<Longrightarrow>
   \<exists>ids subj verb obj stmt scope meth. ps = [ids, subj, verb, obj, stmt, scope, meth] \<and>
     one_row (register_fact env ids subj verb SqlNull obj SqlNull stmt SqlNull scope meth (Text ''internal'') db)
     = Inr (res, db')"
  by (simp add: execute_simps split: list.splits)

lemma execute_claim_ledger:
  "spi_execute (sql_session env) record_claim_derivation_sql ps db = Inr (res, db') \<Longrightarrow>
   \<exists>ty i parser request inputs. ps = [ty, i, parser, request, inputs] \<and>
     one_row (record_derivation env ty i parser SqlNull SqlNull SqlNull SqlNull request inputs db) = Inr (res, db')"
  by (simp add: execute_simps split: list.splits)

lemma execute_fact_ledger:
  "spi_execute (sql_session env) record_fact_derivation_sql ps db = Inr (res, db') \<Longrightarrow>
   \<exists>ty i parser verifier inputs. ps = [ty, i, parser, verifier, inputs] \<and>
     one_row (record_derivation env ty i parser SqlNull SqlNull SqlNull verifier SqlNull inputs db) = Inr (res, db')"
  by (simp add: execute_simps split: list.splits)

section \<open>The laws of the store\<close>

definition ledger_entries :: "(i64 \<rightharpoonup> sql_row) \<Rightarrow> (string \<times> i64) set" where
  "ledger_entries m = {(ty, i). \<exists>r \<in> ran m. column r ''derived_object_type'' = Text ty \<and> column r ''derived_object_id'' = Int8 i}"

lemma ledger_entries_upd:
  assumes "k \<notin> dom m" "column r ''derived_object_type'' = Text ty" "column r ''derived_object_id'' = Int8 i"
  shows "ledger_entries (m(k \<mapsto> r)) = ledger_entries m \<union> {(ty, i)}"
  using assms by (auto simp: ledger_entries_def domIff)

definition sql_view :: "sql_env \<Rightarrow> ingest_db store_view" where
  "sql_view env = \<lparr>
     packages = (\<lambda>db. dom (rows_of db SOURCE_PACKAGE)),
     claims = (\<lambda>db. {(k, column r ''source_package_id'') | k r. rows_of db CLAIM k = Some r \<and> claim_visible env k r}),
     fact_claims = fact_claim_rows,
     ledger = (\<lambda>db. ledger_entries (rows_of db DERIVATION_LEDGER))\<rparr>"

lemma claim_count_visible: "claim_count env ids db = of_nat (card (visible_ids (sql_view env) ids db))"
proof -
  have vis: "claim_counted env db (Some k) \<longleftrightarrow> k \<in> fst ` claims (sql_view env) db" for k
    by (force simp: claim_counted_def sql_view_def split: option.splits)
  have none: "\<not> claim_counted env db None" by (simp add: claim_counted_def)
  have "set (filter (claim_counted env db) (remdups ids)) = Some ` visible_ids (sql_view env) ids db"
    using vis none by (auto simp: visible_ids_def image_iff) (metis not_None_eq)
  moreover have "distinct (filter (claim_counted env db) (remdups ids))" by simp
  ultimately show ?thesis
    unfolding claim_count_def using distinct_card by (metis card_image inj_Some)
qed

lemma package_law_sql: "package_law (sql_session env) (sql_view env)"
  unfolding package_law_def
  by (auto simp: inserts_def sql_view_def adds_row_def dest!: execute_package register_source_package_adds)

lemma claim_law_sql: "claim_law (sql_session env) (sql_view env)"
  unfolding claim_law_def execute_claim
  by (auto simp: inserts_def sql_view_def adds_row_def claim_visible_def new_row_def column_def
      dest!: register_claim_adds split: if_splits)

lemma count_law_sql: "count_law (sql_session env) (sql_view env)"
  unfolding count_law_def execute_count by (auto simp: inserts_def claim_count_visible)

lemma fact_law_sql: "fact_law (sql_session env) (sql_view env)"
  unfolding fact_law_def
  by (auto simp: inserts_def sql_view_def dest!: execute_fact register_fact_adds)

lemma record_derivation_view:
  assumes "record_derivation env (Text ty) (Int8 i) parser alias prompt policy verifier request inputs db = Inr (d, db')"
  shows "inserts (sql_view env) db db' {} {} {} {(ty, i)}"
proof -
  from record_derivation_adds [OF assms] obtain cols where
    a: "adds_row DERIVATION_LEDGER d
          (new_row env ((''derived_object_type'', Text ty) # (''derived_object_id'', Int8 i) # cols)) db db'"
    by blast
  then have "ledger_entries (rows_of db' DERIVATION_LEDGER) = ledger_entries (rows_of db DERIVATION_LEDGER) \<union> {(ty, i)}"
    unfolding adds_row_def by (simp add: ledger_entries_upd new_row_def column_def)
  with a show ?thesis by (simp add: inserts_def sql_view_def adds_row_def)
qed

lemma ledger_law_sql:
  "ledger_law record_claim_derivation_sql (sql_session env) (sql_view env)"
  "ledger_law record_fact_derivation_sql (sql_session env) (sql_view env)"
  unfolding ledger_law_def
  by (auto dest!: execute_claim_ledger execute_fact_ledger intro: record_derivation_view)

lemma sql_store_laws: "store_laws (sql_session env) (sql_view env)"
  unfolding store_laws_def
  using package_law_sql claim_law_sql count_law_sql fact_law_sql ledger_law_sql by blast

section \<open>A claim with its ledger entry\<close>

lemma sql_session_connects [simp]: "spi_connect_ret (sql_session env) = SPI_OK_CONNECT"
  by (simp add: sql_session_def)

lemma ingest_steps:
  assumes "maludb_ingest_claim_atomic (sql_session env) a db = Inr (claim_id, db')"
  shows "\<exists>pkg d db1 db2.
     register_source_package env (source_type a) SqlNull (source_text a) SqlNull SqlNull (origin_jsonb a) SqlNull
       (Text ''standard'') (Text ''internal'') db = Inr (pkg, db1) \<and>
     register_claim env (ing_subject a) (ing_verb a) SqlNull (ing_object_value a) SqlNull (ing_statement_text a)
       SqlNull (Int8 pkg) (source_locator a) (Text ''internal'') db1 = Inr (claim_id, db2) \<and>
     record_derivation env (Text ''claim'') (Int8 claim_id) (ing_parser_name a) SqlNull SqlNull SqlNull SqlNull
       (model_request_id a) (ing_inputs_jsonb a) db2 = Inr (d, db')"
  using assms unfolding ingest_chain execute_claim
  by (force dest!: execute_package execute_claim_ledger)

lemma adds_chain:
  assumes "adds_row SOURCE_PACKAGE p r1 db d1" "adds_row EVENT e1 r2 d1 d2" "adds_row CLAIM c r3 d2 d3"
    "adds_row EVENT e2 r4 d3 d4" "adds_row DERIVATION_LEDGER l r5 d4 db'"
  shows "rows_of db SOURCE_PACKAGE p = None \<and> rows_of db CLAIM c = None \<and> rows_of db DERIVATION_LEDGER l = None \<and>
     rows_of db EVENT e1 = None \<and> rows_of db EVENT e2 = None \<and> e1 \<noteq> e2 \<and>
     rows_of db' SOURCE_PACKAGE = (rows_of db SOURCE_PACKAGE)(p \<mapsto> r1) \<and>
     rows_of db' CLAIM = (rows_of db CLAIM)(c \<mapsto> r3) \<and>
     rows_of db' DERIVATION_LEDGER = (rows_of db DERIVATION_LEDGER)(l \<mapsto> r5) \<and>
     rows_of db' EVENT = (rows_of db EVENT)(e1 \<mapsto> r2, e2 \<mapsto> r4) \<and>
     rows_of db' FACT = rows_of db FACT \<and> fact_claim_rows db' = fact_claim_rows db"
  using assms by (auto simp: adds_row_def domIff)

lemma coalesce_inputs:
  assumes "coalesce v (Jsonb ''[]'') = Jsonb j"
  shows "v = SqlNull \<and> j = ''[]'' \<or> v = Jsonb j"
  using assms by (auto simp: coalesce_def split: if_splits)

text \<open>
  C20. A successful \<open>ingest_claim_atomic\<close>, on the SQL functions of the extension, has inserted into their
  tables exactly these rows, each under a key that was free and owned by the current schema: the source
  package with the text it was given, its hash and its size; the claim, under the id it returns, with
  the columns it was given and that package; the ledger entry of that claim, with its parser, model
  request and inputs; and two events, for the package and for the claim, each announced on the channel
  \<open>maludb_event\<close>. No fact and no link of a fact is added, and no row that was there changes.
\<close>

theorem ingest_claim_with_ledger:
  assumes "maludb_ingest_claim_atomic (sql_session env) a db = Inr (claim_id, db')"
  shows "\<exists>txt j pkg led ev1 ev2.
     source_text a = Text txt \<and>
     (ing_inputs_jsonb a = SqlNull \<and> j = ''[]'' \<or> ing_inputs_jsonb a = Jsonb j) \<and>
     rows_of db SOURCE_PACKAGE pkg = None \<and> rows_of db CLAIM claim_id = None \<and>
     rows_of db DERIVATION_LEDGER led = None \<and> rows_of db EVENT ev1 = None \<and> rows_of db EVENT ev2 = None \<and> ev1 \<noteq> ev2 \<and>
     rows_of db' SOURCE_PACKAGE = (rows_of db SOURCE_PACKAGE)(pkg \<mapsto>
       \<lparr>owner_schema = current_schema env, row_columns =
         [(''source_type'', source_type a), (''content_bytes'', SqlNull), (''content_text'', Text txt),
          (''content_jsonb'', SqlNull), (''content_hash'', Text (sha256_hex env (to_utf8 env txt))),
          (''content_size'', Int8 (of_nat (length (to_utf8 env txt)))), (''media_type'', SqlNull),
          (''origin_jsonb'', origin_jsonb a), (''captured_at'', SqlNull), (''retention_class'', Text ''standard''),
          (''sensitivity'', Text ''internal'')]\<rparr>) \<and>
     rows_of db' CLAIM = (rows_of db CLAIM)(claim_id \<mapsto>
       \<lparr>owner_schema = current_schema env, row_columns =
         [(''subject'', ing_subject a), (''verb'', ing_verb a), (''predicate'', SqlNull),
          (''object_value'', ing_object_value a), (''relationship'', SqlNull),
          (''statement_text'', ing_statement_text a), (''statement_jsonb'', SqlNull),
          (''source_package_id'', Int8 pkg), (''source_locator'', source_locator a),
          (''sensitivity'', Text ''internal'')]\<rparr>) \<and>
     rows_of db' DERIVATION_LEDGER = (rows_of db DERIVATION_LEDGER)(led \<mapsto>
       \<lparr>owner_schema = current_schema env, row_columns =
         [(''derived_object_type'', Text ''claim''), (''derived_object_id'', Int8 claim_id),
          (''parser_name'', ing_parser_name a), (''model_alias_id'', SqlNull), (''prompt_template_id'', SqlNull),
          (''policy_name'', SqlNull), (''verifier_name'', SqlNull), (''model_request_id'', model_request_id a),
          (''inputs_jsonb'', Jsonb j), (''inputs_hash'', Text (sha256_hex env (to_utf8 env j)))]\<rparr>) \<and>
     rows_of db' EVENT = (rows_of db EVENT)(
       ev1 \<mapsto> event_row env ''register_source_package'' ''source_package'' pkg
         [(''source_package_id'', Int8 pkg), (''source_type'', source_type a),
          (''content_hash'', Text (sha256_hex env (to_utf8 env txt))),
          (''content_size'', Int8 (of_nat (length (to_utf8 env txt)))), (''sensitivity'', Text ''internal'')],
       ev2 \<mapsto> event_row env ''register_claim'' ''claim'' claim_id
         [(''claim_id'', Int8 claim_id), (''source_package_id'', Int8 pkg), (''subject'', ing_subject a),
          (''verb'', ing_verb a), (''predicate'', SqlNull), (''sensitivity'', Text ''internal'')]) \<and>
     rows_of db' FACT = rows_of db FACT \<and> fact_claim_rows db' = fact_claim_rows db \<and>
     notified db' = notified db @ [(''maludb_event'', fmt_d (sint ev1)), (''maludb_event'', fmt_d (sint ev2))]"
proof -
  from ingest_steps [OF assms] obtain pkg led db1 db2 where
    1: "register_source_package env (source_type a) SqlNull (source_text a) SqlNull SqlNull (origin_jsonb a) SqlNull
          (Text ''standard'') (Text ''internal'') db = Inr (pkg, db1)" and
    2: "register_claim env (ing_subject a) (ing_verb a) SqlNull (ing_object_value a) SqlNull (ing_statement_text a)
          SqlNull (Int8 pkg) (source_locator a) (Text ''internal'') db1 = Inr (claim_id, db2)" and
    3: "record_derivation env (Text ''claim'') (Int8 claim_id) (ing_parser_name a) SqlNull SqlNull SqlNull SqlNull
          (model_request_id a) (ing_inputs_jsonb a) db2 = Inr (led, db')" by blast
  from register_source_package_adds [OF 1] show ?thesis
  proof (elim exE conjE, goal_cases)
    case p: (1 t ev1 d1)
    from register_claim_adds [OF 2] show ?case
    proof (elim exE conjE, goal_cases)
      case c: (1 ev2 d3)
      from record_derivation_adds [OF 3] show ?case
      proof (elim exE conjE, goal_cases)
        case l: (1 j)
        have "notified db' = notified db @ [(''maludb_event'', fmt_d (sint ev1)), (''maludb_event'', fmt_d (sint ev2))]"
          using p(4) c(3) l(3) by simp
        with p(1) coalesce_inputs [OF l(1)] adds_chain [OF p(2,3) c(1,2) l(2)] show ?case
          unfolding new_row_def
          apply -
          apply (rule exI [of _ t], rule exI [of _ j], rule exI [of _ pkg], rule exI [of _ led], rule exI [of _ ev1])
          by (rule exI [of _ ev2], elim conjE, intro conjI) assumption+
      qed
    qed
  qed
qed

section \<open>Concrete sessions\<close>

definition sample_env :: sql_env where
  "sample_env = \<lparr>current_schema = ''tenant'', to_utf8 = id, sha256_hex = (\<lambda>s. fmt_nat (length s)),
     refuses = (\<lambda>t k r db. None), refuses_link = (\<lambda>f c db. None), claim_granted = (\<lambda>k. False), bypasses_rls = False\<rparr>"

definition empty_db :: ingest_db where
  "empty_db = \<lparr>rows_of = (\<lambda>t. Map.empty), last_value = (\<lambda>t. 0), fact_claim_rows = {}, notified = []\<rparr>"

definition sample_ingest :: ingest_args where
  "sample_ingest = \<lparr>source_type = Text ''note'', source_text = Text ''t'', ing_subject = Text ''s'', ing_verb = SqlNull,
     ing_object_value = SqlNull, ing_statement_text = SqlNull, ing_parser_name = SqlNull, origin_jsonb = SqlNull,
     source_locator = SqlNull, model_request_id = SqlNull, ing_inputs_jsonb = SqlNull\<rparr>"

lemmas run_simps = sample_env_def empty_db_def sample_ingest_def register_source_package_def register_claim_def
  record_derivation_def emit_event_def insert_into_def nextval_def convert_to_utf8_def coalesce_def jsonb_text_def
  column_def one_row_def

lemma sample_ingest_result:
  "\<exists>db'. maludb_ingest_claim_atomic (sql_session sample_env) sample_ingest empty_db = Inr (1, db')"
  by (simp add: maludb_ingest_claim_atomic_def spi_select_def spi_int8_singleton_def execute_simps run_simps)

theorem ingest_claim_with_ledger_witness:
  "\<exists>db' pkg. maludb_ingest_claim_atomic (sql_session sample_env) sample_ingest empty_db = Inr (1, db') \<and>
     dom (rows_of db' CLAIM) = {1} \<and> dom (rows_of db' SOURCE_PACKAGE) = {pkg} \<and>
     (\<exists>r. rows_of db' CLAIM 1 = Some r \<and> column r ''source_package_id'' = Int8 pkg \<and> column r ''subject'' = Text ''s'') \<and>
     card (dom (rows_of db' EVENT)) = 2 \<and> card (dom (rows_of db' DERIVATION_LEDGER)) = 1"
proof -
  obtain db' where r: "maludb_ingest_claim_atomic (sql_session sample_env) sample_ingest empty_db = Inr (1, db')"
    using sample_ingest_result by blast
  from ingest_claim_with_ledger [OF r] show ?thesis
  proof (elim exE conjE, goal_cases)
    case (1 t j pkg led ev1 ev2)
    have e: "rows_of empty_db T = Map.empty" for T by (simp add: empty_db_def)
    from 1 r show ?case
      by (intro exI [of _ db'] exI [of _ pkg]) (simp add: e column_def sample_ingest_def)
  qed
qed

definition sample_promote :: "i64 option list \<Rightarrow> promote_args" where
  "sample_promote ids = \<lparr>claim_ids = Some ids, pro_subject = SqlNull, pro_verb = SqlNull, pro_object_value = SqlNull,
     pro_statement_text = SqlNull, verification_scope = SqlNull, verification_method = SqlNull,
     pro_parser_name = SqlNull, verifier_name = SqlNull, pro_inputs_jsonb = SqlNull\<rparr>"

definition one_claim_db :: ingest_db where
  "one_claim_db = empty_db
     \<lparr>rows_of := (\<lambda>t. Map.empty)(CLAIM := [2 \<mapsto> new_row sample_env [(''source_package_id'', SqlNull)]])\<rparr>"

lemma one_claim_count:
  "claim_count sample_env [Some 2] one_claim_db = 1" "claim_count sample_env [Some 2, Some 2] one_claim_db = 1"
  by (simp_all add: claim_count_def claim_counted_def one_claim_db_def claim_visible_def new_row_def sample_env_def)

lemma sample_promote_result:
  "\<exists>db'. maludb_promote_claim_to_fact_atomic (sql_session sample_env) (sample_promote [Some 2]) one_claim_db = Inr (1, db')"
  by (simp add: maludb_promote_claim_to_fact_atomic_def promote_writes_def sample_promote_def spi_select_def
      spi_int8_singleton_def execute_simps run_simps register_fact_def one_claim_db_def claim_count_def
      claim_counted_def claim_visible_def new_row_def)

theorem promote_links_existing_claims_witness:
  "\<exists>db'. maludb_promote_claim_to_fact_atomic (sql_session sample_env) (sample_promote [Some 2]) one_claim_db = Inr (1, db') \<and>
     inserts (sql_view sample_env) one_claim_db db' {} {} {(1, c) | c. Some c \<in> set [Some 2]} {(''fact'', 1)}"
proof -
  obtain db' where
    r: "maludb_promote_claim_to_fact_atomic (sql_session sample_env) (sample_promote [Some 2]) one_claim_db = Inr (1, db')"
    using sample_promote_result by blast
  have ids: "claim_ids (sample_promote [Some 2]) = Some [Some 2]" by (simp add: sample_promote_def)
  have "length [Some (2 :: i64)] < 2 ^ 63" by simp
  from promote_links_existing_claims [OF sql_store_laws ids this r] r show ?thesis by blast
qed

lemma promote_refuses_duplicates_example:
  "maludb_promote_claim_to_fact_atomic (sql_session sample_env) (sample_promote [Some 2, Some 2]) one_claim_db
   = Inl promote_no_data"
proof (rule promote_refuses_duplicates [OF sql_store_laws])
  show "spi_execute (sql_session sample_env) claim_count_sql [Int8Array [Some 2, Some 2]] one_claim_db
        = Inr ((SPI_OK_SELECT, [Some 1]), one_claim_db)"
    by (simp add: execute_count one_claim_count)
qed (simp_all add: sample_promote_def)

end
