(* ===== verification/Json_Value.thy ===== *)
theory Json_Value
  imports Prelude
begin

text \<open>
  JSON values as the listener handles them through jansson (a library outside the repository): the
  tree \<open>json_t\<close>, the accessors the sources call, and the parser and printer as parameters. Objects
  keep their members in iteration order. \<open>json_string\<close> refuses text that is not UTF-8 and
  \<open>json_object_set_new\<close> then leaves the member out; \<open>utf8_ok\<close> is that test. A NULL pointer is \<open>None\<close>; the accessors accept it, as
  jansson's do.
\<close>

datatype json_t =
    JObject "(string \<times> json_t) list"
  | JArray "json_t list"
  | JString string
  | JInteger int
  | JReal "64 word"
  | JTrue
  | JFalse
  | JNull

record jansson =
  json_loads :: "string \<Rightarrow> string + json_t"
  json_dumps :: "json_t \<Rightarrow> string option"
  utf8_ok :: "string \<Rightarrow> bool"
  fmt_17g :: "64 word \<Rightarrow> string"

fun json_object_get :: "json_t option \<Rightarrow> string \<Rightarrow> json_t option" where
  "json_object_get (Some (JObject ms)) k = map_of ms k"
| "json_object_get _ k = None"

fun json_string_value :: "json_t option \<Rightarrow> string option" where
  "json_string_value (Some (JString s)) = Some s"
| "json_string_value _ = None"

fun json_integer_value :: "json_t option \<Rightarrow> int" where
  "json_integer_value (Some (JInteger i)) = i"
| "json_integer_value _ = 0"

fun json_is_object :: "json_t option \<Rightarrow> bool" where
  "json_is_object (Some (JObject _)) = True"
| "json_is_object _ = False"

fun json_is_array :: "json_t option \<Rightarrow> bool" where
  "json_is_array (Some (JArray _)) = True"
| "json_is_array _ = False"

fun json_array_items :: "json_t option \<Rightarrow> json_t list" where
  "json_array_items (Some (JArray xs)) = xs"
| "json_array_items _ = []"

fun json_members :: "json_t option \<Rightarrow> (string \<times> json_t) list" where
  "json_members (Some (JObject ms)) = ms"
| "json_members _ = []"

definition json_is_true :: "json_t option \<Rightarrow> bool" where
  "json_is_true j \<longleftrightarrow> j = Some JTrue"

definition json_is_false :: "json_t option \<Rightarrow> bool" where
  "json_is_false j \<longleftrightarrow> j = Some JFalse"

text \<open>The single block \<open>{"type":"text","text":s}\<close> in an array.\<close>

definition str_member :: "jansson \<Rightarrow> string \<Rightarrow> string \<Rightarrow> (string \<times> json_t) list" where
  "str_member js k s = (if utf8_ok js s then [(k, JString s)] else [])"

definition text_content :: "jansson \<Rightarrow> string \<Rightarrow> json_t" where
  "text_content js s = JArray [JObject ((''type'', JString ''text'') # str_member js ''text'' s)]"

definition loads_or :: "jansson \<Rightarrow> json_t \<Rightarrow> string \<Rightarrow> json_t" where
  "loads_or js dflt txt = (case json_loads js txt of Inl _ \<Rightarrow> dflt | Inr j \<Rightarrow> j)"

lemma json_is_objectE:
  assumes "json_is_object j"
  obtains ms where "j = Some (JObject ms)"
  using assms by (cases j rule: json_is_object.cases) auto

lemma json_is_arrayE:
  assumes "json_is_array j"
  obtains xs where "j = Some (JArray xs)"
  using assms by (cases j rule: json_is_array.cases) auto

section \<open>Tool results\<close>

text \<open>\<open>mc2dbd_tool_result\<close> of src/mc2dbd/src/dispatch.h.\<close>

record mc2dbd_tool_result =
  is_error :: bool
  error_code :: "string option"
  error_message :: "string option"
  content :: "json_t option"
  structured :: "json_t option"

definition mc2dbd_tool_result_init :: mc2dbd_tool_result where
  "mc2dbd_tool_result_init = \<lparr>is_error = False, error_code = None, error_message = None, content = None, structured = None\<rparr>"

text \<open>Constants of src/mc2dbd/src/common.h.\<close>

definition MC2DBD_PROTOCOL_VER :: string where "MC2DBD_PROTOCOL_VER = ''2025-11-25''"
definition MC2DB_ERR_INTERNAL :: string where "MC2DB_ERR_INTERNAL = ''INTERNAL_ERROR''"
definition MC2DB_ERR_TOOL_EXECUTION :: string where "MC2DB_ERR_TOOL_EXECUTION = ''TOOL_EXECUTION_ERROR''"
definition MC2DB_ERR_UPSTREAM :: string where "MC2DB_ERR_UPSTREAM = ''UPSTREAM_ERROR''"

text \<open>What every dispatcher owes its caller: exactly the errors carry a code and a message.\<close>

definition error_complete :: "mc2dbd_tool_result \<Rightarrow> bool" where
  "error_complete r \<longleftrightarrow>
     (is_error r \<longleftrightarrow> error_code r \<noteq> None) \<and> (is_error r \<longleftrightarrow> error_message r \<noteq> None)"

lemma error_complete_init: "error_complete mc2dbd_tool_result_init"
  by (simp add: error_complete_def mc2dbd_tool_result_init_def)

end
