(* ===== verification/Pg_Client.thy ===== *)
theory Pg_Client
  imports Prelude
begin

text \<open>
  The libpq calls of the listener. The server is a parameter: it answers each statement according
  to all statements sent on the connection so far, so the state of a connection is that history.
  \<open>Tuples\<close> carries the rows of \<open>PGRES_TUPLES_OK\<close> (NULL is \<open>None\<close>), \<open>PgError\<close> the error message of any
  failed status.
\<close>

type_synonym stmt = "string \<times> string option list"

datatype pg_result =
    Tuples "string option list list"
  | CommandOk
  | PgError string

type_synonym server = "stmt list \<Rightarrow> pg_result"

definition pq_exec_params :: "server \<Rightarrow> string \<Rightarrow> string option list \<Rightarrow> stmt list \<Rightarrow> pg_result \<times> stmt list" where
  "pq_exec_params srv sql params h = (srv (h @ [(sql, params)]), h @ [(sql, params)])"

definition pq_exec :: "server \<Rightarrow> string \<Rightarrow> stmt list \<Rightarrow> pg_result \<times> stmt list" where
  "pq_exec srv sql h = pq_exec_params srv sql [] h"

definition pq_getisnull :: "string option list \<Rightarrow> nat \<Rightarrow> bool" where
  "pq_getisnull row c \<longleftrightarrow> row ! c = None"

definition pq_getvalue :: "string option list \<Rightarrow> nat \<Rightarrow> string" where
  "pq_getvalue row c = (case row ! c of None \<Rightarrow> [] | Some s \<Rightarrow> s)"

definition pg_strdup_or_null :: "string option list \<Rightarrow> nat \<Rightarrow> string option" where
  "pg_strdup_or_null row c = (if pq_getisnull row c then None else Some (pq_getvalue row c))"

lemma pg_strdup_or_null_nth [simp]: "pg_strdup_or_null row c = row ! c"
  by (auto simp: pg_strdup_or_null_def pq_getisnull_def pq_getvalue_def split: option.splits)

text \<open>\<open>PQresultErrorMessage\<close>: empty for a result that is not an error.\<close>

fun pq_error_message :: "pg_result \<Rightarrow> string" where
  "pq_error_message (PgError m) = m"
| "pq_error_message _ = []"

text \<open>
  \<open>strtoll\<close> in base 10: leading white space, an optional sign, then digits, saturating at the limits of
  64 bits. \<open>atoi\<close> keeps the low 32 bits of that.
\<close>

fun digits_of :: "int \<Rightarrow> string \<Rightarrow> int" where
  "digits_of acc [] = acc"
| "digits_of acc (c # cs) =
     (if 48 \<le> (of_char c :: int) \<and> (of_char c :: int) \<le> 57
      then digits_of (acc * 10 + (of_char c - 48)) cs else acc)"

definition strtoll10 :: "string \<Rightarrow> int" where
  "strtoll10 s =
     (let v = (case dropWhile c_isspace s of
                 [] \<Rightarrow> 0
               | c # cs \<Rightarrow> (if c = CHR ''-'' then - digits_of 0 cs
                            else if c = CHR ''+'' then digits_of 0 cs else digits_of 0 (c # cs)))
      in max (- (2 ^ 63)) (min (2 ^ 63 - 1) v))"

definition atoi :: "string \<Rightarrow> int" where
  "atoi s = sint (word_of_int (strtoll10 s) :: 32 word)"

lemmas strtoll10_defs = strtoll10_def atoi_def c_isspace_def

definition trim_newlines :: "string \<Rightarrow> string" where
  "trim_newlines s = rev (dropWhile (\<lambda>c. c = CHR 0x0A \<or> c = CHR 0x0D) (rev s))"

section \<open>Integers as text\<close>

definition dec_digit :: "char \<Rightarrow> bool" where
  "dec_digit c \<longleftrightarrow> 48 \<le> (of_char c :: int) \<and> (of_char c :: int) \<le> 57"

lemma digits_of_append: "\<forall>c \<in> set xs. dec_digit c \<Longrightarrow> digits_of acc (xs @ ys) = digits_of (digits_of acc xs) ys"
  by (induction xs arbitrary: acc) (auto simp: dec_digit_def)

lemma of_char_int: "(of_char c :: int) = int (of_char c)"
  by (simp only: of_nat_of_char)

lemma of_char_digit: "n < 10 \<Longrightarrow> (of_char (char_of (48 + n :: nat)) :: int) = 48 + int n"
  by (subst of_char_int) simp

lemma fmt_nat_digits: "\<forall>c \<in> set (fmt_nat n). dec_digit c"
proof (induction n rule: fmt_nat.induct)
  case (1 n)
  then show ?case by (subst fmt_nat.simps) (auto simp: dec_digit_def of_char_digit)
qed

lemma digits_of_fmt_nat: "digits_of 0 (fmt_nat n) = int n"
proof (induction n rule: fmt_nat.induct)
  case (1 n)
  show ?case
  proof (cases "n < 10")
    case True
    then show ?thesis by (subst fmt_nat.simps) (simp add: of_char_digit)
  next
    case False
    with 1 have "digits_of 0 (fmt_nat n) = int (n div 10) * 10 + int (n mod 10)"
      by (subst fmt_nat.simps) (simp add: digits_of_append fmt_nat_digits of_char_digit)
    then show ?thesis by (simp add: zmod_int zdiv_int)
  qed
qed

lemma dec_digit_head: "dec_digit c \<Longrightarrow> \<not> c_isspace c \<and> c \<noteq> CHR ''-'' \<and> c \<noteq> CHR ''+''"
  unfolding dec_digit_def c_isspace_def of_char_int by auto

lemma fmt_nat_head: "\<exists>c cs. fmt_nat n = c # cs \<and> dec_digit c"
  using fmt_nat_digits [of n] by (cases "fmt_nat n") auto

text \<open>What \<open>%lld\<close> printed, \<open>strtoll\<close> reads back; \<open>atoi\<close> does so within 32 bits.\<close>

lemma strtoll10_fmt_nat: "int n < 2 ^ 63 \<Longrightarrow> strtoll10 (fmt_nat n) = int n"
  using fmt_nat_head [of n] digits_of_fmt_nat [of n]
  by (auto simp: strtoll10_def dec_digit_head simp del: digits_of.simps)

lemma strtoll10_minus: "int n \<le> 2 ^ 63 \<Longrightarrow> strtoll10 (CHR ''-'' # fmt_nat n) = - int n"
  by (auto simp: strtoll10_def digits_of_fmt_nat c_isspace_def)

lemma strtoll10_fmt_d: "- (2 ^ 63) \<le> i \<Longrightarrow> i < 2 ^ 63 \<Longrightarrow> strtoll10 (fmt_d i) = i"
  by (simp add: fmt_d_def strtoll10_fmt_nat strtoll10_minus)

lemma sint_of_int_32: "- (2 ^ 31) \<le> i \<Longrightarrow> i < 2 ^ 31 \<Longrightarrow> sint (word_of_int i :: 32 word) = i"
  by (simp add: signed_of_int signed_take_bit_int_eq_self)

lemma atoi_fmt_d: "- (2 ^ 31) \<le> i \<Longrightarrow> i < 2 ^ 31 \<Longrightarrow> atoi (fmt_d i) = i"
  by (simp add: atoi_def strtoll10_fmt_d sint_of_int_32)

section \<open>Histories\<close>

text \<open>Every statement is appended to the history.\<close>

lemma pq_exec_params_history [simp]: "snd (pq_exec_params srv sql params h) = h @ [(sql, params)]"
  by (simp add: pq_exec_params_def)

lemma pq_exec_history [simp]: "snd (pq_exec srv sql h) = h @ [(sql, [])]"
  by (simp add: pq_exec_def)

end
