(* ===== verification/Db_Access.thy ===== *)
theory Db_Access
  imports Json_Value Pg_Client
begin

text \<open>
  src/mc2dbd/src/db.c: the statements the listener sends for discovery, lookup, the request context
  and the audit row, the UUIDs of calls, and the Prometheus text. The server is the parameter of
  \<open>Pg_Client\<close>; the connection attempt and the bytes of /dev/urandom are arguments. Log lines are not
  modelled.
\<close>

section \<open>Connection\<close>

definition search_path_sql :: string where
  "search_path_sql = ''SET search_path TO maludb_core, mc2db, public''"

definition db_open :: "bool \<Rightarrow> server \<Rightarrow> stmt list option" where
  "db_open connected srv =
     (if \<not> connected then None
      else (case pq_exec srv search_path_sql [] of
              (CommandOk, h) \<Rightarrow> Some h
            | _ \<Rightarrow> None))"

definition copy_err :: "nat \<Rightarrow> pg_result \<Rightarrow> string \<Rightarrow> string" where
  "copy_err sz r fallback =
     trim_newlines (snprintf_trunc sz (if pq_error_message r = [] then fallback else pq_error_message r))"

section \<open>Tools\<close>

definition tools_list_sql :: string where
  "tools_list_sql =
     ''SELECT t.tool_id, t.tool_name, t.title, t.description,        t.implementation_type,        COALESCE(t.input_schema,  '' @ squoted ''{}'' @ ''::jsonb) AS input_schema,        COALESCE(t.output_schema, '' @ squoted ''null'' @ ''::jsonb) AS output_schema FROM maludb_core.malu$mc2db_tool t WHERE t.enabled = true ORDER BY t.tool_name''"

definition tool_entry :: "jansson \<Rightarrow> string option list \<Rightarrow> json_t" where
  "tool_entry js row =
     JObject
       (str_member js ''name'' (pq_getvalue row 1)
        @ (if pq_getvalue row 2 \<noteq> [] then str_member js ''title'' (pq_getvalue row 2) else [])
        @ str_member js ''description'' (pq_getvalue row 3)
        @ [(''inputSchema'', (case json_loads js (pq_getvalue row 5) of Inl _ \<Rightarrow> JObject [] | Inr s \<Rightarrow> s))]
        @ (if pq_getvalue row 6 \<noteq> ''null''
           then (case json_loads js (pq_getvalue row 6) of Inl _ \<Rightarrow> [] | Inr s \<Rightarrow> [(''outputSchema'', s)])
           else [])
        @ [(''_meta'', JObject (str_member js ''implementation_type'' (pq_getvalue row 4)
                             @ [(''tool_id'', JInteger (strtoll10 (pq_getvalue row 0)))]))])"

definition db_tools_list :: "jansson \<Rightarrow> server \<Rightarrow> stmt list \<Rightarrow> (string + json_t) \<times> stmt list" where
  "db_tools_list js srv h =
     (case pq_exec srv tools_list_sql h of
        (Tuples rows, h') \<Rightarrow> (Inr (JArray (map (tool_entry js) rows)), h')
      | (r, h') \<Rightarrow> (Inl (copy_err 512 r ''tools/list query failed''), h'))"

definition tool_lookup_sql :: string where
  "tool_lookup_sql =
     ''SELECT t.tool_id, t.tool_name, t.implementation_type, t.enabled,        sf.function_signature::text AS function_signature,        sf.transaction_mode,        sf.pinned_search_path FROM maludb_core.malu$mc2db_tool t LEFT JOIN maludb_core.malu$mc2db_tool_sql_function sf USING (tool_id) WHERE t.tool_name = $1''"

definition opt_member :: "jansson \<Rightarrow> string \<Rightarrow> string option list \<Rightarrow> nat \<Rightarrow> (string \<times> json_t) list" where
  "opt_member js k row c = (if pq_getisnull row c then [] else str_member js k (pq_getvalue row c))"

definition tool_meta_of_row :: "jansson \<Rightarrow> string option list \<Rightarrow> json_t" where
  "tool_meta_of_row js row =
     JObject
       ([(''tool_id'', JInteger (strtoll10 (pq_getvalue row 0)))]
        @ str_member js ''tool_name'' (pq_getvalue row 1) @ str_member js ''implementation_type'' (pq_getvalue row 2)
        @ [(''enabled'', if starts_with ''t'' (pq_getvalue row 3) then JTrue else JFalse)]
        @ opt_member js ''function_signature'' row 4 @ opt_member js ''transaction_mode'' row 5
        @ opt_member js ''pinned_search_path'' row 6)"

definition db_tool_lookup :: "jansson \<Rightarrow> server \<Rightarrow> string \<Rightarrow> stmt list \<Rightarrow> (string + json_t) \<times> stmt list" where
  "db_tool_lookup js srv name h =
     (case pq_exec_params srv tool_lookup_sql [Some name] h of
        (Tuples [], h') \<Rightarrow> (Inl (snprintf_trunc 512 (''tool not found: '' @ name)), h')
      | (Tuples (row # _), h') \<Rightarrow> (Inr (tool_meta_of_row js row), h')
      | (r, h') \<Rightarrow> (Inl (copy_err 512 r ''tool lookup failed''), h'))"

section \<open>The request context\<close>

definition begin_request_sql :: string where
  "begin_request_sql = ''SELECT mc2db._begin_request($1::uuid, $2)''"

definition db_begin_request :: "server \<Rightarrow> string \<Rightarrow> string option \<Rightarrow> stmt list \<Rightarrow> (string + unit) \<times> stmt list" where
  "db_begin_request srv call_id_uuid name h =
     (case pq_exec_params srv begin_request_sql [Some call_id_uuid, name] h of
        (Tuples _, h') \<Rightarrow> (Inr (), h')
      | (r, h') \<Rightarrow> (Inl (copy_err 512 r ''_begin_request failed''), h'))"

definition end_request_sql :: string where
  "end_request_sql =
     ''SELECT call_id, tool_name, payload, text_blocks, error_code, error_msg FROM mc2db._end_request()''"

definition json_member :: "jansson \<Rightarrow> string \<Rightarrow> string option list \<Rightarrow> nat \<Rightarrow> (string \<times> json_t) list" where
  "json_member js k row c =
     (if pq_getisnull row c then []
      else (case json_loads js (pq_getvalue row c) of Inl _ \<Rightarrow> [] | Inr j \<Rightarrow> [(k, j)]))"

text \<open>\<open>None\<close> is the NULL of a failed query; no row gives JSON null.\<close>

definition db_end_request :: "jansson \<Rightarrow> server \<Rightarrow> stmt list \<Rightarrow> json_t option \<times> stmt list" where
  "db_end_request js srv h =
     (case pq_exec srv end_request_sql h of
        (Tuples [], h') \<Rightarrow> (Some JNull, h')
      | (Tuples (row # _), h') \<Rightarrow>
          (Some (JObject (json_member js ''payload'' row 2 @ json_member js ''text_blocks'' row 3
                          @ opt_member js ''error_code'' row 4 @ opt_member js ''error_msg'' row 5)), h')
      | (r, h') \<Rightarrow> (None, h'))"

section \<open>Audit\<close>

definition audit_sql :: string where
  "audit_sql =
     ''INSERT INTO maludb_core.malu$mc2db_invocation  (call_id, tool_id, tool_name, implementation_type,    request_user, database_role, success, error_code,    error_message, started_at, finished_at, duration_ms) VALUES ($1::uuid, $2::bigint, $3, $4, $5, current_user::name,         $6::boolean, $7, $8, now(), now(), $9::integer)''"

record audit_row =
  aud_call_id :: string
  aud_tool_id :: int
  aud_tool_name :: "string option"
  aud_impl :: string
  aud_user :: "string option"
  aud_success :: bool
  aud_error_code :: "string option"
  aud_error_message :: "string option"
  aud_duration_ms :: int

definition audit_params :: "audit_row \<Rightarrow> string option list" where
  "audit_params a =
     [Some (aud_call_id a), (if aud_tool_id a \<noteq> 0 then Some (fmt_d (aud_tool_id a)) else None), aud_tool_name a,
      Some (aud_impl a), aud_user a, Some (if aud_success a then ''t'' else ''f''), aud_error_code a,
      aud_error_message a, Some (fmt_d (aud_duration_ms a))]"

definition db_audit_write :: "server \<Rightarrow> audit_row \<Rightarrow> stmt list \<Rightarrow> bool \<times> stmt list" where
  "db_audit_write srv a h =
     (case pq_exec_params srv audit_sql (audit_params a) h of
        (r, h') \<Rightarrow> (r = CommandOk, h'))"

section \<open>UUIDs\<close>

definition hex_digit :: "nat \<Rightarrow> char" where
  "hex_digit n = ''0123456789abcdef'' ! (n mod 16)"

definition hex_byte :: "8 word \<Rightarrow> string" where
  "hex_byte b = [hex_digit (unat b div 16), hex_digit (unat b)]"

definition hex_bytes :: "8 word list \<Rightarrow> string" where
  "hex_bytes bs = concat (map hex_byte bs)"

text \<open>\<open>random\<close> is what the 16 bytes hold after the read of /dev/urandom, or zeros.\<close>

definition uuid_bits :: "8 word list \<Rightarrow> 8 word list" where
  "uuid_bits b = b[6 := or (and (b ! 6) 0x0F) 0x40, 8 := or (and (b ! 8) 0x3F) 0x80]"

definition db_make_uuid :: "8 word list \<Rightarrow> string" where
  "db_make_uuid random =
     (let b = uuid_bits random in
      hex_bytes (take 4 b) @ ''-'' @ hex_bytes (take 2 (drop 4 b)) @ ''-'' @ hex_bytes (take 2 (drop 6 b)) @ ''-''
      @ hex_bytes (take 2 (drop 8 b)) @ ''-'' @ hex_bytes (take 6 (drop 10 b)))"

section \<open>Metrics\<close>

text \<open>The buffer: \<open>m_len\<close> is \<open>*len\<close>, \<open>m_text\<close> the C string in it.\<close>

record metrics_buf =
  m_len :: nat
  m_text :: string

definition METRICS_CAP :: nat where "METRICS_CAP = 65536"

definition metrics_append :: "string \<Rightarrow> metrics_buf \<Rightarrow> metrics_buf" where
  "metrics_append s m =
     (if METRICS_CAP \<le> m_len m then m
      else if METRICS_CAP - m_len m \<le> length s
      then m\<lparr>m_text := take (m_len m) (m_text m) @ snprintf_trunc (METRICS_CAP - m_len m) s\<rparr>
      else \<lparr>m_len = m_len m + length s, m_text = take (m_len m) (m_text m) @ s\<rparr>)"

text \<open>The loop of \<open>prom_label_escape\<close>; \<open>j\<close> is the number of characters written.\<close>

fun escape_loop :: "nat \<Rightarrow> nat \<Rightarrow> string \<Rightarrow> string" where
  "escape_loop out_sz j [] = []"
| "escape_loop out_sz j (c # cs) =
     (if j + 3 < out_sz
      then (if c = CHR 0x5C \<or> c = CHR 0x22 then CHR 0x5C # c # escape_loop out_sz (j + 2) cs
            else if c = CHR 0x0A then CHR 0x5C # CHR ''n'' # escape_loop out_sz (j + 2) cs
            else c # escape_loop out_sz (j + 1) cs)
      else [])"

definition prom_label_escape :: "nat \<Rightarrow> string \<Rightarrow> string" where
  "prom_label_escape out_sz s = take (out_sz - 1) (escape_loop out_sz 0 s)"

definition nl :: string where "nl = [CHR 0x0A]"
definition dq :: string where "dq = [CHR 0x22]"

definition invocations_sql :: string where
  "invocations_sql =
     ''SELECT tool_name, success::text, count(*)::bigint,        coalesce(sum(duration_ms),0)::bigint FROM maludb_core.'' @ dq @ ''malu$mc2db_invocation'' @ dq @ '' GROUP BY tool_name, success ORDER BY tool_name, success''"

definition model_requests_sql :: string where
  "model_requests_sql =
     ''SELECT status, count(*)::bigint FROM maludb_core.'' @ dq @ ''malu$model_request'' @ dq @ '' GROUP BY status ORDER BY status''"

definition metric_header :: "string \<Rightarrow> string \<Rightarrow> string \<Rightarrow> string" where
  "metric_header name help kind =
     ''# HELP '' @ name @ '' '' @ help @ nl @ ''# TYPE '' @ name @ '' '' @ kind @ nl"

definition invocation_line :: "string \<Rightarrow> nat \<Rightarrow> string option list \<Rightarrow> string" where
  "invocation_line name c row =
     name @ ''{tool='' @ dq @ prom_label_escape 256 (pq_getvalue row 0) @ dq @ '',success='' @ dq
     @ pq_getvalue row 1 @ dq @ ''} '' @ pq_getvalue row c @ nl"

definition status_line :: "string option list \<Rightarrow> string" where
  "status_line row =
     ''maludb_model_request_count{status='' @ dq @ pq_getvalue row 0 @ dq @ ''} '' @ pq_getvalue row 1 @ nl"

fun append_all :: "string list \<Rightarrow> metrics_buf \<Rightarrow> metrics_buf" where
  "append_all [] m = m"
| "append_all (s # ss) m = append_all ss (metrics_append s m)"

definition invocation_lines :: "pg_result \<Rightarrow> string list" where
  "invocation_lines r =
     (case r of
        Tuples rows \<Rightarrow>
          metric_header ''maludb_mc2dbd_invocations_total'' ''Total MC2DB tool invocations.'' ''counter''
          # map (invocation_line ''maludb_mc2dbd_invocations_total'' 2) rows
          @ metric_header ''maludb_mc2dbd_invocation_duration_ms_sum''
              ''Sum of MC2DB tool invocation durations in ms.'' ''counter''
          # map (invocation_line ''maludb_mc2dbd_invocation_duration_ms_sum'' 3) rows
      | _ \<Rightarrow> [])"

definition status_lines :: "pg_result \<Rightarrow> string list" where
  "status_lines r =
     (case r of
        Tuples rows \<Rightarrow>
          metric_header ''maludb_model_request_count'' ''Model request rows grouped by status.'' ''gauge''
          # map status_line rows
      | _ \<Rightarrow> [])"

definition db_metrics_text :: "server \<Rightarrow> stmt list \<Rightarrow> string \<times> stmt list" where
  "db_metrics_text srv h =
     (case pq_exec srv invocations_sql h of
        (r1, h1) \<Rightarrow>
          (case pq_exec srv model_requests_sql h1 of
             (r2, h2) \<Rightarrow>
               (m_text (append_all
                  ([metric_header ''maludb_mc2dbd_up'' ''1 when the listener has PG connectivity.'' ''gauge''
                      @ ''maludb_mc2dbd_up 1'' @ nl]
                   @ invocation_lines r1 @ status_lines r2)
                  \<lparr>m_len = 0, m_text = []\<rparr>), h2)))"

section \<open>Label values\<close>

text \<open>Reading a label value of the exposition format back; \<open>None\<close> for an ill-formed one.\<close>

fun label_unescape :: "string \<Rightarrow> string option" where
  "label_unescape [] = Some []"
| "label_unescape [c] = (if c = CHR 0x5C \<or> c = CHR 0x22 \<or> c = CHR 0x0A then None else Some [c])"
| "label_unescape (c # d # s) =
     (if c = CHR 0x5C
      then (if d = CHR ''n'' then map_option (Cons (CHR 0x0A)) (label_unescape s)
            else if d = CHR 0x5C \<or> d = CHR 0x22 then map_option (Cons d) (label_unescape s) else None)
      else if c = CHR 0x22 \<or> c = CHR 0x0A then None
      else map_option (Cons c) (label_unescape (d # s)))"

lemma label_unescape_plain:
  "c \<noteq> CHR 0x5C \<Longrightarrow> c \<noteq> CHR 0x22 \<Longrightarrow> c \<noteq> CHR 0x0A \<Longrightarrow>
   label_unescape (c # s) = map_option (Cons c) (label_unescape s)"
  by (cases s) simp_all

lemma escape_loop_length: "j < sz \<Longrightarrow> j + length (escape_loop sz j s) < sz"
proof (induction sz j s rule: escape_loop.induct)
  case (2 sz j c cs)
  then show ?case by auto
qed simp

lemma escape_loop_prefix: "\<exists>n. label_unescape (escape_loop sz j s) = Some (take n s)"
proof (induction sz j s rule: escape_loop.induct)
  case (1 sz j)
  then show ?case by simp
next
  case (2 sz j c cs)
  show ?case
  proof (cases "j + 3 < sz")
    case False
    then show ?thesis by (intro exI [of _ 0]) simp
  next
    case True
    consider "c = CHR 0x5C \<or> c = CHR 0x22" | "c = CHR 0x0A" | "c \<noteq> CHR 0x5C" "c \<noteq> CHR 0x22" "c \<noteq> CHR 0x0A" by blast
    then show ?thesis
    proof cases
      case 1
      with "2.IH"(1) True obtain n where "label_unescape (escape_loop sz (j + 2) cs) = Some (take n cs)" by auto
      with 1 True show ?thesis by (intro exI [of _ "Suc n"]) auto
    next
      case 2
      with "2.IH"(2) True obtain n where "label_unescape (escape_loop sz (j + 2) cs) = Some (take n cs)" by auto
      with 2 True show ?thesis by (intro exI [of _ "Suc n"]) auto
    next
      case 3
      with "2.IH"(3) True obtain n where "label_unescape (escape_loop sz (j + 1) cs) = Some (take n cs)" by auto
      with 3 True show ?thesis by (intro exI [of _ "Suc n"]) (simp add: label_unescape_plain)
    qed
  qed
qed

lemma escape_loop_whole:
  "j + 2 * length s + 2 < sz \<Longrightarrow> label_unescape (escape_loop sz j s) = Some s"
proof (induction sz j s rule: escape_loop.induct)
  case (2 sz j c cs)
  then show ?case by (cases "c = CHR 0x5C \<or> c = CHR 0x22"; cases "c = CHR 0x0A") (auto simp: label_unescape_plain)
qed simp

text \<open>
  A metric label is always well formed: what \<open>prom_label_escape\<close> writes fits its buffer with the
  terminating NUL, reads back as a prefix of the input (an escape is never cut in two), and as the
  whole input when that is short enough.
\<close>

lemma prom_label_roundtrip:
  assumes "0 < out_sz"
  shows "length (prom_label_escape out_sz s) < out_sz \<and>
    (\<exists>n. label_unescape (prom_label_escape out_sz s) = Some (take n s)) \<and>
    (2 * length s + 2 < out_sz \<longrightarrow> label_unescape (prom_label_escape out_sz s) = Some s)"
proof -
  have "prom_label_escape out_sz s = escape_loop out_sz 0 s"
    using escape_loop_length [OF assms, of s] by (simp add: prom_label_escape_def)
  then show ?thesis
    using escape_loop_length [OF assms, of s] escape_loop_prefix [of out_sz 0 s] escape_loop_whole [of 0 s out_sz]
    by simp
qed

lemma prom_label_roundtrip_example:
  "label_unescape (prom_label_escape 256 [CHR ''a'', CHR 0x22, CHR 0x0A]) = Some [CHR ''a'', CHR 0x22, CHR 0x0A]"
  using prom_label_roundtrip [of 256 "[CHR ''a'', CHR 0x22, CHR 0x0A]"] by simp

section \<open>Call ids\<close>

lemma unat_masked_or:
  fixes b m hi :: "8 word"
  assumes "m = mask n" "and m hi = 0" "n < 8" "unat hi + 2 ^ n \<le> 256"
  shows "\<exists>r < 2 ^ n. unat (or (and b m) hi) = unat hi + r"
proof -
  have "and (and b m) hi = 0" using assms(2) by (simp add: and.assoc)
  then have "or (and b m) hi = and b m + hi" by (simp add: disjunctive_add_eq_or)
  moreover have r: "unat (and b m) < 2 ^ n"
    using assms(1,3) by (simp add: take_bit_eq_mask [symmetric] unsigned_take_bit_eq)
  ultimately have "unat (or (and b m) hi) = unat (and b m) + unat hi"
    using assms(4) by (simp add: unat_word_ariths)
  with r show ?thesis by (intro exI [of _ "unat (and b m)"]) simp
qed

lemma uuid_version_nibble: "unat (or (and b 0x0F) 0x40 :: 8 word) div 16 = 4"
proof -
  obtain r where "r < 2 ^ 4" "unat (or (and b 0x0F) 0x40 :: 8 word) = unat (0x40 :: 8 word) + r"
    using unat_masked_or [of "0x0F" 4 "0x40" b] by (auto simp: mask_eq_exp_minus_1)
  then show ?thesis by simp
qed

lemma uuid_variant_nibble: "unat (or (and b 0x3F) 0x80 :: 8 word) div 16 \<in> {8, 9, 10, 11}"
proof -
  obtain r where "r < 2 ^ 6" "unat (or (and b 0x3F) 0x80 :: 8 word) = unat (0x80 :: 8 word) + r"
    using unat_masked_or [of "0x3F" 6 "0x80" b] by (auto simp: mask_eq_exp_minus_1)
  then show ?thesis by auto
qed

lemma hex_bytes_simps [simp]: "hex_bytes [] = []" "hex_bytes (b # bs) = hex_byte b @ hex_bytes bs"
  by (simp_all add: hex_bytes_def)

text \<open>
  Every call id has the shape of a version 4 UUID, for any 16 bytes the random device delivers.
\<close>

lemma make_uuid_v4:
  assumes "length b = 16"
  shows "length (db_make_uuid b) = 36 \<and> db_make_uuid b ! 14 = CHR ''4'' \<and> db_make_uuid b ! 19 \<in> set ''89ab'' \<and>
    (\<forall>i \<in> {8, 13, 18, 23}. db_make_uuid b ! i = CHR ''-'')"
proof -
  from assms obtain b0 b1 b2 b3 b4 b5 b6 b7 b8 b9 b10 b11 b12 b13 b14 b15 where
    b: "b = [b0, b1, b2, b3, b4, b5, b6, b7, b8, b9, b10, b11, b12, b13, b14, b15]"
    by (auto simp: numeral_eq_Suc length_Suc_conv)
  have u: "db_make_uuid b =
      hex_byte b0 @ hex_byte b1 @ hex_byte b2 @ hex_byte b3 @ ''-'' @ hex_byte b4 @ hex_byte b5 @ ''-''
      @ hex_byte (or (and b6 0x0F) 0x40) @ hex_byte b7 @ ''-'' @ hex_byte (or (and b8 0x3F) 0x80) @ hex_byte b9 @ ''-''
      @ hex_byte b10 @ hex_byte b11 @ hex_byte b12 @ hex_byte b13 @ hex_byte b14 @ hex_byte b15"
    by (simp add: b db_make_uuid_def uuid_bits_def)
  have "hex_digit 4 = CHR ''4''" "hex_digit 8 = CHR ''8''" "hex_digit 9 = CHR ''9''" "hex_digit 10 = CHR ''a''"
    "hex_digit 11 = CHR ''b''" by (simp_all add: hex_digit_def)
  with uuid_version_nibble [of b6] uuid_variant_nibble [of b8] show ?thesis
    by (auto simp: u hex_byte_def)
qed

end
