(* ===== verification/Exec_Child.thy ===== *)
theory Exec_Child
  imports Prelude
begin

text \<open>
  \<open>run_child\<close> of src/mc2dbd/src/exec.c: the loop that feeds the child's stdin, drains its stdout and
  stderr into bounded buffers and enforces the deadline with SIGTERM and SIGKILL. What the operating
  system answers in one iteration (the clock, \<open>select\<close>, \<open>write\<close>, \<open>read\<close>) is one \<open>iter_input\<close>; a run is
  a list of them, and a list that ends before the loop does leaves it running. \<open>read\<close> delivers at
  most the count asked for, \<open>write\<close> takes at most the bytes offered.
\<close>

section \<open>The loop\<close>

datatype select_result =
    SelEintr
  | SelError string
  | SelTimeout
  | SelReady bool bool bool

datatype write_result = Wrote nat | WriteAgain | WriteError

datatype read_result = Got string | ReadAgain | ReadError

record iter_input =
  clock_ms :: int
  sel :: select_result
  wr :: write_result
  rd_out :: read_result
  rd_err :: read_result

datatype signal = SIGTERM | SIGKILL

record child_state =
  sin_open :: bool
  sout_open :: bool
  serr_open :: bool
  stdin_off :: nat
  out_buf :: string
  err_buf :: string
  deadline :: int
  killed_term :: bool
  killed_kill :: bool
  timed_out :: bool
  signals :: "signal list"

record child_params =
  stdin_len :: nat
  out_cap :: nat
  err_cap :: nat

datatype 'a loop_outcome = Continue 'a | Break 'a | IoErr 'a string

definition EXEC_KILL_GRACE_MS :: int where "EXEC_KILL_GRACE_MS = 500"

definition feed_stdin :: "child_params \<Rightarrow> iter_input \<Rightarrow> bool \<Rightarrow> child_state \<Rightarrow> child_state" where
  "feed_stdin p i ready s =
     (if sin_open s \<and> ready
      then (let s1 = (case wr i of
                        Wrote n \<Rightarrow> s\<lparr>stdin_off := stdin_off s + min n (stdin_len p - stdin_off s)\<rparr>
                      | WriteAgain \<Rightarrow> s
                      | WriteError \<Rightarrow> s\<lparr>sin_open := False\<rparr>)
            in if stdin_len p \<le> stdin_off s1 then s1\<lparr>sin_open := False\<rparr> else s1)
      else s)"

definition send_term :: "child_state \<Rightarrow> child_state" where
  "send_term s = (if killed_term s then s else s\<lparr>signals := signals s @ [SIGTERM], killed_term := True\<rparr>)"

definition drain_stdout :: "child_params \<Rightarrow> iter_input \<Rightarrow> bool \<Rightarrow> child_state \<Rightarrow> child_state" where
  "drain_stdout p i ready s =
     (if sout_open s \<and> ready
      then (if length (out_buf s) < out_cap p - 1
            then (case rd_out i of
                    Got bs \<Rightarrow>
                      (if bs = [] then s\<lparr>sout_open := False\<rparr>
                       else s\<lparr>out_buf := out_buf s @ take (out_cap p - 1 - length (out_buf s)) bs\<rparr>)
                  | ReadAgain \<Rightarrow> s
                  | ReadError \<Rightarrow> s\<lparr>sout_open := False\<rparr>)
            else (send_term s)\<lparr>sout_open := False\<rparr>)
      else s)"

definition drain_stderr :: "child_params \<Rightarrow> iter_input \<Rightarrow> bool \<Rightarrow> child_state \<Rightarrow> child_state" where
  "drain_stderr p i ready s =
     (if serr_open s \<and> ready
      then (if length (err_buf s) < err_cap p - 1
            then (case rd_err i of
                    Got bs \<Rightarrow>
                      (if bs = [] then s\<lparr>serr_open := False\<rparr>
                       else s\<lparr>err_buf := err_buf s @ take (err_cap p - 1 - length (err_buf s)) bs\<rparr>)
                  | ReadAgain \<Rightarrow> s
                  | ReadError \<Rightarrow> s\<lparr>serr_open := False\<rparr>)
            else (case rd_err i of
                    Got bs \<Rightarrow> (if bs = [] then s\<lparr>serr_open := False\<rparr> else s)
                  | ReadAgain \<Rightarrow> s
                  | ReadError \<Rightarrow> s\<lparr>serr_open := False\<rparr>))
      else s)"

text \<open>The deadline has passed: SIGTERM and a grace period first, then SIGKILL and out of the loop.\<close>

definition on_deadline :: "int \<Rightarrow> child_state \<Rightarrow> child_state loop_outcome" where
  "on_deadline now s =
     (let s1 = s\<lparr>timed_out := True\<rparr> in
      if \<not> killed_term s1
      then Continue (s1\<lparr>signals := signals s1 @ [SIGTERM], killed_term := True,
                        deadline := now + EXEC_KILL_GRACE_MS\<rparr>)
      else if \<not> killed_kill s1
      then Break (s1\<lparr>signals := signals s1 @ [SIGKILL], killed_kill := True\<rparr>)
      else Break s1)"

definition child_iter :: "child_params \<Rightarrow> iter_input \<Rightarrow> child_state \<Rightarrow> child_state loop_outcome" where
  "child_iter p i s =
     (if \<not> sin_open s \<and> \<not> sout_open s \<and> \<not> serr_open s then Break s
      else if sin_open s \<and> stdin_len p \<le> stdin_off s then Continue (s\<lparr>sin_open := False\<rparr>)
      else if deadline s - clock_ms i \<le> 0 then on_deadline (clock_ms i) s
      else (case sel i of
              SelEintr \<Rightarrow> Continue s
            | SelError e \<Rightarrow> IoErr s e
            | SelTimeout \<Rightarrow> Continue s
            | SelReady w ro re \<Rightarrow>
                Continue (drain_stderr p i re (drain_stdout p i ro (feed_stdin p i w s)))))"

fun child_loop :: "child_params \<Rightarrow> iter_input list \<Rightarrow> child_state \<Rightarrow> child_state loop_outcome" where
  "child_loop p [] s = Continue s"
| "child_loop p (i # is) s =
     (case child_iter p i s of
        Continue s' \<Rightarrow> child_loop p is s'
      | Break s' \<Rightarrow> Break s'
      | IoErr s' e \<Rightarrow> IoErr s' e)"

definition child_start :: "int \<Rightarrow> int \<Rightarrow> child_state" where
  "child_start now timeout_ms =
     \<lparr>sin_open = True, sout_open = True, serr_open = True, stdin_off = 0, out_buf = [], err_buf = [],
      deadline = now + timeout_ms, killed_term = False, killed_kill = False, timed_out = False, signals = []\<rparr>"

section \<open>The call\<close>

datatype wait_status = Exited int | Signaled | WaitError

datatype child_result =
    ChildExited int string string
  | ChildTimedOut string string
  | SpawnFailed string

text \<open>
  \<open>spawn\<close> is the text of the error when \<open>pipe\<close> or \<open>fork\<close> fails. \<open>waited\<close> is what \<open>waitpid\<close> reports,
  \<open>None\<close> when the child never ends and \<open>WaitError\<close> when it fails for another reason than EINTR, which
  leaves \<open>status\<close> at 0 and reads as an exit with 0. The call itself yields \<open>None\<close> while it has not
  returned.
\<close>

definition run_child ::
  "string option \<Rightarrow> int \<Rightarrow> child_params \<Rightarrow> int \<Rightarrow> iter_input list \<Rightarrow> wait_status option \<Rightarrow> child_result option" where
  "run_child spawn timeout_ms p now inputs waited =
     (case spawn of
        Some e \<Rightarrow> Some (SpawnFailed e)
      | None \<Rightarrow>
          (case child_loop p inputs (child_start now timeout_ms) of
             Continue s \<Rightarrow> None
           | IoErr s e \<Rightarrow> Some (SpawnFailed e)
           | Break s \<Rightarrow>
               (case waited of
                  None \<Rightarrow> None
                | Some st \<Rightarrow>
                    Some (if timed_out s then ChildTimedOut (out_buf s) (err_buf s)
                          else (case st of
                                  Exited n \<Rightarrow> ChildExited n (out_buf s) (err_buf s)
                                | Signaled \<Rightarrow> ChildExited (- 1) (out_buf s) (err_buf s)
                                | WaitError \<Rightarrow> ChildExited 0 (out_buf s) (err_buf s))))))"

text \<open>The signals the call has sent to the child, in order.\<close>

definition child_signals :: "string option \<Rightarrow> int \<Rightarrow> child_params \<Rightarrow> int \<Rightarrow> iter_input list \<Rightarrow> signal list" where
  "child_signals spawn timeout_ms p now inputs =
     (case spawn of
        Some e \<Rightarrow> []
      | None \<Rightarrow>
          (case child_loop p inputs (child_start now timeout_ms) of
             Continue s \<Rightarrow> signals s
           | IoErr s e \<Rightarrow> signals s
           | Break s \<Rightarrow> signals s))"

text \<open>
  The child's side of the fork, up to \<open>execve\<close>: the identity it takes and the directory it enters.
  \<open>getpwnam\<close> gives uid and gid; the system calls may fail.
\<close>

record child_os =
  child_uid :: nat
  getpwnam :: "string \<Rightarrow> (nat \<times> nat) option"
  setgid_ok :: "nat \<Rightarrow> bool"
  setuid_ok :: "nat \<Rightarrow> bool"
  chdir_ok :: "string \<Rightarrow> bool"
  execve_ok :: "string \<Rightarrow> bool"

datatype child_end = Exit nat | Exec string "(nat \<times> nat) option" "string option"

definition child_identity :: "child_os \<Rightarrow> string option \<Rightarrow> nat + (nat \<times> nat) option" where
  "child_identity os run_as_user =
     (case run_as_user of
        None \<Rightarrow> Inr None
      | Some u \<Rightarrow>
          (if child_uid os \<noteq> 0 then Inr None
           else (case getpwnam os u of
                   None \<Rightarrow> Inr None
                 | Some (uid, gid) \<Rightarrow>
                     (if \<not> setgid_ok os gid then Inl 126
                      else if \<not> setuid_ok os uid then Inl 126
                      else Inr (Some (uid, gid))))))"

definition child_main :: "child_os \<Rightarrow> string option \<Rightarrow> string option \<Rightarrow> string \<Rightarrow> child_end" where
  "child_main os run_as_user working_dir command_path =
     (case child_identity os run_as_user of
        Inl code \<Rightarrow> Exit code
      | Inr ident \<Rightarrow>
          (case working_dir of
             Some d \<Rightarrow>
               (if d \<noteq> [] \<and> \<not> chdir_ok os d then Exit 126
                else if execve_ok os command_path
                then Exec command_path ident (if d \<noteq> [] then Some d else None) else Exit 127)
           | None \<Rightarrow> (if execve_ok os command_path then Exec command_path ident None else Exit 127)))"

section \<open>Invariant\<close>

text \<open>
  The buffers keep one byte for the terminating NUL; SIGKILL is sent only after SIGTERM and each at
  most once; SIGTERM before the deadline is sent only when the output has reached its limit, and at
  the deadline it has been sent.
\<close>

definition child_ok :: "child_params \<Rightarrow> child_state \<Rightarrow> bool" where
  "child_ok p s \<longleftrightarrow>
     length (out_buf s) \<le> out_cap p - 1 \<and> length (err_buf s) \<le> err_cap p - 1 \<and> stdin_off s \<le> stdin_len p \<and>
     (killed_kill s \<longrightarrow> timed_out s) \<and> (timed_out s \<longrightarrow> killed_term s) \<and>
     (killed_term s \<and> \<not> timed_out s \<longrightarrow> length (out_buf s) = out_cap p - 1) \<and>
     signals s = (if killed_term s then [SIGTERM] else []) @ (if killed_kill s then [SIGKILL] else [])"

fun loop_all :: "('a \<Rightarrow> bool) \<Rightarrow> 'a loop_outcome \<Rightarrow> bool" where
  "loop_all P (Continue s) = P s"
| "loop_all P (Break s) = P s"
| "loop_all P (IoErr s e) = P s"

lemma feed_stdin_ok: "child_ok p s \<Longrightarrow> child_ok p (feed_stdin p i w s)"
  by (auto simp: feed_stdin_def child_ok_def Let_def split: write_result.splits)

lemma drain_stdout_ok: "child_ok p s \<Longrightarrow> child_ok p (drain_stdout p i r s)"
  by (auto simp: drain_stdout_def child_ok_def send_term_def split: read_result.splits)

lemma drain_stderr_ok: "child_ok p s \<Longrightarrow> child_ok p (drain_stderr p i r s)"
  by (auto simp: drain_stderr_def child_ok_def split: read_result.splits)

lemma on_deadline_ok: "child_ok p s \<Longrightarrow> loop_all (child_ok p) (on_deadline now s)"
  by (auto simp: on_deadline_def child_ok_def Let_def)

lemma close_stdin_ok: "child_ok p s \<Longrightarrow> child_ok p (s\<lparr>sin_open := False\<rparr>)"
  by (simp add: child_ok_def)

lemma child_iter_ok: "child_ok p s \<Longrightarrow> loop_all (child_ok p) (child_iter p i s)"
  by (auto simp: child_iter_def on_deadline_ok drain_stderr_ok drain_stdout_ok feed_stdin_ok close_stdin_ok
      split: select_result.splits)

lemma child_loop_ok: "child_ok p s \<Longrightarrow> loop_all (child_ok p) (child_loop p is s)"
proof (induction "is" arbitrary: s)
  case Nil
  then show ?case by simp
next
  case (Cons i "is")
  then show ?case using child_iter_ok [of p s i] by (auto split: loop_outcome.splits)
qed

lemma child_start_ok: "child_ok p (child_start now timeout)"
  by (simp add: child_ok_def child_start_def)

text \<open>
  C23. Whatever the child and the system do, the child is signalled with nothing, with SIGTERM, or with
  SIGTERM and then SIGKILL. \<open>run_child\<close> returns at most \<open>out_cap - 1\<close> bytes of output and \<open>err_cap - 1\<close>
  bytes of error text, so that the terminating NULs fit the caller's buffers. A call that reports a
  timeout has sent SIGTERM; one that reports an exit has not sent SIGKILL, and has sent SIGTERM only
  if the output filled its buffer.
\<close>

theorem run_child_bounded:
  "child_signals spawn timeout p now inputs \<in> {[], [SIGTERM], [SIGTERM, SIGKILL]} \<and>
   (\<forall>n out err. run_child spawn timeout p now inputs waited = Some (ChildExited n out err) \<longrightarrow>
      length out \<le> out_cap p - 1 \<and> length err \<le> err_cap p - 1 \<and>
      SIGKILL \<notin> set (child_signals spawn timeout p now inputs) \<and>
      (SIGTERM \<in> set (child_signals spawn timeout p now inputs) \<longrightarrow> length out = out_cap p - 1)) \<and>
   (\<forall>out err. run_child spawn timeout p now inputs waited = Some (ChildTimedOut out err) \<longrightarrow>
      length out \<le> out_cap p - 1 \<and> length err \<le> err_cap p - 1 \<and>
      SIGTERM \<in> set (child_signals spawn timeout p now inputs))"
  using child_loop_ok [OF child_start_ok, of p inputs now timeout]
  by (auto simp: run_child_def child_signals_def child_ok_def
      split: option.splits loop_outcome.splits if_splits wait_status.splits)

section \<open>The deadline\<close>

text \<open>The deadline is only ever moved to the current time plus the grace period.\<close>

lemma drain_deadline [simp]:
  "deadline (feed_stdin p i w s) = deadline s" "deadline (drain_stdout p i r s) = deadline s"
  "deadline (drain_stderr p i r s) = deadline s"
  by (auto simp: feed_stdin_def drain_stdout_def drain_stderr_def send_term_def Let_def
      split: write_result.splits read_result.splits)




















definition sample_params :: child_params where
  "sample_params = \<lparr>stdin_len = 3, out_cap = 9, err_cap = 5\<rparr>"


definition sample_output :: iter_input where
  "sample_output = \<lparr>clock_ms = 1, sel = SelReady True True True, wr = Wrote 3, rd_out = Got ''0123456789'', rd_err = Got ''warn!''\<rparr>"

definition sample_eof :: iter_input where
  "sample_eof = \<lparr>clock_ms = 2, sel = SelReady True True True, wr = WriteAgain, rd_out = Got [], rd_err = Got []\<rparr>"

theorem run_child_bounded_witness:
  "run_child None 1000 sample_params 0 [sample_output, sample_eof, sample_eof] (Some (Exited 0))
     = Some (ChildExited 0 ''01234567'' ''warn'') \<and> length ''01234567'' \<le> out_cap sample_params - 1"
proof -
  have "run_child None 1000 sample_params 0 [sample_output, sample_eof, sample_eof] (Some (Exited 0))
     = Some (ChildExited 0 ''01234567'' ''warn'')"
    by code_simp
  with run_child_bounded [of None 1000 sample_params 0 "[sample_output, sample_eof, sample_eof]" "Some (Exited 0)"]
  show ?thesis by blast
qed

end
