(* ===== verification/External_Exec.thy ===== *)
theory External_Exec
  imports Json_Value Pg_Client Exec_Child
begin

text \<open>
  The rest of src/mc2dbd/src/exec.c: the metadata of an external tool, the envelope on its stdin, the
  arguments with their placeholders replaced, its environment, and the dispatcher that turns what
  the child did into a tool result. Memory allocation does not fail. A substitution that never ends is \<open>None\<close>.
\<close>

section \<open>Metadata\<close>

record exec_meta =
  tool_id :: int
  tool_name :: "string option"
  command_path :: "string option"
  argv_template :: json_t
  working_dir :: "string option"
  run_as_user :: "string option"
  environment :: json_t
  timeout_ms :: int
  max_output_bytes :: int

definition EXEC_STDOUT_HARDCAP :: int where "EXEC_STDOUT_HARDCAP = 4194304"
definition EXEC_STDERR_CAP :: nat where "EXEC_STDERR_CAP = 4096"
definition EXEC_DEFAULT_PATH :: string where "EXEC_DEFAULT_PATH = ''/usr/local/bin:/usr/bin:/bin''"

definition set_err :: "jansson \<Rightarrow> string \<Rightarrow> string \<Rightarrow> mc2dbd_tool_result \<Rightarrow> mc2dbd_tool_result" where
  "set_err js code msg r = r\<lparr>is_error := True, error_code := Some code, error_message := Some msg,
     content := Some (text_content js msg)\<rparr>"

definition exec_meta_sql :: string where
  "exec_meta_sql =
     ''SELECT t.tool_name, t.timeout_ms, t.max_output_bytes,        ee.command_path, ee.argv_template::text,        ee.working_dir, ee.run_as_user, ee.environment::text FROM maludb_core.malu$mc2db_tool t JOIN maludb_core.malu$mc2db_tool_external_exec ee USING (tool_id) WHERE t.tool_id = $1''"

definition meta_of_row :: "jansson \<Rightarrow> int \<Rightarrow> string option list \<Rightarrow> exec_meta" where
  "meta_of_row js tid row =
     (let mob = atoi (pq_getvalue row 2); tmo = atoi (pq_getvalue row 1) in
      \<lparr>tool_id = tid, tool_name = pg_strdup_or_null row 0, command_path = pg_strdup_or_null row 3,
       argv_template = loads_or js (JArray []) (if pq_getisnull row 4 then ''[]'' else pq_getvalue row 4),
       working_dir = pg_strdup_or_null row 5, run_as_user = pg_strdup_or_null row 6,
       environment = loads_or js (JObject []) (if pq_getisnull row 7 then ''{}'' else pq_getvalue row 7),
       timeout_ms = (if tmo \<le> 0 then 10000 else tmo),
       max_output_bytes = (if mob \<le> 0 \<or> EXEC_STDOUT_HARDCAP < mob then EXEC_STDOUT_HARDCAP else mob)\<rparr>)"

definition load_exec_meta ::
  "jansson \<Rightarrow> server \<Rightarrow> int \<Rightarrow> stmt list \<Rightarrow> (string + exec_meta) \<times> stmt list" where
  "load_exec_meta js srv tid h =
     (case pq_exec_params srv exec_meta_sql [Some (fmt_d tid)] h of
        (Tuples [], h') \<Rightarrow>
          (Inl (snprintf_trunc 512 (''tool_id '' @ fmt_d tid @ '' has no malu$mc2db_tool_external_exec row'')), h')
      | (Tuples (row # _), h') \<Rightarrow> (Inr (meta_of_row js tid row), h')
      | (r, h') \<Rightarrow>
          (Inl (snprintf_trunc 512 (''external_exec metadata lookup failed: '' @ pq_error_message r)), h'))"

definition build_envelope ::
  "jansson \<Rightarrow> exec_meta \<Rightarrow> string \<Rightarrow> json_t option \<Rightarrow> string option \<Rightarrow> string option" where
  "build_envelope js m call_id_uuid arguments request_user =
     json_dumps js (JObject
       (str_member js ''tool_name'' (case tool_name m of None \<Rightarrow> [] | Some s \<Rightarrow> s)
        @ str_member js ''call_id'' call_id_uuid
        @ [(''arguments'', (case arguments of Some a \<Rightarrow> a | None \<Rightarrow> JObject [])),
           (''context'', JObject
              (str_member js ''request_user'' (case request_user of Some u \<Rightarrow> u | None \<Rightarrow> ''anonymous'')
               @ [(''protocol_version'', JString MC2DBD_PROTOCOL_VER)]))]))"

section \<open>Arguments\<close>

fun value_text :: "jansson \<Rightarrow> json_t \<Rightarrow> string" where
  "value_text js (JString s) = s"
| "value_text js (JInteger i) = fmt_d i"
| "value_text js (JReal r) = fmt_17g js r"
| "value_text js JTrue = ''true''"
| "value_text js JFalse = ''false''"
| "value_text js JNull = ''null''"
| "value_text js v = (case json_dumps js v of None \<Rightarrow> [] | Some s \<Rightarrow> s)"

definition placeholder :: "string \<Rightarrow> string" where
  "placeholder key = ''{{'' @ key @ ''}}''"

text \<open>The loop that replaces the first occurrence until there is none.\<close>

partial_function (option) replace_all :: "string \<Rightarrow> string \<Rightarrow> string \<Rightarrow> string option" where
  "replace_all ph val result =
     (case strstr result ph of
        None \<Rightarrow> Some result
      | Some i \<Rightarrow> replace_all ph val (take i result @ val @ drop (i + length ph) result))"

fun substitute_members :: "jansson \<Rightarrow> (string \<times> json_t) list \<Rightarrow> string \<Rightarrow> string option" where
  "substitute_members js [] result = Some result"
| "substitute_members js ((key, val) # ms) result =
     (case replace_all (placeholder key) (value_text js val) result of
        None \<Rightarrow> None
      | Some r \<Rightarrow> substitute_members js ms r)"

definition substitute_placeholders :: "jansson \<Rightarrow> string \<Rightarrow> json_t option \<Rightarrow> string option" where
  "substitute_placeholders js src arguments = substitute_members js (json_members arguments) src"

fun build_args :: "jansson \<Rightarrow> json_t option \<Rightarrow> json_t list \<Rightarrow> string list option" where
  "build_args js arguments [] = Some []"
| "build_args js arguments (e # es) =
     (case substitute_placeholders js (case e of JString s \<Rightarrow> s | _ \<Rightarrow> []) arguments of
        None \<Rightarrow> None
      | Some a \<Rightarrow> map_option (Cons a) (build_args js arguments es))"

definition build_argv :: "jansson \<Rightarrow> exec_meta \<Rightarrow> string \<Rightarrow> json_t option \<Rightarrow> string list option" where
  "build_argv js m command arguments =
     map_option (Cons command) (build_args js arguments (json_array_items (Some (argv_template m))))"

section \<open>Environment\<close>

definition env_reserved :: "string \<Rightarrow> bool" where
  "env_reserved k \<longleftrightarrow> k = ''PATH'' \<or> k = ''HOME'' \<or> k = ''LD_PRELOAD'' \<or> k = ''LD_LIBRARY_PATH''"

fun env_overrides :: "(string \<times> json_t) list \<Rightarrow> string list" where
  "env_overrides [] = []"
| "env_overrides ((k, v) # ms) =
     (case v of
        JString s \<Rightarrow> (if env_reserved k then env_overrides ms else (k @ ''='' @ s) # env_overrides ms)
      | _ \<Rightarrow> env_overrides ms)"

definition build_envp :: "exec_meta \<Rightarrow> string list" where
  "build_envp m =
     [snprintf_trunc 512 (''PATH='' @ EXEC_DEFAULT_PATH), ''HOME=/tmp'', ''LANG=C.UTF-8'', ''LC_ALL=C.UTF-8'',
      snprintf_trunc 512 (''MALUDB_MC2DB_TOOL='' @ (case tool_name m of None \<Rightarrow> [] | Some s \<Rightarrow> s))]
     @ env_overrides (json_members (Some (environment m)))"

section \<open>The dispatcher\<close>

text \<open>
  What the system does for one call: \<open>access\<close> (the text of the error if the command is not
  executable) and the run of the child.
\<close>

record child_run =
  start_ms :: int
  child_inputs :: "iter_input list"
  child_waited :: "wait_status option"

record exec_os =
  access_error :: "string \<Rightarrow> string option"
  spawn_error :: "string option"
  exec_spawned :: "exec_meta \<Rightarrow> string list \<Rightarrow> string list \<Rightarrow> string \<Rightarrow> child_run"

definition stderr_text :: "nat \<Rightarrow> string \<Rightarrow> string" where
  "stderr_text n err = take n (c_string err)"

text \<open>The result of a child that exited with status 0.\<close>

definition exec_success :: "jansson \<Rightarrow> json_t option \<Rightarrow> mc2dbd_tool_result \<Rightarrow> mc2dbd_tool_result" where
  "exec_success js result out =
     (if json_is_object result
      then (let ct = json_object_get result ''content''; sc = json_object_get result ''structuredContent'';
                o1 = (if json_is_array ct then out\<lparr>content := ct\<rparr> else out);
                o2 = (if sc \<noteq> None then o1\<lparr>structured := sc\<rparr> else o1)
            in if content o2 = None \<and> structured o2 = None
               then o2\<lparr>structured := result, content := Some (text_content js ''ok'')\<rparr>
               else if content o2 = None then o2\<lparr>content := Some (text_content js ''ok'')\<rparr>
               else o2)
      else out\<lparr>content := Some (text_content js ''ok'')\<rparr>)"

definition nonempty_or :: "string \<Rightarrow> string option \<Rightarrow> string" where
  "nonempty_or dflt s = (case s of None \<Rightarrow> dflt | Some t \<Rightarrow> if t = [] then dflt else t)"

definition exec_response :: "jansson \<Rightarrow> json_t \<Rightarrow> mc2dbd_tool_result \<Rightarrow> mc2dbd_tool_result" where
  "exec_response js resp out =
     (if json_is_true (json_object_get (Some resp) ''ok'')
      then exec_success js (json_object_get (Some resp) ''result'') out
      else (let err_obj = json_object_get (Some resp) ''error'';
                code = nonempty_or ''TOOL_EXECUTION_ERROR'' (json_string_value (json_object_get err_obj ''code''));
                msg = nonempty_or ''external_exec reported failure''
                        (json_string_value (json_object_get err_obj ''message''))
            in set_err js code msg out))"

definition exec_outcome :: "jansson \<Rightarrow> exec_meta \<Rightarrow> child_result \<Rightarrow> mc2dbd_tool_result \<Rightarrow> mc2dbd_tool_result" where
  "exec_outcome js m r out =
     (case r of
        SpawnFailed e \<Rightarrow>
          set_err js MC2DB_ERR_INTERNAL (snprintf_trunc 256 (''external_exec spawn failed: '' @ e)) out
      | ChildTimedOut o_text e_text \<Rightarrow>
          set_err js MC2DB_ERR_TOOL_EXECUTION
            (snprintf_trunc 256 (''external_exec timed out after '' @ fmt_d (timeout_ms m) @ '' ms (stderr: ''
               @ stderr_text 200 e_text @ '')'')) out
      | ChildExited n o_text e_text \<Rightarrow>
          (if n \<noteq> 0
           then set_err js MC2DB_ERR_TOOL_EXECUTION
                  (snprintf_trunc 512 (''external_exec exit '' @ fmt_d n @ '' (stderr: ''
                     @ stderr_text 300 e_text @ '')'')) out
           else (case json_loads js o_text of
                   Inl e \<Rightarrow>
                     set_err js MC2DB_ERR_TOOL_EXECUTION
                       (snprintf_trunc 256 (''external_exec produced non-JSON stdout: ''
                          @ take 200 (if e \<noteq> [] then e else ''parse error''))) out
                 | Inr resp \<Rightarrow>
                     (if \<not> json_is_object (Some resp)
                      then set_err js MC2DB_ERR_TOOL_EXECUTION
                             (snprintf_trunc 256 ''external_exec produced non-JSON stdout: parse error'') out
                      else exec_response js resp out))))"

definition exec_params :: "exec_meta \<Rightarrow> string \<Rightarrow> child_params" where
  "exec_params m envelope =
     \<lparr>stdin_len = length envelope, out_cap = nat (max_output_bytes m) + 1, err_cap = EXEC_STDERR_CAP + 1\<rparr>"

text \<open>The child's run depends on its metadata, arguments, environment and stdin.\<close>

definition exec_child :: "exec_os \<Rightarrow> exec_meta \<Rightarrow> string list \<Rightarrow> string \<Rightarrow> child_result option" where
  "exec_child os m argv envelope =
     (let run = exec_spawned os m argv (build_envp m) envelope in
      run_child (spawn_error os) (timeout_ms m) (exec_params m envelope) (start_ms run) (child_inputs run)
        (child_waited run))"

definition exec_run ::
  "jansson \<Rightarrow> exec_os \<Rightarrow> exec_meta \<Rightarrow> string \<Rightarrow> string \<Rightarrow> json_t option \<Rightarrow> string option \<Rightarrow>
   mc2dbd_tool_result \<Rightarrow> mc2dbd_tool_result option" where
  "exec_run js os m command call_id_uuid arguments request_user out =
     (case build_envelope js m call_id_uuid arguments request_user of
        None \<Rightarrow> Some (set_err js MC2DB_ERR_INTERNAL ''failed to build stdin envelope'' out)
      | Some envelope \<Rightarrow>
          (case build_argv js m command arguments of
             None \<Rightarrow> None
           | Some argv \<Rightarrow>
               map_option (\<lambda>r. exec_outcome js m r out)
                 (exec_child os m argv envelope)))"

definition dispatch_external_exec ::
  "jansson \<Rightarrow> server \<Rightarrow> exec_os \<Rightarrow> string \<Rightarrow> json_t option \<Rightarrow> json_t option \<Rightarrow> string option \<Rightarrow>
   mc2dbd_tool_result \<Rightarrow> stmt list \<Rightarrow> mc2dbd_tool_result option \<times> stmt list" where
  "dispatch_external_exec js srv os call_id_uuid tool_meta arguments request_user out h =
     (if json_integer_value (json_object_get tool_meta ''tool_id'') \<le> 0
      then (Some (set_err js MC2DB_ERR_INTERNAL ''external_exec dispatch missing tool_id'' out), h)
      else (case load_exec_meta js srv (json_integer_value (json_object_get tool_meta ''tool_id'')) h of
              (Inl e, h') \<Rightarrow> (Some (set_err js MC2DB_ERR_INTERNAL e out), h')
            | (Inr m, h') \<Rightarrow>
                (case command_path m of
                   None \<Rightarrow> (Some (set_err js MC2DB_ERR_INTERNAL ''external_exec command_path must be absolute'' out), h')
                 | Some cmd \<Rightarrow>
                     (if \<not> starts_with ''/'' cmd
                      then (Some (set_err js MC2DB_ERR_INTERNAL ''external_exec command_path must be absolute'' out), h')
                      else (case access_error os cmd of
                              Some e \<Rightarrow>
                                (Some (set_err js MC2DB_ERR_INTERNAL
                                   (snprintf_trunc 512 (''external_exec command not executable: '' @ cmd
                                      @ '' ('' @ e @ '')'')) out), h')
                            | None \<Rightarrow> (exec_run js os m cmd call_id_uuid arguments request_user out, h'))))))"

section \<open>Placeholders\<close>

definition lbrace :: char where "lbrace = CHR ''{''"
definition rbrace :: char where "rbrace = CHR ''}''"

definition brace_free :: "string \<Rightarrow> bool" where
  "brace_free s \<longleftrightarrow> lbrace \<notin> set s \<and> rbrace \<notin> set s"

lemma placeholder_eq: "placeholder k = lbrace # lbrace # k @ [rbrace, rbrace]"
  by (simp add: placeholder_def lbrace_def rbrace_def)

lemma placeholder_count: "2 \<le> count_list (placeholder k) lbrace"
  by (simp add: placeholder_eq)

lemma placeholder_not_Nil: "placeholder k \<noteq> []"
  by (simp add: placeholder_eq)

text \<open>A value without an opening brace: every replacement removes two braces, so the loop ends.\<close>

lemma replace_all_total:
  assumes "lbrace \<notin> set val"
  shows "\<exists>r. replace_all (placeholder k) val s = Some r \<and> strstr r (placeholder k) = None"
proof (induction "count_list s lbrace" arbitrary: s rule: less_induct)
  case less
  show ?case
  proof (cases "strstr s (placeholder k)")
    case None
    then show ?thesis by (subst replace_all.simps) simp
  next
    case (Some i)
    let ?n = "take i s @ val @ drop (i + length (placeholder k)) s"
    from strstr_SomeD [OF Some] have
      "s = take i s @ placeholder k @ drop (i + length (placeholder k)) s" by blast
    then have "count_list s lbrace = count_list (take i s) lbrace + count_list (placeholder k) lbrace
        + count_list (drop (i + length (placeholder k)) s) lbrace"
      by (metis count_list_append add.assoc)
    moreover have "count_list ?n lbrace = count_list (take i s) lbrace
        + count_list (drop (i + length (placeholder k)) s) lbrace"
      using assms by (simp add: count_list_0_iff [THEN iffD2])
    ultimately have "count_list ?n lbrace < count_list s lbrace" using placeholder_count [of k] by linarith
    from less [OF this] Some show ?thesis by (subst replace_all.simps) simp
  qed
qed

text \<open>A value that contains its own placeholder puts it back each time.\<close>

lemma replace_all_self:
  assumes "val = u @ ph @ v" and "strstr s ph \<noteq> None"
  shows "replace_all ph val s = None"
proof -
  have self: "(\<exists>u v. val = u @ ph @ v) \<longrightarrow> strstr s ph = None" if "replace_all ph val s = Some r" for ph val s r
  proof (rule replace_all.raw_induct [OF _ that, where P = "\<lambda>ph val s r. (\<exists>u v. val = u @ ph @ v) \<longrightarrow> strstr s ph = None"])
    fix f ph val s r
    assume ih: "\<And>ph val s r. f ph val s = Some r \<Longrightarrow> (\<exists>u v. val = u @ ph @ v) \<longrightarrow> strstr s ph = None"
      and body: "(case strstr s ph of None \<Rightarrow> Some s
           | Some i \<Rightarrow> f ph val (take i s @ val @ drop (i + length ph) s)) = Some (r :: string)"
    show "(\<exists>u v. val = u @ ph @ v) \<longrightarrow> strstr s ph = None"
    proof (intro impI)
      assume "\<exists>u v. val = u @ ph @ v"
      then obtain u v where val: "val = u @ ph @ v" by blast
      show "strstr s ph = None"
      proof (rule ccontr)
        assume "strstr s ph \<noteq> None"
        then obtain i where i: "strstr s ph = Some i" by blast
        with body have "f ph val (take i s @ val @ drop (i + length ph) s) = Some r" by simp
        from ih [OF this] val have "strstr (take i s @ val @ drop (i + length ph) s) ph = None" by blast
        then show False unfolding strstr_None_iff val
          by (metis append.assoc)
      qed
    qed
  qed
  show ?thesis
  proof (cases "replace_all ph val s")
    case (Some r)
    from self [OF Some] assms show ?thesis by blast
  qed simp
qed

text \<open>
  C26. When the first tool argument has a text that contains its own placeholder, and the template
  uses it, the substitution loops for ever; the listener's worker never answers.
\<close>

theorem substitute_self_reference_hangs:
  assumes "value_text js val = u @ placeholder key @ v" and "src = a @ placeholder key @ b"
  shows "substitute_placeholders js src (Some (JObject ((key, val) # ms))) = None"
proof -
  have "strstr src (placeholder key) \<noteq> None" unfolding assms(2) strstr_None_iff by blast
  from replace_all_self [OF assms(1) this] show ?thesis by (simp add: substitute_placeholders_def)
qed

section \<open>Templates\<close>

text \<open>A template as literal characters and holes, and its text.\<close>

datatype template_token = Lit char | Hole string

fun template_text :: "template_token list \<Rightarrow> string" where
  "template_text [] = []"
| "template_text (Lit c # ts) = c # template_text ts"
| "template_text (Hole k # ts) = placeholder k @ template_text ts"

fun token_ok :: "template_token \<Rightarrow> bool" where
  "token_ok (Lit c) \<longleftrightarrow> c \<noteq> lbrace \<and> c \<noteq> rbrace"
| "token_ok (Hole k) \<longleftrightarrow> brace_free k"

definition fill :: "string \<Rightarrow> string \<Rightarrow> template_token list \<Rightarrow> template_token list" where
  "fill k val ts = concat (map (\<lambda>t. if t = Hole k then map Lit val else [t]) ts)"

text \<open>What the dispatcher means to produce: holes with an argument get its text, others stay.\<close>

fun render :: "jansson \<Rightarrow> (string \<times> json_t) list \<Rightarrow> template_token \<Rightarrow> template_token list" where
  "render js ms (Lit c) = [Lit c]"
| "render js ms (Hole k) =
     (case map_of ms k of None \<Rightarrow> [Hole k] | Some v \<Rightarrow> map Lit (value_text js v))"

lemma template_text_append: "template_text (a @ b) = template_text a @ template_text b"
  by (induction a rule: template_text.induct) simp_all

lemma template_text_lits: "template_text (map Lit s) = s"
  by (induction s) simp_all

lemma strstr_not_start:
  "\<not> starts_with p (c # cs) \<Longrightarrow> strstr (c # cs) p = map_option Suc (strstr cs p)"
  by (simp add: strstr.simps [of "c # cs"])

lemma strstr_skip_no_lbrace:
  "lbrace \<notin> set w \<Longrightarrow> strstr (w @ t) (placeholder k) = map_option ((+) (length w)) (strstr t (placeholder k))"
proof (induction w)
  case Nil
  then show ?case by (cases "strstr t (placeholder k)") simp_all
next
  case (Cons c w)
  then have "\<not> starts_with (placeholder k) (c # w @ t)" by (auto simp: placeholder_eq starts_with_def)
  with Cons show ?case by (cases "strstr t (placeholder k)") (simp_all add: strstr_not_start)
qed

lemma brace_free_prefix_unique:
  assumes "rbrace \<notin> set a" "rbrace \<notin> set b" "a @ rbrace # x = b @ rbrace # y"
  shows "a = b"
proof -
  have "takeWhile (\<lambda>c. c \<noteq> rbrace) (z @ rbrace # r) = z" if "rbrace \<notin> set z" for z r
    using that by (simp add: takeWhile_tail takeWhile_eq_all_conv) metis
  with assms show ?thesis by metis
qed

lemma strstr_other_hole:
  assumes "brace_free k'" "brace_free k" "k' \<noteq> k"
  shows "strstr (placeholder k' @ t) (placeholder k)
         = map_option ((+) (length (placeholder k'))) (strstr t (placeholder k))"
proof -
  let ?w = "k' @ [rbrace, rbrace]"
  have w: "lbrace \<notin> set ?w" using assms(1) by (auto simp: brace_free_def lbrace_def rbrace_def)
  have 1: "\<not> starts_with (placeholder k) (lbrace # lbrace # ?w @ t)"
  proof
    assume "starts_with (placeholder k) (lbrace # lbrace # ?w @ t)"
    then obtain r where "k' @ rbrace # rbrace # t = k @ rbrace # rbrace # r"
      by (auto simp: starts_with_iff placeholder_eq)
    from brace_free_prefix_unique [OF _ _ this] assms show False by (simp add: brace_free_def)
  qed
  have 2: "\<not> starts_with (placeholder k) (lbrace # ?w @ t)"
    using w by (cases k') (auto simp: starts_with_def placeholder_eq lbrace_def rbrace_def)
  show ?thesis
    using strstr_not_start [OF 1] strstr_not_start [OF 2] strstr_skip_no_lbrace [OF w, of t k]
    by (cases "strstr t (placeholder k)") (simp_all add: placeholder_eq [of k'])
qed

lemma strstr_template_none:
  assumes "list_all token_ok ts" "brace_free k" "Hole k \<notin> set ts"
  shows "strstr (template_text ts @ t) (placeholder k)
         = map_option ((+) (length (template_text ts))) (strstr t (placeholder k))"
  using assms
proof (induction ts rule: template_text.induct)
  case 1
  then show ?case by (cases "strstr t (placeholder k)") simp_all
next
  case (2 c ts)
  then have "lbrace \<notin> set [c]" by auto
  from strstr_skip_no_lbrace [OF this, of "template_text ts @ t" k] 2 show ?case
    by (cases "strstr t (placeholder k)") simp_all
next
  case (3 k' ts)
  then have "strstr (placeholder k' @ template_text ts @ t) (placeholder k)
      = map_option ((+) (length (placeholder k'))) (strstr (template_text ts @ t) (placeholder k))"
    by (intro strstr_other_hole) auto
  with 3 show ?case by (cases "strstr t (placeholder k)") simp_all
qed

lemma strstr_first_hole:
  assumes "list_all token_ok as" "brace_free k" "Hole k \<notin> set as"
  shows "strstr (template_text (as @ Hole k # bs)) (placeholder k) = Some (length (template_text as))"
proof -
  have "strstr (placeholder k @ template_text bs) (placeholder k) = Some 0"
    by (simp add: strstr.simps [of "placeholder k @ _"])
  with strstr_template_none [OF assms, of "placeholder k @ template_text bs"]
  show ?thesis by (simp add: template_text_append)
qed

lemma replace_all_template:
  assumes "list_all token_ok ts" "brace_free k" "brace_free val"
  shows "replace_all (placeholder k) val (template_text ts) = Some (template_text (fill k val ts))"
  using assms(1)
proof (induction "count_list ts (Hole k)" arbitrary: ts rule: less_induct)
  case less
  show ?case
  proof (cases "Hole k \<in> set ts")
    case False
    have "strstr ([] :: string) (placeholder k) = None"
      by (simp add: strstr.simps [of "[]"] starts_with_def placeholder_eq)
    then have "strstr (template_text ts) (placeholder k) = None"
      using strstr_template_none [OF less.prems assms(2) False, of "[]"] by simp
    moreover have "concat (map (\<lambda>t. if t = Hole k then map Lit val else [t]) ts) = ts"
      using False by (induction ts) auto
    ultimately show ?thesis by (subst replace_all.simps) (simp add: fill_def)
  next
    case True
    then obtain as bs where ts: "ts = as @ Hole k # bs" and as: "Hole k \<notin> set as"
      by (meson split_list_first)
    let ?next = "as @ map Lit val @ bs"
    have ok: "list_all token_ok as" "list_all token_ok ?next"
      using less.prems assms(3) by (auto simp: ts list_all_iff brace_free_def)
    have "count_list (map Lit val) (Hole k) = 0" by (auto simp: count_list_0_iff)
    then have "count_list ?next (Hole k) < count_list ts (Hole k)" by (simp add: ts)
    from less.hyps [OF this ok(2)] have "replace_all (placeholder k) val (template_text ?next)
        = Some (template_text (fill k val ?next))" .
    moreover have "fill k val (map Lit w) = map Lit w" for w by (induction w) (simp_all add: fill_def)
    then have "fill k val ?next = fill k val ts" by (simp add: fill_def ts)
    ultimately show ?thesis
      using strstr_first_hole [OF ok(1) assms(2) as, of bs]
      by (subst replace_all.simps) (simp add: ts template_text_append template_text_lits)
  qed
qed

lemma fill_ok: "list_all token_ok ts \<Longrightarrow> brace_free val \<Longrightarrow> list_all token_ok (fill k val ts)"
  by (auto simp: fill_def list_all_iff brace_free_def)

lemma render_fill:
  assumes "k \<notin> fst ` set ms"
  shows "concat (map (render js ms) (fill k (value_text js v) ts)) = concat (map (render js ((k, v) # ms)) ts)"
proof (induction ts)
  case Nil
  then show ?case by (simp add: fill_def)
next
  case (Cons t ts)
  have lits: "concat (map (render js ms \<circ> Lit) w) = map Lit w" for w by (induction w) simp_all
  have none: "map_of ms k = None" using assms by (simp add: map_of_eq_None_iff)
  from Cons show ?case by (cases t) (auto simp: fill_def lits none split: option.splits)
qed

lemma substitute_members_render:
  assumes "list_all token_ok ts" "distinct (map fst ms)"
    and "\<forall>(k, v) \<in> set ms. brace_free k \<and> brace_free (value_text js v)"
  shows "substitute_members js ms (template_text ts) = Some (template_text (concat (map (render js ms) ts)))"
  using assms
proof (induction ms arbitrary: ts)
  case Nil
  have "concat (map (render js []) ts) = ts" by (induction ts rule: template_text.induct) simp_all
  then show ?case by simp
next
  case (Cons m ms)
  obtain k v where m: "m = (k, v)" by (cases m)
  with Cons.prems have bf: "brace_free k" "brace_free (value_text js v)" and k: "k \<notin> fst ` set ms" by auto
  from Cons.IH [OF fill_ok [OF Cons.prems(1) bf(2), of k]] Cons.prems(2,3) show ?case
    by (simp add: m replace_all_template [OF Cons.prems(1) bf] render_fill [OF k])
qed

text \<open>
  C25. Placeholder substitution implements the template. For a template made of placeholders
  \<open>{{name}}\<close> and other characters, where neither the names nor the other characters are braces, and
  arguments with distinct names whose names and texts hold no braces, every placeholder becomes the
  text of the argument of that name, placeholders without an argument and all other characters stay,
  and the call returns. Braces elsewhere can form placeholders that the template does not have.
\<close>

theorem substitute_renders_template:
  assumes "list_all token_ok ts" and "distinct (map fst ms)"
    and "\<forall>(k, v) \<in> set ms. brace_free k \<and> brace_free (value_text js v)"
  shows "substitute_placeholders js (template_text ts) (Some (JObject ms))
         = Some (template_text (concat (map (render js ms) ts)))"
  using substitute_members_render [OF assms] by (simp add: substitute_placeholders_def)

definition sample_jansson :: jansson where
  "sample_jansson = \<lparr>json_loads = (\<lambda>s. Inl ''unsupported''), json_dumps = (\<lambda>j. Some ''{}''), utf8_ok = (\<lambda>s. True), fmt_17g = (\<lambda>r. ''0'')\<rparr>"

theorem substitute_renders_template_witness:
  "substitute_placeholders sample_jansson ''-n={{n}} {{x}}'' (Some (JObject [(''n'', JInteger 42)])) = Some ''-n=42 {{x}}''"
proof -
  let ?ts = "[Lit (CHR ''-''), Lit (CHR ''n''), Lit (CHR ''=''), Hole ''n'', Lit (CHR '' ''), Hole ''x'']"
  have "list_all token_ok ?ts" by (simp add: lbrace_def rbrace_def brace_free_def)
  moreover have v: "value_text sample_jansson (JInteger 42) = ''42''"
    by code_simp
  moreover have "\<forall>(k, v) \<in> set [(''n'', JInteger 42)]. brace_free k \<and> brace_free (value_text sample_jansson v)"
    using v by (simp add: brace_free_def lbrace_def rbrace_def)
  ultimately show ?thesis
    using substitute_renders_template [of ?ts "[(''n'', JInteger 42)]" sample_jansson] by (simp add: placeholder_def)
qed

theorem substitute_self_reference_hangs_witness:
  "substitute_placeholders sample_jansson ''{{q}}'' (Some (JObject [(''q'', JString ''see {{q}}'')])) = None"
  by (rule substitute_self_reference_hangs [where u = "''see ''" and v = "[]" and a = "[]" and b = "[]"])
    (simp_all add: placeholder_def)

section \<open>The child's environment\<close>

lemma starts_with_name:
  assumes "CHR ''='' \<notin> set n" "CHR ''='' \<notin> set k" "starts_with (n @ ''='') (k @ ''='' @ s)"
  shows "k = n"
proof -
  have tw: "takeWhile (\<lambda>c. c \<noteq> CHR ''='') (z @ CHR ''='' # r) = z" if "CHR ''='' \<notin> set z" for z r
    using that by (simp add: takeWhile_tail takeWhile_eq_all_conv) metis
  from assms(3) obtain t where "k @ CHR ''='' # s = n @ CHR ''='' # t" by (auto simp: starts_with_iff)
  then show ?thesis using tw [OF assms(1), of t] tw [OF assms(2), of s] by simp
qed

lemma env_overrides_scrubbed:
  assumes "\<forall>k \<in> fst ` set ms. CHR ''='' \<notin> set k" "env_reserved n" "CHR ''='' \<notin> set n"
  shows "filter (starts_with (n @ ''='')) (env_overrides ms) = []"
  using assms(1)
proof (induction ms rule: env_overrides.induct)
  case (2 k v ms)
  have "\<not> starts_with (n @ ''='') (k @ ''='' @ s)" if "\<not> env_reserved k" for s
    using starts_with_name [OF assms(3), of k s] that assms(2) "2.prems" by auto
  with 2 show ?case by (auto split: json_t.splits)
qed simp

text \<open>
  C27. When no name in a tool's environment contains an equals sign, the child sees exactly the
  scrubbed values of the reserved names: the built-in \<open>PATH\<close> and \<open>HOME\<close>, and neither \<open>LD_PRELOAD\<close> nor
  \<open>LD_LIBRARY_PATH\<close>.
\<close>

theorem envp_scrubbed:
  assumes "\<forall>k \<in> fst ` set (json_members (Some (environment m))). CHR ''='' \<notin> set k"
  shows "filter (starts_with ''PATH='') (build_envp m) = [''PATH='' @ EXEC_DEFAULT_PATH] \<and>
         filter (starts_with ''HOME='') (build_envp m) = [''HOME=/tmp''] \<and>
         filter (starts_with ''LD_PRELOAD='') (build_envp m) = [] \<and>
         filter (starts_with ''LD_LIBRARY_PATH='') (build_envp m) = []"
proof -
  note o = env_overrides_scrubbed [OF assms]
  have r: "env_reserved ''PATH''" "env_reserved ''HOME''" "env_reserved ''LD_PRELOAD''" "env_reserved ''LD_LIBRARY_PATH''"
    by (simp_all add: env_reserved_def)
  have "filter (starts_with ''PATH='') (env_overrides (json_members (Some (environment m)))) = []"
    "filter (starts_with ''HOME='') (env_overrides (json_members (Some (environment m)))) = []"
    "filter (starts_with ''LD_PRELOAD='') (env_overrides (json_members (Some (environment m)))) = []"
    "filter (starts_with ''LD_LIBRARY_PATH='') (env_overrides (json_members (Some (environment m)))) = []"
    using o [OF r(1)] o [OF r(2)] o [OF r(3)] o [OF r(4)] by simp_all
  then show ?thesis
    by (simp add: build_envp_def starts_with_def snprintf_trunc_def EXEC_DEFAULT_PATH_def take_Cons')
qed

text \<open>
  The filter compares whole names, so a name with an equals sign in it escapes it: the member
  \<open>"LD_PRELOAD=lib": s\<close> puts an \<open>LD_PRELOAD\<close> entry into the child's environment.
\<close>

lemma envp_filter_bypass:
  "''LD_PRELOAD='' @ lib @ ''='' @ s
     \<in> set (build_envp (m\<lparr>environment := JObject [(''LD_PRELOAD='' @ lib, JString s)]\<rparr>))"
  by (simp add: build_envp_def env_reserved_def)

section \<open>Results\<close>

lemma set_err_complete: "error_complete (set_err js code msg out)" "json_is_array (content (set_err js code msg out))"
  "is_error (set_err js code msg out)"
  by (simp_all add: error_complete_def set_err_def text_content_def)

lemma exec_success_complete:
  assumes "out = mc2dbd_tool_result_init"
  shows "error_complete (exec_success js r out)" "json_is_array (content (exec_success js r out))"
    "\<not> is_error (exec_success js r out)"
  using assms by (auto simp: exec_success_def error_complete_def mc2dbd_tool_result_init_def text_content_def Let_def)

lemma exec_response_complete:
  assumes "out = mc2dbd_tool_result_init"
  shows "error_complete (exec_response js resp out) \<and> json_is_array (content (exec_response js resp out)) \<and>
    (is_error (exec_response js resp out) \<longleftrightarrow> \<not> json_is_true (json_object_get (Some resp) ''ok''))"
  using assms by (simp add: exec_response_def exec_success_complete set_err_complete Let_def)

lemma exec_outcome_complete:
  assumes "out = mc2dbd_tool_result_init"
  shows "error_complete (exec_outcome js m r out) \<and> json_is_array (content (exec_outcome js m r out)) \<and>
    (is_error (exec_outcome js m r out) \<longleftrightarrow>
     (\<nexists>o_text e_text ms. r = ChildExited 0 o_text e_text \<and> json_loads js o_text = Inr (JObject ms) \<and>
        map_of ms ''ok'' = Some JTrue))"
  using exec_response_complete [OF assms]
  by (auto simp: exec_outcome_def set_err_complete json_is_true_def split: child_result.splits sum.splits
      elim!: json_is_objectE)

lemma dispatch_exec_cases:
  assumes "dispatch_external_exec js srv os call_id tool_meta arguments user out h = (Some r, h')"
  obtains (err) code msg where "r = set_err js code msg out"
    | (ran) m cmd envelope argv res where "command_path m = Some cmd" "starts_with ''/'' cmd" "access_error os cmd = None"
        "build_argv js m cmd arguments = Some argv" "r = exec_outcome js m res out"
        "exec_child os m argv envelope = Some res"
  using assms unfolding dispatch_external_exec_def exec_run_def
  by (force split: if_splits prod.splits sum.splits option.splits)

text \<open>
  C22. Whatever the catalog, the system and the child do, a dispatch that returns delivers a complete
  result with a content array; it is a success only when the command, an absolute executable
  path, was run, was reported to exit with status 0 and printed a JSON object with \<open>"ok": true\<close>. (A
  \<open>waitpid\<close> that fails leaves the status 0, which is read as an exit with status 0.)
\<close>

theorem external_exec_result:
  assumes "dispatch_external_exec js srv os call_id tool_meta arguments user mc2dbd_tool_result_init h = (Some r, h')"
  shows "error_complete r \<and> json_is_array (content r) \<and>
    (\<not> is_error r \<longrightarrow>
      (\<exists>m cmd envelope argv o_text e_text ms.
         command_path m = Some cmd \<and> starts_with ''/'' cmd \<and> access_error os cmd = None \<and>
         build_argv js m cmd arguments = Some argv \<and>
         exec_child os m argv envelope = Some (ChildExited 0 o_text e_text) \<and>
         json_loads js o_text = Inr (JObject ms) \<and> map_of ms ''ok'' = Some JTrue))"
  using assms
proof (cases rule: dispatch_exec_cases)
  case err
  then show ?thesis by (simp add: set_err_complete)
next
  case ran
  with exec_outcome_complete [OF refl, of js _ _] show ?thesis by blast
qed

definition sample_exec_meta :: exec_meta where
  "sample_exec_meta = \<lparr>tool_id = 7, tool_name = Some ''t'', command_path = Some ''/bin/t'', argv_template = JArray [],
     working_dir = None, run_as_user = None, environment = JObject [(''TZ'', JString ''UTC''), (''PATH'', JString ''/x'')],
     timeout_ms = 1000, max_output_bytes = 64\<rparr>"

theorem envp_scrubbed_witness:
  "filter (starts_with ''PATH='') (build_envp sample_exec_meta) = [''PATH='' @ EXEC_DEFAULT_PATH]"
  using envp_scrubbed [of sample_exec_meta] by (simp add: sample_exec_meta_def)

definition ok_jansson :: jansson where
  "ok_jansson = \<lparr>json_loads = (\<lambda>s. Inr (JObject [(''ok'', JTrue)])), json_dumps = (\<lambda>j. Some ''{}''), utf8_ok = (\<lambda>s. True), fmt_17g = (\<lambda>r. ''0'')\<rparr>"

definition ok_exec_server :: server where
  "ok_exec_server h = Tuples [[Some ''t'', Some ''1000'', Some ''64'', Some ''/bin/t'', None, None, None, None]]"

definition ok_exec_os :: exec_os where
  "ok_exec_os = \<lparr>access_error = (\<lambda>p. None), spawn_error = None,
     exec_spawned = (\<lambda>m argv envp stdin.
       \<lparr>start_ms = 0, child_inputs = [sample_output, sample_eof, sample_eof], child_waited = Some (Exited 0)\<rparr>)\<rparr>"

lemma ok_exec_run:
  "fst (dispatch_external_exec ok_jansson ok_exec_server ok_exec_os ''c'' (Some (JObject [(''tool_id'', JInteger 7)]))
     None None mc2dbd_tool_result_init []) = Some (exec_success ok_jansson None mc2dbd_tool_result_init)"
  by code_simp

theorem external_exec_result_witness:
  "\<exists>r h'. dispatch_external_exec ok_jansson ok_exec_server ok_exec_os ''c'' (Some (JObject [(''tool_id'', JInteger 7)]))
     None None mc2dbd_tool_result_init [] = (Some r, h') \<and> \<not> is_error r \<and> json_is_array (content r)"
proof -
  obtain h' where d: "dispatch_external_exec ok_jansson ok_exec_server ok_exec_os ''c''
     (Some (JObject [(''tool_id'', JInteger 7)])) None None mc2dbd_tool_result_init []
     = (Some (exec_success ok_jansson None mc2dbd_tool_result_init), h')"
    using ok_exec_run by (metis prod.collapse)
  from external_exec_result [OF d] d show ?thesis using exec_success_complete(3) [OF refl] by blast
qed

end
