(* ===== verification/Curl_Buffer.thy ===== *)
theory Curl_Buffer
  imports Prelude
begin

text \<open>
  The growing byte buffers of the listener: the contract of a buffer that doubles its allocation,
  the buffer libcurl's write callback fills (src/mc2dbd/src/proxy.c; http_endpoint.c has the same two
  declarations), and what a transfer delivers. libcurl is outside the repository: a transfer is a
  function from the request to a \<open>curl_reply\<close>. Memory allocation does not fail.
\<close>

section \<open>The contract\<close>

text \<open>
  \<open>put\<close> appends a block. Between writes the contents and their terminating NUL fit the allocation.
\<close>

locale growing_buffer =
  fixes data :: "'b \<Rightarrow> string"
    and cap :: "'b \<Rightarrow> nat"
    and put :: "string \<Rightarrow> 'b \<Rightarrow> 'b"
  assumes data_put: "data (put c b) = data b @ c"
    and cap_put: "length (data b) < cap b \<Longrightarrow> length (data (put c b)) < cap (put c b)"
begin

lemma data_fold: "data (fold put cs b) = data b @ concat cs"
  by (induction cs arbitrary: b) (simp_all add: data_put)

lemma cap_fold:
  "length (data b) < cap b \<Longrightarrow> length (data (fold put cs b)) < cap (fold put cs b)"
  by (induction cs arbitrary: b) (simp_all add: cap_put)

end

text \<open>A buffer that is allocated by its first write.\<close>

locale lazy_buffer = growing_buffer +
  assumes fresh_put: "data b = [] \<Longrightarrow> cap b = 0 \<Longrightarrow> length (data (put c b)) < cap (put c b)"
begin

lemma fold_fresh:
  assumes "data b = []" "cap b = 0" "cs \<noteq> []"
  shows "data (fold put cs b) = concat cs \<and> length (concat cs) < cap (fold put cs b)"
proof -
  obtain c cs' where cs: "cs = c # cs'" using assms(3) by (cases cs) auto
  from cap_fold [OF fresh_put [OF assms(1,2)]]
  have "length (data (fold put cs' (put c b))) < cap (fold put cs' (put c b))" .
  then show ?thesis using data_fold [of cs b] assms(1) by (simp add: cs)
qed

end

section \<open>The libcurl buffer\<close>

text \<open>\<open>data\<close> is NULL exactly while \<open>cap\<close> is 0.\<close>

record curl_buf =
  cb_data :: string
  cb_cap :: nat

definition curl_buf_zero :: curl_buf where
  "curl_buf_zero = \<lparr>cb_data = [], cb_cap = 0\<rparr>"

definition curl_writefn :: "string \<Rightarrow> curl_buf \<Rightarrow> curl_buf" where
  "curl_writefn bytes b =
     (let need = length (cb_data b) + length bytes + 1 in
      \<lparr>cb_data = cb_data b @ bytes,
       cb_cap = (if cb_cap b < need then grow_cap need (if cb_cap b \<noteq> 0 then cb_cap b else 4096) else cb_cap b)\<rparr>)"

lemma curl_writefn_fits: "length (cb_data (curl_writefn c b)) < cb_cap (curl_writefn c b)"
  using grow_cap_ge [of "if cb_cap b \<noteq> 0 then cb_cap b else 4096" "length (cb_data b) + length c + 1"]
  by (auto simp: curl_writefn_def Let_def not_less)

interpretation curl: lazy_buffer cb_data cb_cap curl_writefn
  by unfold_locales (simp_all add: curl_writefn_fits, simp add: curl_writefn_def Let_def)

text \<open>
  What \<open>curl_easy_perform\<close> does with the callbacks: the error text of a failed transfer, the status
  code, the header lines in order and the body in the blocks it was delivered in.
\<close>

record curl_reply =
  curl_error :: "string option"
  http_status :: int
  reply_headers :: "string list"
  reply_blocks :: "string list"

text \<open>The options set on the handle that make the request, and the library.\<close>

record http_call =
  call_url :: string
  call_method :: string
  call_body :: "string option"
  call_headers :: "string list"
  call_userpwd :: "string option"
  call_timeout_ms :: int

record curl_lib =
  curl_init_ok :: bool
  curl_perform :: "http_call \<Rightarrow> curl_reply"

definition received :: "curl_reply \<Rightarrow> curl_buf" where
  "received r = fold curl_writefn (reply_blocks r) curl_buf_zero"

lemma received_data: "cb_data (received r) = concat (reply_blocks r)"
  by (simp add: received_def curl.data_fold curl_buf_zero_def)

lemma received_cap: "reply_blocks r = [] \<longleftrightarrow> cb_cap (received r) = 0"
  using curl.fold_fresh [of curl_buf_zero "reply_blocks r"]
  by (cases "reply_blocks r = []") (auto simp: received_def curl_buf_zero_def)

end
