(* ===== verification/Proxy_Stdio.thy ===== *)
theory Proxy_Stdio
  imports Json_Value Curl_Buffer
begin

text \<open>
  The stdio transport of src/mc2dbd/src/proxy.c: one request written to a child's stdin, its stdout
  collected until end of file, under a deadline. What the operating system answers in one iteration
  of the poll loop (the clock, \<open>poll\<close>, \<open>write\<close>, \<open>read\<close>) is one \<open>poll_input\<close>; a list that ends before
  the loop does leaves it running.
\<close>

section \<open>The loop\<close>

text \<open>The flags of one descriptor that the loop tests: readiness, and POLLHUP or POLLERR.\<close>

datatype poll_result =
    PollEintr
  | PollError string
  | PollReady (in_out: bool) (in_hup: bool) (out_in: bool) (out_hup: bool)

text \<open>\<open>None\<close> is a failed call; \<open>read\<close> of the empty string is end of file.\<close>

record poll_input =
  now_ms_proxy :: int
  polled :: poll_result
  written :: "nat option"
  chunk :: "string option"

record stdio_state =
  in_open :: bool
  out_open :: bool
  req_off :: nat
  rb :: curl_buf

datatype stdio_step = StdioNext stdio_state | StdioDone stdio_state | StdioFail string

definition write_request :: "nat \<Rightarrow> nat option \<Rightarrow> stdio_state \<Rightarrow> stdio_state" where
  "write_request req_len w s =
     (let s1 = (case w of Some n \<Rightarrow> s\<lparr>req_off := req_off s + min n (req_len - req_off s)\<rparr> | None \<Rightarrow> s) in
      if req_len \<le> req_off s1 then s1\<lparr>in_open := False\<rparr> else s1)"

text \<open>The stdin slot of the loop over the descriptors, present while there is something to write.\<close>

definition serve_stdin :: "nat \<Rightarrow> poll_input \<Rightarrow> bool \<Rightarrow> bool \<Rightarrow> stdio_state \<Rightarrow> stdio_state" where
  "serve_stdin req_len i ready hup s =
     (let s1 = (if ready then write_request req_len (written i) s else s) in
      if hup then s1\<lparr>in_open := False\<rparr> else s1)"

definition read_output :: "nat \<Rightarrow> string option \<Rightarrow> stdio_state \<Rightarrow> string + stdio_state" where
  "read_output max_output_bytes c s =
     (case c of
        None \<Rightarrow> Inr s
      | Some bs \<Rightarrow>
          (let b = take 4096 bs in
           if b = [] then Inr (s\<lparr>out_open := False\<rparr>)
           else if 0 < max_output_bytes \<and> max_output_bytes < length (cb_data (rb s)) + length b
           then Inl (''stdio child output exceeds max_output_bytes='' @ fmt_d (int max_output_bytes))
           else Inr (s\<lparr>rb := curl_writefn b (rb s)\<rparr>)))"

definition serve_stdout :: "nat \<Rightarrow> poll_input \<Rightarrow> bool \<Rightarrow> bool \<Rightarrow> stdio_state \<Rightarrow> string + stdio_state" where
  "serve_stdout max_output_bytes i ready hup s =
     (case (if ready then read_output max_output_bytes (chunk i) s else Inr s) of
        Inl e \<Rightarrow> Inl e
      | Inr s1 \<Rightarrow> Inr (if hup then s1\<lparr>out_open := False\<rparr> else s1))"

definition stdio_iter :: "nat \<Rightarrow> nat \<Rightarrow> int \<Rightarrow> poll_input \<Rightarrow> stdio_state \<Rightarrow> stdio_step" where
  "stdio_iter req_len max_output_bytes deadline i s =
     (if deadline - now_ms_proxy i \<le> 0 then StdioFail ''stdio child timed out''
      else if \<not> (in_open s \<and> req_off s < req_len) \<and> \<not> out_open s then StdioDone s
      else (case polled i of
              PollEintr \<Rightarrow> StdioNext s
            | PollError e \<Rightarrow> StdioFail (''poll(): '' @ e)
            | PollReady iw ih oi oh \<Rightarrow>
                (let s1 = (if in_open s \<and> req_off s < req_len then serve_stdin req_len i iw ih s else s) in
                 if out_open s
                 then (case serve_stdout max_output_bytes i oi oh s1 of
                         Inl e \<Rightarrow> StdioFail e | Inr s2 \<Rightarrow> StdioNext s2)
                 else StdioNext s1)))"

fun stdio_loop :: "nat \<Rightarrow> nat \<Rightarrow> int \<Rightarrow> poll_input list \<Rightarrow> stdio_state \<Rightarrow> stdio_step" where
  "stdio_loop req_len max_output_bytes deadline [] s = StdioNext s"
| "stdio_loop req_len max_output_bytes deadline (i # is) s =
     (case stdio_iter req_len max_output_bytes deadline i s of
        StdioNext s' \<Rightarrow> stdio_loop req_len max_output_bytes deadline is s'
      | r \<Rightarrow> r)"

section \<open>The call\<close>

datatype child_status = StatusExited int | StatusSignaled int

text \<open>
  The reap loop: each turn \<open>waitpid\<close> may report the child, otherwise after 500 ms it is killed and
  waited for. \<open>None\<close> while the loop has not ended.
\<close>

fun reap :: "int \<Rightarrow> (child_status option \<times> int) list \<Rightarrow> child_status \<Rightarrow> child_status option" where
  "reap reap_deadline [] killed = None"
| "reap reap_deadline ((w, now) # ws) killed =
     (case w of
        Some st \<Rightarrow> Some st
      | None \<Rightarrow> (if reap_deadline \<le> now then Some killed else reap reap_deadline ws killed))"

text \<open>
  One child: what it does depends on the program, its arguments, its environment and the request
  on its stdin.
\<close>

record stdio_run =
  poll_start :: int
  poll_inputs :: "poll_input list"
  reap_start :: int
  reap_polls :: "(child_status option \<times> int) list"
  killed_status :: child_status

record stdio_os =
  pipe_error :: "string option"
  fork_error :: "string option"
  getenv :: "string \<Rightarrow> string option"
  spawned :: "string \<Rightarrow> string list \<Rightarrow> string list \<Rightarrow> string \<Rightarrow> stdio_run"

definition stdio_argv :: "string \<Rightarrow> json_t option \<Rightarrow> string list" where
  "stdio_argv cmd argv = cmd # map (\<lambda>e. case e of JString s \<Rightarrow> s | _ \<Rightarrow> []) (json_array_items argv)"

text \<open>The environment of the child: PATH, HOME and LANG of the listener, where set.\<close>

definition stdio_env :: "(string \<Rightarrow> string option) \<Rightarrow> string list" where
  "stdio_env env =
     concat (map (\<lambda>n. case env n of Some v \<Rightarrow> [snprintf_trunc 256 (n @ ''='' @ v)] | None \<Rightarrow> [])
       [''PATH'', ''HOME'', ''LANG''])"

definition stdio_init :: stdio_state where
  "stdio_init = \<lparr>in_open = True, out_open = True, req_off = 0, rb = curl_buf_zero\<rparr>"

definition stdio_finish :: "child_status \<Rightarrow> stdio_state \<Rightarrow> string + string" where
  "stdio_finish st s =
     (case st of
        StatusExited n \<Rightarrow>
          (if n \<noteq> 0 then Inl (''stdio child exited with code '' @ fmt_d n)
           else if cb_data (rb s) = [] then Inl ''stdio child produced no output''
           else Inr (cb_data (rb s)))
      | StatusSignaled n \<Rightarrow> Inl (''stdio child killed by signal '' @ fmt_d n))"

text \<open>
  The caller's error buffer holds 512 bytes. The outer \<open>None\<close> is a call that has not returned. The
  request is the body and a newline.
\<close>

definition stdio_result :: "string + string \<Rightarrow> string + string" where
  "stdio_result r = (case r of Inl e \<Rightarrow> Inl (snprintf_trunc 512 e) | Inr b \<Rightarrow> Inr b)"

definition stdio_timeout :: "int \<Rightarrow> int" where
  "stdio_timeout timeout_ms = (if 0 < timeout_ms then timeout_ms else 30000)"

definition stdio_collect :: "stdio_run \<Rightarrow> nat \<Rightarrow> int \<Rightarrow> nat \<Rightarrow> (string + string) option" where
  "stdio_collect run req_len timeout_ms max_output_bytes =
     (case stdio_loop req_len max_output_bytes (poll_start run + stdio_timeout timeout_ms)
             (poll_inputs run) stdio_init of
        StdioNext _ \<Rightarrow> None
      | StdioFail e \<Rightarrow> Some (stdio_result (Inl e))
      | StdioDone s \<Rightarrow>
          map_option (\<lambda>st. stdio_result (stdio_finish st s))
            (reap (reap_start run + 500) (reap_polls run) (killed_status run)))"

definition proxy_stdio ::
  "stdio_os \<Rightarrow> string \<Rightarrow> json_t option \<Rightarrow> string \<Rightarrow> int \<Rightarrow> nat \<Rightarrow> (string + string) option" where
  "proxy_stdio os cmd argv body timeout_ms max_output_bytes =
     (if \<not> starts_with ''/'' cmd then Some (Inl ''stdio command_path must be absolute'')
      else (case pipe_error os of
              Some e \<Rightarrow> Some (stdio_result (Inl (''pipe(): '' @ e)))
            | None \<Rightarrow>
                (case fork_error os of
                   Some e \<Rightarrow> Some (stdio_result (Inl (''fork(): '' @ e)))
                 | None \<Rightarrow>
                     stdio_collect
                       (spawned os cmd (stdio_argv cmd argv) (stdio_env (getenv os)) (body @ [CHR 0x0A]))
                       (length (body @ [CHR 0x0A])) timeout_ms max_output_bytes)))"

section \<open>Properties\<close>

text \<open>The collected output is within the limit and within its allocation.\<close>

definition stdio_ok :: "nat \<Rightarrow> stdio_state \<Rightarrow> bool" where
  "stdio_ok max_output_bytes s \<longleftrightarrow>
     (0 < max_output_bytes \<longrightarrow> length (cb_data (rb s)) \<le> max_output_bytes) \<and>
     (rb s = curl_buf_zero \<or> length (cb_data (rb s)) < cb_cap (rb s))"

fun step_all :: "(stdio_state \<Rightarrow> bool) \<Rightarrow> stdio_step \<Rightarrow> bool" where
  "step_all P (StdioNext s) = P s"
| "step_all P (StdioDone s) = P s"
| "step_all P (StdioFail e) = True"

lemma serve_stdin_rb [simp]: "rb (serve_stdin n i r u s) = rb s"
  by (simp add: serve_stdin_def write_request_def Let_def split: option.splits)

lemma stdio_ok_frame [simp]:
  "stdio_ok mx (serve_stdin n i r u s) = stdio_ok mx s" "stdio_ok mx (s\<lparr>out_open := b\<rparr>) = stdio_ok mx s"
  by (simp_all add: stdio_ok_def)

lemma read_output_ok:
  "stdio_ok mx s \<Longrightarrow> read_output mx c s = Inr s' \<Longrightarrow> stdio_ok mx s'"
  using curl_writefn_fits [of "take 4096 (the c)" "rb s"] curl.data_put [of "take 4096 (the c)" "rb s"]
  by (auto simp: read_output_def stdio_ok_def Let_def curl_buf_zero_def split: option.splits if_splits)

lemma serve_stdout_ok:
  assumes "stdio_ok mx s" "serve_stdout mx i r u s = Inr s'"
  shows "stdio_ok mx s'"
  using assms read_output_ok [OF assms(1)]
  by (auto simp: serve_stdout_def split: sum.splits if_splits)

lemma stdio_iter_ok:
  assumes "stdio_ok mx s"
  shows "step_all (stdio_ok mx) (stdio_iter n mx dl i s)"
proof (cases "polled i")
  case (PollReady iw ih oi oh)
  define s1 where "s1 = (if in_open s \<and> req_off s < n then serve_stdin n i iw ih s else s)"
  have s1: "stdio_ok mx s1" using assms by (simp add: s1_def)
  show ?thesis
    using assms s1 serve_stdout_ok [OF s1, of i oi oh]
    by (simp add: stdio_iter_def PollReady s1_def [symmetric] split: sum.splits)
qed (use assms in \<open>simp_all add: stdio_iter_def\<close>)

lemma stdio_loop_ok: "stdio_ok mx s \<Longrightarrow> step_all (stdio_ok mx) (stdio_loop n mx dl is s)"
proof (induction "is" arbitrary: s)
  case (Cons i "is")
  then show ?case using stdio_iter_ok [OF Cons.prems, of n dl i] by (auto split: stdio_step.splits)
qed simp

text \<open>
  What a stdio server delivers is bounded: an answer comes only from an absolute command that was
  reaped with exit status 0, it is not empty, and no longer than \<open>max_output_bytes\<close> when that is set;
  all along, the collected output and its NUL fit the buffer allocated for them.
\<close>

lemma stdio_output_bounded:
  assumes "proxy_stdio os cmd argv body timeout_ms max_output_bytes = Some (Inr out)"
  shows "starts_with ''/'' cmd \<and> out \<noteq> [] \<and> (0 < max_output_bytes \<longrightarrow> length out \<le> max_output_bytes) \<and>
    (\<exists>run. run = spawned os cmd (stdio_argv cmd argv) (stdio_env (getenv os)) (body @ [CHR 0x0A]) \<and>
       reap (reap_start run + 500) (reap_polls run) (killed_status run) = Some (StatusExited 0) \<and>
       (\<forall>n. step_all (stdio_ok max_output_bytes)
          (stdio_loop (length body + 1) max_output_bytes (poll_start run + stdio_timeout timeout_ms)
             (take n (poll_inputs run)) stdio_init)))"
proof -
  define run where "run = spawned os cmd (stdio_argv cmd argv) (stdio_env (getenv os)) (body @ [CHR 0x0A])"
  have init: "stdio_ok max_output_bytes stdio_init" by (simp add: stdio_ok_def stdio_init_def curl_buf_zero_def)
  from assms have cmd: "starts_with ''/'' cmd"
    and c: "stdio_collect run (length body + 1) timeout_ms max_output_bytes = Some (Inr out)"
    by (auto simp: proxy_stdio_def run_def stdio_result_def split: if_splits option.splits)
  from c obtain s where s: "stdio_loop (length body + 1) max_output_bytes
        (poll_start run + stdio_timeout timeout_ms) (poll_inputs run) stdio_init = StdioDone s"
    and fin: "reap (reap_start run + 500) (reap_polls run) (killed_status run) = Some (StatusExited 0)"
      "out = cb_data (rb s)" "out \<noteq> []"
    by (auto simp: stdio_collect_def stdio_result_def stdio_finish_def split: stdio_step.splits sum.splits
        child_status.splits if_splits)
  have "stdio_ok max_output_bytes s" using stdio_loop_ok [OF init] s by (metis step_all.simps(2))
  then have "0 < max_output_bytes \<longrightarrow> length out \<le> max_output_bytes" by (simp add: stdio_ok_def fin(2))
  with cmd fin stdio_loop_ok [OF init] show ?thesis by (auto simp: run_def)
qed

text \<open>Once the clock has passed the deadline the loop is over, whatever the child does.\<close>

lemma stdio_loop_ends:
  "\<exists>i \<in> set is. dl \<le> now_ms_proxy i \<Longrightarrow> stdio_loop n mx dl is s \<noteq> StdioNext s'"
proof (induction "is" arbitrary: s)
  case (Cons i "is")
  show ?case
  proof (cases "dl \<le> now_ms_proxy i")
    case True
    then show ?thesis by (simp add: stdio_iter_def)
  next
    case False
    with Cons.prems have "\<exists>i \<in> set is. dl \<le> now_ms_proxy i" by auto
    from Cons.IH [OF this] show ?thesis by (auto split: stdio_step.splits)
  qed
qed simp

text \<open>Once the clock has passed the grace period, or the child has been reported, the reap loop is over.\<close>

lemma reap_ends: "\<exists>(w, now) \<in> set ws. w \<noteq> None \<or> dl \<le> now \<Longrightarrow> reap dl ws k \<noteq> None"
  by (induction dl ws k rule: reap.induct) (auto split: option.splits)

text \<open>
  A call over stdio returns: if the clock of the poll loop passes the timeout (30 s when the
  tool sets none) and that of the reap loop its 500 ms, there is an answer or an error, whatever
  the child reads, writes or leaves open.
\<close>

lemma stdio_call_returns:
  assumes "run = spawned os cmd (stdio_argv cmd argv) (stdio_env (getenv os)) (body @ [CHR 0x0A])"
    and "\<exists>i \<in> set (poll_inputs run). poll_start run + stdio_timeout timeout_ms \<le> now_ms_proxy i"
    and "\<exists>(w, now) \<in> set (reap_polls run). w \<noteq> None \<or> reap_start run + 500 \<le> now"
  shows "\<exists>r. proxy_stdio os cmd argv body timeout_ms max_output_bytes = Some r"
proof -
  have "\<exists>r. stdio_collect run m timeout_ms max_output_bytes = Some r" for m
    using stdio_loop_ends [OF assms(2), of m max_output_bytes stdio_init] reap_ends [OF assms(3), of "killed_status run"]
    by (auto simp: stdio_collect_def split: stdio_step.splits)
  then show ?thesis by (simp add: proxy_stdio_def assms(1) split: option.splits)
qed

text \<open>The run of a child that answers at once and exits: the second turn finds nothing left to poll.\<close>

definition exited_run :: "int \<Rightarrow> int \<Rightarrow> string \<Rightarrow> string \<Rightarrow> stdio_run" where
  "exited_run start now body answer =
     \<lparr>poll_start = start,
      poll_inputs =
        [\<lparr>now_ms_proxy = now, polled = PollReady True False True True, written = Some (length body + 1), chunk = Some answer\<rparr>,
         \<lparr>now_ms_proxy = now, polled = PollEintr, written = None, chunk = None\<rparr>],
      reap_start = now, reap_polls = [(Some (StatusExited 0), now)], killed_status = StatusSignaled 9\<rparr>"

text \<open>
  A child that has written its answer and exited by the first \<open>poll\<close> loses most of it: \<open>poll\<close>
  reports the pipe readable and hung up at once, the loop reads one chunk of 4096 bytes and closes
  the pipe, and those 4096 bytes are returned as the answer although the child succeeded.
\<close>

lemma stdio_hangup_truncates:
  assumes "starts_with ''/'' cmd" and "pipe_error os = None" and "fork_error os = None" and "4096 < length answer"
    and "max_output_bytes = 0 \<or> 4096 \<le> max_output_bytes" and "start < now" and "now < start + 30000"
    and "spawned os cmd (stdio_argv cmd argv) (stdio_env (getenv os)) (body @ [CHR 0x0A]) = exited_run start now body answer"
  shows "proxy_stdio os cmd argv body 0 max_output_bytes = Some (Inr (take 4096 answer))"
proof -
  have "take 4096 answer \<noteq> []" "length (take 4096 answer) = 4096" using assms(4) by auto
  then show ?thesis using assms
    by (auto simp: proxy_stdio_def stdio_collect_def stdio_iter_def stdio_init_def serve_stdin_def write_request_def
        serve_stdout_def read_output_def Let_def curl.data_put curl_buf_zero_def stdio_result_def stdio_finish_def exited_run_def stdio_timeout_def)
qed

section \<open>Witnesses\<close>

definition exited_os :: "string \<Rightarrow> stdio_os" where
  "exited_os answer = \<lparr>pipe_error = None, fork_error = None, getenv = (\<lambda>n. None),
     spawned = (\<lambda>cmd av envp req. exited_run 0 1 ''{}'' answer)\<rparr>"

lemma stdio_hangup_truncates_example:
  "proxy_stdio (exited_os (replicate 5000 CHR ''x'')) ''/bin/s'' None ''{}'' 0 0
   = Some (Inr (take 4096 (replicate 5000 CHR ''x'')))"
  by (rule stdio_hangup_truncates [where start = 0 and now = 1]) (simp_all add: exited_os_def starts_with_def)

lemma exited_os_answer: "proxy_stdio (exited_os ''ok'') ''/bin/s'' None ''{}'' 0 64 = Some (Inr ''ok'')"
  by code_simp

lemma stdio_output_bounded_example:
  "proxy_stdio (exited_os ''ok'') ''/bin/s'' None ''{}'' 0 64 = Some (Inr ''ok'') \<and> length ''ok'' \<le> 64"
  using exited_os_answer stdio_output_bounded [OF exited_os_answer] by simp

definition silent_os :: stdio_os where
  "silent_os = (exited_os [])\<lparr>spawned := (\<lambda>cmd av envp req.
     \<lparr>poll_start = 0, poll_inputs = [\<lparr>now_ms_proxy = 30000, polled = PollEintr, written = None, chunk = None\<rparr>],
      reap_start = 0, reap_polls = [(None, 500)], killed_status = StatusSignaled 9\<rparr>)\<rparr>"

lemma stdio_call_returns_example:
  "\<exists>r. proxy_stdio silent_os ''/bin/s'' None ''{}'' 0 64 = Some r"
  by (rule stdio_call_returns [OF refl]) (simp_all add: silent_os_def stdio_timeout_def)

end
