(* ===== verification/Mcp_Proxy.thy ===== *)
theory Mcp_Proxy
  imports Pg_Client Proxy_Stdio
begin

text \<open>
  The rest of src/mc2dbd/src/proxy.c: tools that live on a remote MCP server. The metadata, the HTTP
  transport, and the dispatcher that sends the JSON-RPC envelope over either transport and maps the
  remote answer to a tool result. \<open>json_deep_copy\<close> is the identity on values.
\<close>

section \<open>Metadata\<close>

record proxy_meta =
  mp_tool_id :: int
  mp_tool_name :: "string option"
  mp_timeout_ms :: int
  mp_max_output_bytes :: int
  remote_server_name :: "string option"
  remote_tool_name :: "string option"
  transport_type :: "string option"
  mp_endpoint_url :: "string option"
  mp_command_path :: "string option"
  mp_argv :: json_t

definition proxy_meta_sql :: string where
  "proxy_meta_sql =
     ''SELECT t.tool_name, t.timeout_ms, t.max_output_bytes,        mp.remote_server_name, mp.remote_tool_name,        mp.transport_type, mp.endpoint_url,        mp.command_path, mp.argv::text FROM maludb_core.malu$mc2db_tool t JOIN maludb_core.malu$mc2db_tool_mcp_proxy mp USING (tool_id) WHERE t.tool_id = $1''"

definition proxy_meta_of_row :: "jansson \<Rightarrow> int \<Rightarrow> string option list \<Rightarrow> proxy_meta" where
  "proxy_meta_of_row js tid row =
     \<lparr>mp_tool_id = tid, mp_tool_name = pg_strdup_or_null row 0, mp_timeout_ms = atoi (pq_getvalue row 1),
      mp_max_output_bytes = atoi (pq_getvalue row 2), remote_server_name = pg_strdup_or_null row 3, remote_tool_name = pg_strdup_or_null row 4,
      transport_type = pg_strdup_or_null row 5, mp_endpoint_url = pg_strdup_or_null row 6, mp_command_path = pg_strdup_or_null row 7,
      mp_argv = loads_or js (JArray []) (if pq_getisnull row 8 then ''[]'' else pq_getvalue row 8)\<rparr>"

definition load_proxy_meta ::
  "jansson \<Rightarrow> server \<Rightarrow> int \<Rightarrow> stmt list \<Rightarrow> (string + proxy_meta) \<times> stmt list" where
  "load_proxy_meta js srv tid h =
     (case pq_exec_params srv proxy_meta_sql [Some (fmt_d tid)] h of
        (Tuples [], h') \<Rightarrow>
          (Inl (snprintf_trunc 256 (''tool_id '' @ fmt_d tid @ '' has no malu$mc2db_tool_mcp_proxy row'')), h')
      | (Tuples (row # _), h') \<Rightarrow> (Inr (proxy_meta_of_row js tid row), h')
      | (r, h') \<Rightarrow>
          (Inl (snprintf_trunc 256 (''mcp_proxy metadata lookup failed: '' @ pq_error_message r)), h'))"

section \<open>Transports\<close>

definition proxy_http_call :: "string \<Rightarrow> string \<Rightarrow> int \<Rightarrow> http_call" where
  "proxy_http_call url body timeout_ms =
     \<lparr>call_url = url, call_method = ''POST'', call_body = Some body,
      call_headers = [''Content-Type: application/json'', ''Accept: application/json''], call_userpwd = None,
      call_timeout_ms = (if 0 < timeout_ms then timeout_ms else 30000)\<rparr>"

definition proxy_http :: "curl_lib \<Rightarrow> string \<Rightarrow> string \<Rightarrow> int \<Rightarrow> nat \<Rightarrow> string + string" where
  "proxy_http lib url body timeout_ms max_output_bytes =
     (if \<not> curl_init_ok lib then Inl ''curl_easy_init failed''
      else (let reply = curl_perform lib (proxy_http_call url body timeout_ms) in
            case curl_error reply of
              Some e \<Rightarrow> Inl (snprintf_trunc 512 (''curl: '' @ e))
            | None \<Rightarrow>
                (if http_status reply < 200 \<or> 300 \<le> http_status reply
                 then Inl (''remote returned HTTP '' @ fmt_d (http_status reply))
                 else if 0 < max_output_bytes \<and> max_output_bytes < length (cb_data (received reply))
                 then Inl (''remote response exceeds max_output_bytes='' @ fmt_d (int max_output_bytes))
                 else Inr (cb_data (received reply)))))"

text \<open>The conversion of the limit to \<open>size_t\<close>.\<close>

definition size_of_int :: "int \<Rightarrow> nat" where
  "size_of_int i = nat (i mod 2 ^ 64)"

definition is_json_space :: "char \<Rightarrow> bool" where
  "is_json_space c \<longleftrightarrow> c = CHR 0x0A \<or> c = CHR 0x0D \<or> c = CHR '' '' \<or> c = CHR 0x09"

definition parse_first_json :: "jansson \<Rightarrow> string \<Rightarrow> string + json_t" where
  "parse_first_json js buf =
     (case json_loads js (rev (dropWhile is_json_space (rev buf))) of
        Inl e \<Rightarrow> Inl (snprintf_trunc 512 (''malformed JSON response: '' @ e))
      | Inr j \<Rightarrow> Inr j)"

section \<open>The dispatcher\<close>

definition proxy_set_err :: "string \<Rightarrow> string \<Rightarrow> mc2dbd_tool_result \<Rightarrow> mc2dbd_tool_result" where
  "proxy_set_err code msg r = r\<lparr>is_error := True, error_code := Some code, error_message := Some msg\<rparr>"

definition proxy_envelope :: "jansson \<Rightarrow> proxy_meta \<Rightarrow> string \<Rightarrow> json_t option \<Rightarrow> json_t" where
  "proxy_envelope js m call_id_uuid arguments =
     JObject
       ((''jsonrpc'', JString ''2.0'') # str_member js ''id'' call_id_uuid
        @ [(''method'', JString ''tools/call''),
           (''params'', JObject
              (str_member js ''name'' (case remote_tool_name m of Some n \<Rightarrow> n | None \<Rightarrow> [])
               @ [(''arguments'', (case arguments of Some a \<Rightarrow> a | None \<Rightarrow> JObject []))]))])"

text \<open>
  \<open>Inl\<close> is the error of a transport that was not tried; the option is a call that never returns.
\<close>

definition proxy_transport ::
  "curl_lib \<Rightarrow> stdio_os \<Rightarrow> proxy_meta \<Rightarrow> string \<Rightarrow> string + (string + string) option" where
  "proxy_transport lib os m envelope =
     (if transport_type m = Some ''http''
      then (case mp_endpoint_url m of
              None \<Rightarrow> Inl ''http transport missing endpoint_url''
            | Some url \<Rightarrow>
                (if url = [] then Inl ''http transport missing endpoint_url''
                 else Inr (Some (proxy_http lib url envelope (mp_timeout_ms m) (size_of_int (mp_max_output_bytes m))))))
      else if transport_type m = Some ''stdio''
      then (case mp_command_path m of
              None \<Rightarrow> Inl ''stdio transport missing command_path''
            | Some cmd \<Rightarrow>
                (if cmd = [] then Inl ''stdio transport missing command_path''
                 else Inr (proxy_stdio os cmd (Some (mp_argv m)) envelope (mp_timeout_ms m)
                        (size_of_int (mp_max_output_bytes m)))))
      else Inl ''unsupported transport_type'')"

definition or_unknown :: "string option \<Rightarrow> string" where
  "or_unknown s = (case s of Some t \<Rightarrow> t | None \<Rightarrow> ''?'')"

definition proxy_is_error :: "json_t option \<Rightarrow> mc2dbd_tool_result \<Rightarrow> mc2dbd_tool_result" where
  "proxy_is_error ct out =
     (case json_array_items ct of
        [] \<Rightarrow> proxy_set_err MC2DB_ERR_TOOL_EXECUTION ''remote tool reported isError=true'' out
      | first # _ \<Rightarrow>
          (case json_string_value (json_object_get (Some first) ''text'') of
             Some t \<Rightarrow> proxy_set_err MC2DB_ERR_TOOL_EXECUTION t out
           | None \<Rightarrow> proxy_set_err MC2DB_ERR_TOOL_EXECUTION ''remote tool reported isError=true'' out))"

definition proxy_result :: "json_t option \<Rightarrow> mc2dbd_tool_result \<Rightarrow> mc2dbd_tool_result" where
  "proxy_result result out =
     (let ct = json_object_get result ''content''; sc = json_object_get result ''structuredContent'';
          o1 = (if ct \<noteq> None then out\<lparr>content := ct\<rparr> else out);
          o2 = (if sc \<noteq> None then o1\<lparr>structured := sc\<rparr> else o1)
      in if json_is_true (json_object_get result ''isError'') then proxy_is_error ct o2 else o2)"

definition proxy_response :: "jansson \<Rightarrow> proxy_meta \<Rightarrow> string \<Rightarrow> mc2dbd_tool_result \<Rightarrow> mc2dbd_tool_result" where
  "proxy_response js m resp_body out =
     (case parse_first_json js resp_body of
        Inl e \<Rightarrow> proxy_set_err MC2DB_ERR_UPSTREAM e out
      | Inr resp \<Rightarrow>
          (if json_is_object (json_object_get (Some resp) ''error'')
           then proxy_set_err MC2DB_ERR_TOOL_EXECUTION
                  (snprintf_trunc 512 (''remote '' @ or_unknown (remote_server_name m) @ '':''
                     @ or_unknown (remote_tool_name m) @ '' reported: ''
                     @ (case json_string_value (json_object_get (json_object_get (Some resp) ''error'') ''message'') of
                          Some s \<Rightarrow> s | None \<Rightarrow> ''(no message)''))) out
           else if \<not> json_is_object (json_object_get (Some resp) ''result'')
           then proxy_set_err MC2DB_ERR_UPSTREAM (''remote response missing '' @ squoted ''result'' @ '' object'') out
           else proxy_result (json_object_get (Some resp) ''result'') out))"

definition dispatch_mcp_proxy ::
  "jansson \<Rightarrow> server \<Rightarrow> curl_lib \<Rightarrow> stdio_os \<Rightarrow> string \<Rightarrow> json_t option \<Rightarrow> json_t option \<Rightarrow> string option \<Rightarrow>
   mc2dbd_tool_result \<Rightarrow> stmt list \<Rightarrow> mc2dbd_tool_result option \<times> stmt list" where
  "dispatch_mcp_proxy js srv lib os call_id_uuid tool_meta arguments request_user out h =
     (case load_proxy_meta js srv (json_integer_value (json_object_get tool_meta ''tool_id'')) h of
        (Inl e, h') \<Rightarrow> (Some (proxy_set_err MC2DB_ERR_INTERNAL e out), h')
      | (Inr m, h') \<Rightarrow>
          (case json_dumps js (proxy_envelope js m call_id_uuid arguments) of
             None \<Rightarrow> (Some (proxy_set_err MC2DB_ERR_INTERNAL ''failed to build proxy request envelope'' out), h')
           | Some envelope \<Rightarrow>
               (case proxy_transport lib os m envelope of
                  Inl e \<Rightarrow> (Some (proxy_set_err MC2DB_ERR_INTERNAL e out), h')
                | Inr None \<Rightarrow> (None, h')
                | Inr (Some (Inl xerr)) \<Rightarrow>
                    (Some (proxy_set_err MC2DB_ERR_UPSTREAM
                       (snprintf_trunc 768 (''upstream '' @ or_unknown (transport_type m) @ ''://''
                          @ or_unknown (remote_server_name m) @ '': '' @ xerr)) out), h')
                | Inr (Some (Inr resp_body)) \<Rightarrow> (Some (proxy_response js m resp_body out), h'))))"

section \<open>Properties\<close>

lemma proxy_set_err_shape:
  "error_complete (proxy_set_err code msg out)" "error_code (proxy_set_err code msg out) = Some code"
  "is_error (proxy_set_err code msg out)" "content (proxy_set_err code msg out) = content out"
  "structured (proxy_set_err code msg out) = structured out"
  by (simp_all add: proxy_set_err_def error_complete_def)

text \<open>What came back over the transport, \<open>None\<close> if none was tried.\<close>

definition proxy_exchange ::
  "jansson \<Rightarrow> server \<Rightarrow> curl_lib \<Rightarrow> stdio_os \<Rightarrow> string \<Rightarrow> json_t option \<Rightarrow> json_t option \<Rightarrow> stmt list \<Rightarrow>
   (string + string) option option" where
  "proxy_exchange js srv lib os call_id tool_meta arguments h =
     (case fst (load_proxy_meta js srv (json_integer_value (json_object_get tool_meta ''tool_id'')) h) of
        Inl _ \<Rightarrow> Some None
      | Inr m \<Rightarrow>
          (case json_dumps js (proxy_envelope js m call_id arguments) of
             None \<Rightarrow> Some None
           | Some envelope \<Rightarrow>
               (case proxy_transport lib os m envelope of Inl _ \<Rightarrow> Some None | Inr res \<Rightarrow> map_option Some res)))"

text \<open>The code owed for an answer: none for a success.\<close>

definition answer_code :: "jansson \<Rightarrow> string \<Rightarrow> string option" where
  "answer_code js body =
     (case parse_first_json js body of
        Inl _ \<Rightarrow> Some MC2DB_ERR_UPSTREAM
      | Inr resp \<Rightarrow>
          (if json_is_object (json_object_get (Some resp) ''error'') then Some MC2DB_ERR_TOOL_EXECUTION
           else if \<not> json_is_object (json_object_get (Some resp) ''result'') then Some MC2DB_ERR_UPSTREAM
           else if json_object_get (json_object_get (Some resp) ''result'') ''isError'' = Some JTrue
           then Some MC2DB_ERR_TOOL_EXECUTION else None))"

lemma proxy_is_error_shape:
  "error_complete (proxy_is_error ct out)" "error_code (proxy_is_error ct out) = Some MC2DB_ERR_TOOL_EXECUTION"
  "content (proxy_is_error ct out) = content out" "structured (proxy_is_error ct out) = structured out"
  by (simp_all add: proxy_is_error_def proxy_set_err_shape split: list.splits option.splits)

lemma error_complete_frame [simp]:
  "error_complete (r\<lparr>content := x\<rparr>) = error_complete r" "error_complete (r\<lparr>structured := x\<rparr>) = error_complete r"
  by (simp_all add: error_complete_def)

lemma proxy_result_complete: "error_complete (proxy_result result mc2dbd_tool_result_init)"
  by (simp add: proxy_result_def Let_def proxy_is_error_shape error_complete_init)

lemma proxy_result_shape:
  "content (proxy_result result mc2dbd_tool_result_init) = json_object_get result ''content''"
  "structured (proxy_result result mc2dbd_tool_result_init) = json_object_get result ''structuredContent''"
  "error_code (proxy_result result mc2dbd_tool_result_init) =
     (if json_object_get result ''isError'' = Some JTrue then Some MC2DB_ERR_TOOL_EXECUTION else None)"
  by (simp_all add: proxy_result_def Let_def json_is_true_def proxy_is_error_shape mc2dbd_tool_result_init_def)

lemma proxy_response_shape:
  "error_complete (proxy_response js m body mc2dbd_tool_result_init)"
  "error_code (proxy_response js m body mc2dbd_tool_result_init) = answer_code js body"
  "answer_code js body = None \<Longrightarrow> parse_first_json js body = Inr resp \<Longrightarrow>
     content (proxy_response js m body mc2dbd_tool_result_init)
       = json_object_get (json_object_get (Some resp) ''result'') ''content'' \<and>
     structured (proxy_response js m body mc2dbd_tool_result_init)
       = json_object_get (json_object_get (Some resp) ''result'') ''structuredContent''"
  by (simp_all add: proxy_response_def answer_code_def proxy_set_err_shape proxy_result_shape proxy_result_complete
      split: sum.splits if_splits)

lemma load_proxy_meta_history:
  "snd (load_proxy_meta js srv t h) = h @ [(proxy_meta_sql, [Some (fmt_d t)])]"
  by (simp add: load_proxy_meta_def pq_exec_params_def split: pg_result.splits list.splits)

lemma mcp_proxy_history:
  "\<exists>new. snd (dispatch_mcp_proxy js srv lib os c tm a u out h) = h @ new"
proof (cases "load_proxy_meta js srv (json_integer_value (json_object_get tm ''tool_id'')) h")
  case (Pair res h1)
  with load_proxy_meta_history [of js srv "json_integer_value (json_object_get tm ''tool_id'')" h]
  have "\<exists>new. h1 = h @ new" by auto
  with Pair show ?thesis by (auto simp: dispatch_mcp_proxy_def split: sum.splits option.splits)
qed

lemma mcp_proxy_cases:
  assumes "dispatch_mcp_proxy js srv lib os c tm a u out h = (Some r, h')"
  obtains (refused) msg where "proxy_exchange js srv lib os c tm a h = Some None" "r = proxy_set_err MC2DB_ERR_INTERNAL msg out"
  | (failed) e msg where "proxy_exchange js srv lib os c tm a h = Some (Some (Inl e))" "r = proxy_set_err MC2DB_ERR_UPSTREAM msg out"
  | (answered) m body where "proxy_exchange js srv lib os c tm a h = Some (Some (Inr body))" "r = proxy_response js m body out"
  using assms unfolding dispatch_mcp_proxy_def proxy_exchange_def
  by (auto split: prod.splits sum.splits option.splits)

text \<open>
  C28. A proxied call that returns reports what the remote server answered, with the error codes the
  interface documents: a tool whose transport could not be tried is an internal error, a failed
  transport or malformed response an upstream error, a JSON-RPC error or a result flagged
  \<open>isError\<close> a tool-execution error; otherwise it is a success whose content and structured content
  are exactly those of the remote result.
\<close>

theorem mcp_proxy_result:
  assumes "dispatch_mcp_proxy js srv lib os call_id tool_meta arguments user mc2dbd_tool_result_init h = (Some r, h')"
  shows "\<exists>ex. proxy_exchange js srv lib os call_id tool_meta arguments h = Some ex \<and> error_complete r \<and>
    (case ex of
       None \<Rightarrow> error_code r = Some MC2DB_ERR_INTERNAL
     | Some (Inl _) \<Rightarrow> error_code r = Some MC2DB_ERR_UPSTREAM
     | Some (Inr body) \<Rightarrow>
         error_code r = answer_code js body \<and>
         (\<forall>resp. answer_code js body = None \<longrightarrow> parse_first_json js body = Inr resp \<longrightarrow>
            content r = json_object_get (json_object_get (Some resp) ''result'') ''content'' \<and>
            structured r = json_object_get (json_object_get (Some resp) ''result'') ''structuredContent''))"
  using assms
proof (cases rule: mcp_proxy_cases)
  case (answered m body)
  then show ?thesis using proxy_response_shape [where js = js and m = m and body = body] by simp
qed (simp_all add: proxy_set_err_shape)

section \<open>Witness\<close>

definition proxy_lib :: curl_lib where
  "proxy_lib = \<lparr>curl_init_ok = True,
     curl_perform = (\<lambda>c. \<lparr>curl_error = None, http_status = 204, reply_headers = [], reply_blocks = [''{}'']\<rparr>)\<rparr>"

definition proxy_jansson :: jansson where
  "proxy_jansson = \<lparr>json_loads = (\<lambda>s. Inr (JObject [(''result'', JObject [(''content'', JArray [])])])),
     json_dumps = (\<lambda>j. Some ''{}''), utf8_ok = (\<lambda>s. True), fmt_17g = (\<lambda>r. ''0'')\<rparr>"

definition proxy_server :: server where
  "proxy_server h =
     Tuples [[Some ''t'', Some ''1000'', Some ''64'', Some ''srv'', Some ''rt'', Some ''http'', Some ''https://x/'', None, None]]"

lemma proxy_witness_run:
  "fst (dispatch_mcp_proxy proxy_jansson proxy_server proxy_lib silent_os ''c'' None None None mc2dbd_tool_result_init [])
   = Some (mc2dbd_tool_result_init\<lparr>content := Some (JArray [])\<rparr>)"
  by code_simp

theorem mcp_proxy_result_witness:
  "\<exists>r h'. dispatch_mcp_proxy proxy_jansson proxy_server proxy_lib silent_os ''c'' None None None mc2dbd_tool_result_init []
     = (Some r, h') \<and> error_complete r"
proof -
  obtain h' where d: "dispatch_mcp_proxy proxy_jansson proxy_server proxy_lib silent_os ''c'' None None None
      mc2dbd_tool_result_init [] = (Some (mc2dbd_tool_result_init\<lparr>content := Some (JArray [])\<rparr>), h')"
    using proxy_witness_run by (metis prod.collapse)
  from mcp_proxy_result [OF d] d show ?thesis by blast
qed

end
