(* ===== verification/Http_Endpoint.thy ===== *)
theory Http_Endpoint
  imports Json_Value Pg_Client Curl_Buffer
begin

text \<open>
  src/mc2dbd/src/http_endpoint.c: tools that are HTTP endpoints. The metadata, the request the
  dispatcher builds, the header callback that picks the content type, and the tool result made from
  the reply. libcurl is a parameter.
\<close>

section \<open>Metadata\<close>

record http_ep_meta =
  he_tool_id :: int
  he_tool_name :: "string option"
  he_timeout_ms :: int
  he_max_output_bytes :: int
  he_endpoint_url :: "string option"
  he_http_method :: "string option"
  he_static_headers :: json_t
  he_auth_type :: "string option"
  he_auth_token :: "string option"

definition http_ep_sql :: string where
  "http_ep_sql =
     ''SELECT t.tool_name, t.timeout_ms, t.max_output_bytes,        he.endpoint_url, he.http_method,        he.static_headers::text, he.auth_type, he.auth_token FROM maludb_core.malu$mc2db_tool t JOIN maludb_core.malu$mc2db_tool_http_endpoint he USING (tool_id) WHERE t.tool_id = $1''"

definition http_ep_of_row :: "jansson \<Rightarrow> int \<Rightarrow> string option list \<Rightarrow> http_ep_meta" where
  "http_ep_of_row js tid row =
     \<lparr>he_tool_id = tid, he_tool_name = pg_strdup_or_null row 0, he_timeout_ms = atoi (pq_getvalue row 1),
      he_max_output_bytes = atoi (pq_getvalue row 2), he_endpoint_url = pg_strdup_or_null row 3, he_http_method = pg_strdup_or_null row 4,
      he_static_headers = loads_or js (JObject []) (if pq_getisnull row 5 then ''{}'' else pq_getvalue row 5),
      he_auth_type = pg_strdup_or_null row 6, he_auth_token = pg_strdup_or_null row 7\<rparr>"

definition load_http_ep_meta ::
  "jansson \<Rightarrow> server \<Rightarrow> int \<Rightarrow> stmt list \<Rightarrow> (string + http_ep_meta) \<times> stmt list" where
  "load_http_ep_meta js srv tid h =
     (case pq_exec_params srv http_ep_sql [Some (fmt_d tid)] h of
        (Tuples [], h') \<Rightarrow>
          (Inl (snprintf_trunc 256 (''tool_id '' @ fmt_d tid @ '' has no malu$mc2db_tool_http_endpoint row'')), h')
      | (Tuples (row # _), h') \<Rightarrow> (Inr (http_ep_of_row js tid row), h')
      | (r, h') \<Rightarrow>
          (Inl (snprintf_trunc 256 (''http_endpoint metadata lookup failed: '' @ pq_error_message r)), h'))"

section \<open>Content type\<close>

definition ascii_lower :: "char \<Rightarrow> char" where
  "ascii_lower c = (if 65 \<le> (of_char c :: nat) \<and> (of_char c :: nat) \<le> 90 then char_of (of_char c + 32 :: nat) else c)"

definition is_blank :: "char \<Rightarrow> bool" where
  "is_blank c \<longleftrightarrow> c = CHR '' '' \<or> c = CHR 0x09"

definition is_blank_or_eol :: "char \<Rightarrow> bool" where
  "is_blank_or_eol c \<longleftrightarrow> c = CHR 0x0D \<or> c = CHR 0x0A \<or> c = CHR '' '' \<or> c = CHR 0x09"

definition header_value :: "string \<Rightarrow> string" where
  "header_value v = rev (dropWhile is_blank_or_eol (rev (dropWhile is_blank v)))"

text \<open>One header line; the first content type stays.\<close>

definition content_type_hdrfn :: "string \<Rightarrow> string option \<Rightarrow> string option" where
  "content_type_hdrfn line out =
     (if 13 < length line \<and> map ascii_lower (take 13 line) = ''content-type:'' \<and> out = None
      then Some (header_value (drop 13 line)) else out)"

text \<open>The value is a C string: after the compared prefix follows its end, a semicolon or a blank.\<close>

definition ct_is_json :: "string option \<Rightarrow> bool" where
  "ct_is_json ct =
     (case ct of
        None \<Rightarrow> False
      | Some s \<Rightarrow>
          map ascii_lower (take 16 s) = ''application/json'' \<and>
          (case drop 16 s of [] \<Rightarrow> True | c # _ \<Rightarrow> c = CHR 0x00 \<or> c = CHR '';'' \<or> c = CHR '' ''))"

section \<open>The request\<close>

definition ep_method :: "http_ep_meta \<Rightarrow> string" where
  "ep_method m = (case he_http_method m of Some s \<Rightarrow> (if s \<noteq> [] then s else ''POST'') | None \<Rightarrow> ''POST'')"

definition has_body :: "string \<Rightarrow> bool" where
  "has_body method \<longleftrightarrow> method = ''POST'' \<or> method = ''PUT'' \<or> method = ''PATCH''"

fun static_header_lines :: "(string \<times> json_t) list \<Rightarrow> string list" where
  "static_header_lines [] = []"
| "static_header_lines ((k, v) # ms) =
     (case v of
        JString s \<Rightarrow> snprintf_trunc 1024 (k @ '': '' @ s) # static_header_lines ms
      | _ \<Rightarrow> static_header_lines ms)"

definition bearer_line :: "http_ep_meta \<Rightarrow> string list" where
  "bearer_line m =
     (if he_auth_type m = Some ''bearer''
      then (case he_auth_token m of
              Some t \<Rightarrow> [snprintf_trunc 1024 (''Authorization: Bearer '' @ t)] | None \<Rightarrow> [])
      else [])"

definition basic_userpwd :: "http_ep_meta \<Rightarrow> string option" where
  "basic_userpwd m = (if he_auth_type m = Some ''basic'' then he_auth_token m else None)"

definition ep_call :: "http_ep_meta \<Rightarrow> string \<Rightarrow> string option \<Rightarrow> http_call" where
  "ep_call m url body =
     \<lparr>call_url = url, call_method = ep_method m, call_body = body,
      call_headers =
        (if has_body (ep_method m) then [''Content-Type: application/json''] else [])
        @ [''Accept: application/json''] @ static_header_lines (json_members (Some (he_static_headers m)))
        @ bearer_line m,
      call_userpwd = basic_userpwd m,
      call_timeout_ms = (if 0 < he_timeout_ms m then he_timeout_ms m else 30000)\<rparr>"

section \<open>The reply\<close>

definition ep_set_err :: "string \<Rightarrow> string \<Rightarrow> mc2dbd_tool_result \<Rightarrow> mc2dbd_tool_result" where
  "ep_set_err code msg r = r\<lparr>is_error := True, error_code := Some code, error_message := Some msg\<rparr>"

text \<open>Both branches that fall back to text build the block from the whole body.\<close>

definition ep_success :: "jansson \<Rightarrow> curl_reply \<Rightarrow> mc2dbd_tool_result \<Rightarrow> mc2dbd_tool_result" where
  "ep_success js reply out =
     (let cb = received reply; content_type = fold content_type_hdrfn (reply_headers reply) None in
      if ct_is_json content_type \<and> cb_cap cb \<noteq> 0
      then (case json_loads js (cb_data cb) of
              Inr parsed \<Rightarrow>
                out\<lparr>structured := Some parsed, content := Some (text_content js (c_string (take 255 (cb_data cb))))\<rparr>
            | Inl _ \<Rightarrow> out\<lparr>content := Some (text_content js (cb_data cb))\<rparr>)
      else out\<lparr>content := Some (text_content js (cb_data cb))\<rparr>)"

definition ep_reply :: "jansson \<Rightarrow> http_ep_meta \<Rightarrow> string \<Rightarrow> curl_reply \<Rightarrow> mc2dbd_tool_result \<Rightarrow> mc2dbd_tool_result" where
  "ep_reply js m url reply out =
     (case curl_error reply of
        Some e \<Rightarrow>
          ep_set_err MC2DB_ERR_UPSTREAM
            (snprintf_trunc 768 (''upstream http '' @ ep_method m @ '' '' @ url @ '': '' @ e)) out
      | None \<Rightarrow>
          (if http_status reply < 200 \<or> 300 \<le> http_status reply
           then ep_set_err MC2DB_ERR_UPSTREAM
                  (snprintf_trunc 1024 (''upstream http '' @ ep_method m @ '' '' @ url @ '' returned ''
                     @ fmt_d (http_status reply) @ '': '' @ c_string (take 255 (cb_data (received reply))))) out
           else if 0 < he_max_output_bytes m \<and> he_max_output_bytes m < int (length (cb_data (received reply)))
           then ep_set_err MC2DB_ERR_UPSTREAM
                  (snprintf_trunc 256 (''upstream response exceeds max_output_bytes=''
                     @ fmt_d (he_max_output_bytes m))) out
           else ep_success js reply out))"

text \<open>The outer option is the request body that cannot be printed; the inner one a request without body.\<close>

definition ep_body :: "jansson \<Rightarrow> http_ep_meta \<Rightarrow> json_t option \<Rightarrow> string option option" where
  "ep_body js m arguments =
     (if has_body (ep_method m)
      then map_option Some (json_dumps js (case arguments of Some a \<Rightarrow> a | None \<Rightarrow> JObject []))
      else Some None)"

definition dispatch_http_endpoint ::
  "jansson \<Rightarrow> server \<Rightarrow> curl_lib \<Rightarrow> string \<Rightarrow> json_t option \<Rightarrow> json_t option \<Rightarrow> string option \<Rightarrow>
   mc2dbd_tool_result \<Rightarrow> stmt list \<Rightarrow> mc2dbd_tool_result option \<times> stmt list" where
  "dispatch_http_endpoint js srv lib call_id_uuid tool_meta arguments request_user out h =
     (case load_http_ep_meta js srv (json_integer_value (json_object_get tool_meta ''tool_id'')) h of
        (Inl e, h') \<Rightarrow> (Some (ep_set_err MC2DB_ERR_INTERNAL e out), h')
      | (Inr m, h') \<Rightarrow>
          (case he_endpoint_url m of
             None \<Rightarrow> (Some (ep_set_err MC2DB_ERR_INTERNAL ''http_endpoint row missing endpoint_url'' out), h')
           | Some url \<Rightarrow>
               (if url = []
                then (Some (ep_set_err MC2DB_ERR_INTERNAL ''http_endpoint row missing endpoint_url'' out), h')
                else (case ep_body js m arguments of
                        None \<Rightarrow>
                          (Some (ep_set_err MC2DB_ERR_INTERNAL ''failed to serialize arguments to JSON'' out), h')
                      | Some body \<Rightarrow>
                          (if \<not> curl_init_ok lib
                           then (Some (ep_set_err MC2DB_ERR_INTERNAL ''curl_easy_init failed'' out), h')
                           else (Some (ep_reply js m url (curl_perform lib (ep_call m url body)) out), h'))))))"

section \<open>Properties\<close>

text \<open>The content type is that of the first such header, in any case of letters.\<close>

definition is_content_type :: "string \<Rightarrow> bool" where
  "is_content_type line \<longleftrightarrow> 13 < length line \<and> map ascii_lower (take 13 line) = ''content-type:''"

lemma content_type_step:
  "content_type_hdrfn l (Some t) = Some t"
  "content_type_hdrfn l None = (if is_content_type l then Some (header_value (drop 13 l)) else None)"
  by (auto simp: content_type_hdrfn_def is_content_type_def)

lemma content_type_kept: "fold content_type_hdrfn ls (Some t) = Some t"
  by (induction ls) (simp_all add: content_type_step)

lemma content_type_first:
  "fold content_type_hdrfn ls None = map_option (\<lambda>l. header_value (drop 13 l)) (find is_content_type ls)"
  by (induction ls) (simp_all add: content_type_step content_type_kept)

definition reply_json :: "curl_reply \<Rightarrow> bool" where
  "reply_json reply \<longleftrightarrow>
     (\<exists>l. find is_content_type (reply_headers reply) = Some l \<and> ct_is_json (Some (header_value (drop 13 l))))"

lemma ct_is_json_reply: "ct_is_json (fold content_type_hdrfn (reply_headers reply) None) \<longleftrightarrow> reply_json reply"
  by (simp add: content_type_first reply_json_def ct_is_json_def split: option.splits)

lemma ep_success_shape:
  "error_complete (ep_success js reply mc2dbd_tool_result_init)" "\<not> is_error (ep_success js reply mc2dbd_tool_result_init)"
  "json_is_array (content (ep_success js reply mc2dbd_tool_result_init))"
  "structured (ep_success js reply mc2dbd_tool_result_init) =
     (if reply_json reply \<and> reply_blocks reply \<noteq> []
      then (case json_loads js (concat (reply_blocks reply)) of Inr j \<Rightarrow> Some j | Inl _ \<Rightarrow> None) else None)"
  by (simp_all add: ep_success_def ct_is_json_reply received_cap received_data Let_def error_complete_def
      mc2dbd_tool_result_init_def text_content_def split: sum.splits)

lemma ep_set_err_shape: "error_complete (ep_set_err code msg out)" "is_error (ep_set_err code msg out)"
  by (simp_all add: ep_set_err_def error_complete_def)

definition reply_accepted :: "http_ep_meta \<Rightarrow> curl_reply \<Rightarrow> bool" where
  "reply_accepted m reply \<longleftrightarrow>
     curl_error reply = None \<and> 200 \<le> http_status reply \<and> http_status reply < 300 \<and>
     (he_max_output_bytes m \<le> 0 \<or> int (length (concat (reply_blocks reply))) \<le> he_max_output_bytes m)"

lemma ep_reply_cases:
  "ep_reply js m url reply out =
     (if reply_accepted m reply then ep_success js reply out
      else ep_set_err MC2DB_ERR_UPSTREAM (the (error_message (ep_reply js m url reply out))) out)"
  by (auto simp: ep_reply_def reply_accepted_def received_data ep_set_err_def split: option.splits)

lemma load_http_ep_history:
  "snd (load_http_ep_meta js srv t h) = h @ [(http_ep_sql, [Some (fmt_d t)])]"
  by (simp add: load_http_ep_meta_def pq_exec_params_def split: pg_result.splits list.splits)

text \<open>The call was made: from which metadata, and with which reply.\<close>

definition ep_exchange ::
  "jansson \<Rightarrow> server \<Rightarrow> curl_lib \<Rightarrow> json_t option \<Rightarrow> json_t option \<Rightarrow> stmt list \<Rightarrow> (http_ep_meta \<times> curl_reply) option" where
  "ep_exchange js srv lib tool_meta arguments h =
     (case fst (load_http_ep_meta js srv (json_integer_value (json_object_get tool_meta ''tool_id'')) h) of
        Inl _ \<Rightarrow> None
      | Inr m \<Rightarrow>
          (case (he_endpoint_url m, ep_body js m arguments) of
             (Some url, Some body) \<Rightarrow>
               (if url \<noteq> [] \<and> curl_init_ok lib then Some (m, curl_perform lib (ep_call m url body)) else None)
           | _ \<Rightarrow> None))"

lemma http_endpoint_cases:
  assumes "dispatch_http_endpoint js srv lib c tm a u out h = (Some r, h')"
  obtains (refused) msg where "ep_exchange js srv lib tm a h = None" "r = ep_set_err MC2DB_ERR_INTERNAL msg out"
  | (called) m reply where "ep_exchange js srv lib tm a h = Some (m, reply)"
      "r = (if reply_accepted m reply then ep_success js reply out else ep_set_err MC2DB_ERR_UPSTREAM (the (error_message r)) out)"
  using assms ep_reply_cases [of js _ _ _ out] unfolding dispatch_http_endpoint_def ep_exchange_def
  by (auto split: prod.splits sum.splits option.splits if_splits)

lemma http_endpoint_history:
  "\<exists>new. snd (dispatch_http_endpoint js srv lib c tm a u out h) = h @ new"
proof (cases "load_http_ep_meta js srv (json_integer_value (json_object_get tm ''tool_id'')) h")
  case (Pair res h1)
  with load_http_ep_history [of js srv "json_integer_value (json_object_get tm ''tool_id'')" h]
  have "\<exists>new. h1 = h @ new" by auto
  with Pair show ?thesis by (auto simp: dispatch_http_endpoint_def split: sum.splits option.splits)
qed

text \<open>
  C29. An HTTP tool succeeds exactly when the call to the endpoint of its catalog row was made, the
  transfer completed with a status in 200..299 and the body is within the tool's limit. The result
  then has a content array, and a structured content exactly when the first content type of the
  reply, in any case of letters, is \<open>application/json\<close> and the reassembled body parses; every other
  outcome is an error with a code and a message.
\<close>

theorem http_endpoint_result:
  assumes "dispatch_http_endpoint js srv lib call_id tool_meta arguments user mc2dbd_tool_result_init h = (Some r, h')"
  shows "error_complete r \<and>
    (\<not> is_error r \<longleftrightarrow>
      (\<exists>m reply. ep_exchange js srv lib tool_meta arguments h = Some (m, reply) \<and> reply_accepted m reply)) \<and>
    (\<forall>m reply. ep_exchange js srv lib tool_meta arguments h = Some (m, reply) \<longrightarrow> reply_accepted m reply \<longrightarrow>
       json_is_array (content r) \<and>
       structured r = (if reply_json reply \<and> reply_blocks reply \<noteq> []
                       then (case json_loads js (concat (reply_blocks reply)) of Inr j \<Rightarrow> Some j | Inl _ \<Rightarrow> None)
                       else None))"
  using assms
proof (cases rule: http_endpoint_cases)
  case (refused msg)
  then show ?thesis by (simp add: ep_set_err_shape)
next
  case (called m reply)
  show ?thesis
  proof (cases "reply_accepted m reply")
    case True
    with called(2) have "r = ep_success js reply mc2dbd_tool_result_init" by simp
    with called(1) True ep_success_shape [of js reply] show ?thesis by simp
  next
    case False
    with called(2) have "error_complete r" "is_error r"
      using ep_set_err_shape [of MC2DB_ERR_UPSTREAM "the (error_message r)" mc2dbd_tool_result_init] by simp_all
    with called(1) False show ?thesis by simp
  qed
qed

text \<open>A bearer token is cut so that the header line has at most 1023 characters.\<close>

lemma bearer_line_truncated:
  assumes "he_auth_type m = Some ''bearer''" "he_auth_token m = Some t" "1001 < length t"
  shows "bearer_line m = [''Authorization: Bearer '' @ take 1001 t]"
  using assms by (simp add: bearer_line_def snprintf_trunc_def take_Cons')

section \<open>Witness\<close>

definition echo_lib :: curl_lib where
  "echo_lib = \<lparr>curl_init_ok = True,
     curl_perform = (\<lambda>c. \<lparr>curl_error = None, http_status = 200,
       reply_headers = [''Content-TYPE: application/json; charset=utf-8'' @ [CHR 0x0D, CHR 0x0A]],
       reply_blocks = [''{'', ''}'']\<rparr>)\<rparr>"

definition ep_jansson :: jansson where
  "ep_jansson = \<lparr>json_loads = (\<lambda>s. Inr (JObject [])), json_dumps = (\<lambda>j. Some ''{}''), utf8_ok = (\<lambda>s. True),
     fmt_17g = (\<lambda>r. ''0'')\<rparr>"

definition ep_server :: server where
  "ep_server h = Tuples [[Some ''t'', Some ''1000'', Some ''64'', Some ''https://x/'', Some ''PUT'', None, Some ''bearer'', Some ''k'']]"

definition ep_tool :: "json_t option" where
  "ep_tool = Some (JObject [(''tool_id'', JInteger 7)])"

lemma ep_witness_run:
  "fst (dispatch_http_endpoint ep_jansson ep_server echo_lib ''c'' ep_tool None None mc2dbd_tool_result_init [])
   = Some (ep_success ep_jansson (curl_perform echo_lib undefined) mc2dbd_tool_result_init)"
  by (simp add: dispatch_http_endpoint_def load_http_ep_meta_def pq_exec_params_def ep_server_def http_ep_of_row_def
      ep_jansson_def ep_body_def has_body_def ep_method_def echo_lib_def ep_reply_def received_data loads_or_def
      strtoll10_defs pq_getvalue_def)

theorem http_endpoint_result_witness:
  "\<exists>r h'. dispatch_http_endpoint ep_jansson ep_server echo_lib ''c'' ep_tool None None mc2dbd_tool_result_init []
     = (Some r, h') \<and> \<not> is_error r \<and> error_complete r"
proof -
  obtain h' where d: "dispatch_http_endpoint ep_jansson ep_server echo_lib ''c'' ep_tool None None mc2dbd_tool_result_init []
     = (Some (ep_success ep_jansson (curl_perform echo_lib undefined) mc2dbd_tool_result_init), h')"
    using ep_witness_run by (metis prod.collapse)
  from http_endpoint_result [OF d] d show ?thesis using ep_success_shape(2) by blast
qed

end
