(* ===== verification/Dispatch.thy ===== *)
theory Dispatch
  imports Db_Access External_Exec Mcp_Proxy Http_Endpoint
begin

text \<open>
  src/mc2dbd/src/dispatch.c: the SQL-function dispatcher with its transaction, and the dispatcher over
  implementation types with the audit row. The two readings of the clock are arguments.
  \<open>dispatch_env\<close> gathers the libraries and the operating system the dispatchers call.
\<close>

section \<open>SQL functions\<close>

definition set_error :: "jansson \<Rightarrow> string \<Rightarrow> string \<Rightarrow> mc2dbd_tool_result \<Rightarrow> mc2dbd_tool_result" where
  "set_error js code msg r = r\<lparr>is_error := True, error_code := Some code, error_message := Some msg,
     content := Some (text_content js msg)\<rparr>"

definition MC2DB_ERR_TOOL_DISABLED :: string where "MC2DB_ERR_TOOL_DISABLED = ''TOOL_DISABLED''"

definition func_name_of :: "string \<Rightarrow> string" where
  "func_name_of func_sig =
     take 255 (rev (dropWhile (\<lambda>c. c = CHR '' '' \<or> c = CHR 0x09)
       (rev (case strchr func_sig (CHR ''('') of None \<Rightarrow> func_sig | Some i \<Rightarrow> take i func_sig))))"

definition call_sql :: "string \<Rightarrow> string" where
  "call_sql func_name = snprintf_trunc 1024 (''SELECT '' @ func_name @ ''($1::jsonb, $2::jsonb)'')"

definition call_params ::
  "jansson \<Rightarrow> string \<Rightarrow> json_t option \<Rightarrow> string option \<Rightarrow> string option list" where
  "call_params js call_id_uuid arguments request_user =
     [json_dumps js (case arguments of Some a \<Rightarrow> a | None \<Rightarrow> JObject []),
      json_dumps js (JObject (str_member js ''call_id'' call_id_uuid
        @ str_member js ''request_user'' (case request_user of Some u \<Rightarrow> u | None \<Rightarrow> ''anonymous'')))]"

text \<open>The result composed from what the request context captured.\<close>

definition payload_error :: "jansson \<Rightarrow> json_t option \<Rightarrow> mc2dbd_tool_result \<Rightarrow> mc2dbd_tool_result" where
  "payload_error js payload out =
     (let e = json_object_get (json_object_get payload ''structuredContent'') ''error'';
          msg = (case json_string_value (json_object_get e ''message'') of
                   None \<Rightarrow> ''tool reported error'' | Some m \<Rightarrow> m);
          o1 = set_error js MC2DB_ERR_TOOL_EXECUTION msg out;
          ct = json_object_get payload ''content''
      in if json_is_array ct then o1\<lparr>content := ct\<rparr> else o1)"

definition payload_success :: "json_t option \<Rightarrow> mc2dbd_tool_result \<Rightarrow> mc2dbd_tool_result" where
  "payload_success payload out =
     (let ct = json_object_get payload ''content''; sc = json_object_get payload ''structuredContent'';
          o1 = (if json_is_array ct then out\<lparr>content := ct\<rparr> else out)
      in if sc \<noteq> None then o1\<lparr>structured := sc\<rparr> else o1)"

definition compose_result :: "jansson \<Rightarrow> json_t option \<Rightarrow> mc2dbd_tool_result \<Rightarrow> mc2dbd_tool_result" where
  "compose_result js captured out =
     (let payload = json_object_get captured ''payload''; texts = json_object_get captured ''text_blocks'' in
      if json_is_object payload
      then (if json_is_true (json_object_get payload ''isError'') then payload_error js payload out
            else payload_success payload out)
      else if json_is_array texts \<and> json_array_items texts \<noteq> [] then out\<lparr>content := texts\<rparr>
      else out\<lparr>content := Some (text_content js ''ok'')\<rparr>)"

definition commit_result :: "jansson \<Rightarrow> pg_result \<Rightarrow> json_t option \<Rightarrow> mc2dbd_tool_result \<Rightarrow> mc2dbd_tool_result" where
  "commit_result js r captured out =
     (if r \<noteq> CommandOk then set_error js MC2DB_ERR_INTERNAL ''COMMIT failed'' out
      else compose_result js captured out)"

definition dispatch_sql_function ::
  "jansson \<Rightarrow> server \<Rightarrow> string \<Rightarrow> json_t option \<Rightarrow> json_t option \<Rightarrow> string option \<Rightarrow>
   mc2dbd_tool_result \<Rightarrow> stmt list \<Rightarrow> mc2dbd_tool_result \<times> stmt list" where
  "dispatch_sql_function js srv call_id_uuid tool_meta arguments request_user out h =
     (case json_string_value (json_object_get tool_meta ''function_signature'') of
        None \<Rightarrow> (set_error js MC2DB_ERR_INTERNAL ''sql_function tool has no function_signature'' out, h)
      | Some func_sig \<Rightarrow>
          (case pq_exec srv ''BEGIN'' h of (_, h1) \<Rightarrow>
          (case db_begin_request srv call_id_uuid
                  (json_string_value (json_object_get tool_meta ''tool_name'')) h1 of
             (Inl e, h2) \<Rightarrow>
               (case pq_exec srv ''ROLLBACK'' h2 of (_, h3) \<Rightarrow>
                  (set_error js MC2DB_ERR_INTERNAL (if e \<noteq> [] then e else ''begin_request failed'') out, h3))
           | (Inr _, h2) \<Rightarrow>
               (case pq_exec_params srv (call_sql (func_name_of func_sig))
                       (call_params js call_id_uuid arguments request_user) h2 of
                  (PgError m, h3) \<Rightarrow>
                    (case pq_exec srv ''ROLLBACK'' h3 of (_, h4) \<Rightarrow>
                       (set_error js MC2DB_ERR_TOOL_EXECUTION
                          (trim_newlines (snprintf_trunc 512 (if m \<noteq> [] then m else ''function execution failed'')))
                          out, h4))
                | (_, h3) \<Rightarrow>
                    (case db_end_request js srv h3 of (captured, h4) \<Rightarrow>
                    (case pq_exec srv ''COMMIT'' h4 of (r, h5) \<Rightarrow>
                       (commit_result js r captured out, h5)))))))"

section \<open>All implementation types\<close>

type_synonym dispatcher =
  "string \<Rightarrow> json_t option \<Rightarrow> json_t option \<Rightarrow> string option \<Rightarrow> mc2dbd_tool_result \<Rightarrow> stmt list \<Rightarrow>
   mc2dbd_tool_result option \<times> stmt list"

text \<open>The SQL dispatcher always returns.\<close>

definition sql_dispatcher :: "jansson \<Rightarrow> server \<Rightarrow> dispatcher" where
  "sql_dispatcher js srv c tm a u out h =
     (case dispatch_sql_function js srv c tm a u out h of (r, h') \<Rightarrow> (Some r, h'))"

text \<open>
  The monotonic clock in milliseconds, kept in an \<open>int\<close>: it wraps after 24 days of uptime. The
  difference of two readings is taken in \<open>int\<close> too, with wrap-around (the C standard leaves a signed
  overflow undefined; the supported compilers wrap).
\<close>

record timespec =
  tv_sec :: int
  tv_nsec :: int

definition monotonic_ms :: "timespec \<Rightarrow> int" where
  "monotonic_ms ts = tv_sec ts * 1000 + tv_nsec ts div 1000000"

definition now_ms :: "timespec \<Rightarrow> int" where
  "now_ms ts = sint (word_of_int (monotonic_ms ts) :: 32 word)"

definition elapsed_ms :: "timespec \<Rightarrow> timespec \<Rightarrow> int" where
  "elapsed_ms began ended = sint (word_of_int (now_ms ended - now_ms began) :: 32 word)"

record dispatch_env =
  env_jansson :: jansson
  env_os :: exec_os
  env_curl :: curl_lib
  env_stdio :: stdio_os
  clock_start :: timespec
  clock_end :: timespec

definition run_dispatch :: "dispatch_env \<Rightarrow> server \<Rightarrow> dispatcher" where
  "run_dispatch env srv call_id_uuid tool_meta arguments request_user out h =
     (if json_is_false (json_object_get tool_meta ''enabled'')
      then (Some (set_error (env_jansson env) MC2DB_ERR_TOOL_DISABLED ''tool is disabled'' out), h)
      else (case json_string_value (json_object_get tool_meta ''implementation_type'') of
              None \<Rightarrow> (Some (set_error (env_jansson env) MC2DB_ERR_INTERNAL ''tool has no implementation_type'' out), h)
            | Some impl \<Rightarrow>
                (if impl = ''sql_function''
                 then sql_dispatcher (env_jansson env) srv call_id_uuid tool_meta arguments request_user out h
                 else if impl = ''external_exec''
                 then dispatch_external_exec (env_jansson env) srv (env_os env) call_id_uuid tool_meta arguments
                        request_user out h
                 else if impl = ''mcp_proxy''
                 then dispatch_mcp_proxy (env_jansson env) srv (env_curl env) (env_stdio env) call_id_uuid tool_meta
                        arguments request_user out h
                 else if impl = ''http_endpoint''
                 then dispatch_http_endpoint (env_jansson env) srv (env_curl env) call_id_uuid tool_meta arguments
                        request_user out h
                 else (Some (set_error (env_jansson env) MC2DB_ERR_INTERNAL
                        (snprintf_trunc 128 (''unknown implementation_type: '' @ impl)) out), h))))"

definition audit_of ::
  "dispatch_env \<Rightarrow> string \<Rightarrow> json_t option \<Rightarrow> string option \<Rightarrow> mc2dbd_tool_result \<Rightarrow> audit_row" where
  "audit_of env call_id_uuid tool_meta request_user r =
     \<lparr>aud_call_id = call_id_uuid, aud_tool_id = json_integer_value (json_object_get tool_meta ''tool_id''),
      aud_tool_name = json_string_value (json_object_get tool_meta ''tool_name''),
      aud_impl = (case json_string_value (json_object_get tool_meta ''implementation_type'') of
                    Some i \<Rightarrow> i | None \<Rightarrow> ''unknown''),
      aud_user = request_user, aud_success = (\<not> is_error r), aud_error_code = error_code r,
      aud_error_message = error_message r, aud_duration_ms = elapsed_ms (clock_start env) (clock_end env)\<rparr>"

definition dispatch_tool :: "dispatch_env \<Rightarrow> server \<Rightarrow> dispatcher" where
  "dispatch_tool env srv call_id_uuid tool_meta arguments request_user out h =
     (case run_dispatch env srv call_id_uuid tool_meta arguments request_user out h of
        (None, h') \<Rightarrow> (None, h')
      | (Some r, h') \<Rightarrow> (Some r, snd (db_audit_write srv (audit_of env call_id_uuid tool_meta request_user r) h')))"

section \<open>The transaction\<close>

definition tx_sql :: "string set" where
  "tx_sql = {''BEGIN'', ''COMMIT'', ''ROLLBACK''}"

lemma set_error_complete: "error_complete (set_error js code msg out)" "is_error (set_error js code msg out)"
  "json_is_array (content (set_error js code msg out))"
  by (simp_all add: error_complete_def set_error_def text_content_def)

lemma db_begin_request_history:
  "snd (db_begin_request srv c n h) = h @ [(begin_request_sql, [Some c, n])]"
  by (simp add: db_begin_request_def pq_exec_params_def split: pg_result.splits)

lemma db_end_request_history: "snd (db_end_request js srv h) = h @ [(end_request_sql, [])]"
  by (simp add: db_end_request_def pq_exec_def pq_exec_params_def split: pg_result.splits list.splits)

lemma db_audit_write_history: "snd (db_audit_write srv a h) = h @ [(audit_sql, audit_params a)]"
  by (simp add: db_audit_write_def pq_exec_params_def)

lemma call_sql_not_tx: "call_sql f \<notin> tx_sql"
  by (auto simp: call_sql_def tx_sql_def snprintf_trunc_def take_Cons')

lemma context_sql_not_tx: "begin_request_sql \<notin> tx_sql" "end_request_sql \<notin> tx_sql" "audit_sql \<notin> tx_sql"
  by (simp_all add: begin_request_sql_def end_request_sql_def audit_sql_def tx_sql_def)

lemma pq_exec_pair: "pq_exec srv sql h = (srv (h @ [(sql, [])]), h @ [(sql, [])])"
  by (simp add: pq_exec_def pq_exec_params_def)

text \<open>The four ways through a call with a signature, with the statements each sends.\<close>

definition tx_opening :: "string \<Rightarrow> json_t option \<Rightarrow> stmt list" where
  "tx_opening call_id tool_meta =
     [(''BEGIN'', []), (begin_request_sql, [Some call_id, json_string_value (json_object_get tool_meta ''tool_name'')])]"

definition the_call :: "jansson \<Rightarrow> string \<Rightarrow> string \<Rightarrow> json_t option \<Rightarrow> string option \<Rightarrow> stmt" where
  "the_call js func_sig call_id arguments user =
     (call_sql (func_name_of func_sig), call_params js call_id arguments user)"

lemma dispatch_sql_cases:
  assumes sig: "json_string_value (json_object_get tool_meta ''function_signature'') = Some func_sig"
    and d: "dispatch_sql_function js srv call_id tool_meta arguments user out h = (r, h')"
  obtains
    (refused) e where "h' = h @ tx_opening call_id tool_meta @ [(''ROLLBACK'', [])]"
      "r = set_error js MC2DB_ERR_INTERNAL e out"
  | (failed) m e where
      "h' = h @ tx_opening call_id tool_meta @ [the_call js func_sig call_id arguments user, (''ROLLBACK'', [])]"
      "srv (h @ tx_opening call_id tool_meta @ [the_call js func_sig call_id arguments user]) = PgError m"
      "r = set_error js MC2DB_ERR_TOOL_EXECUTION e out"
  | (committed) captured where
      "h' = h @ tx_opening call_id tool_meta @ [the_call js func_sig call_id arguments user, (end_request_sql, []), (''COMMIT'', [])]"
      "\<forall>m. srv (h @ tx_opening call_id tool_meta @ [the_call js func_sig call_id arguments user]) \<noteq> PgError m"
      "captured = fst (db_end_request js srv (h @ tx_opening call_id tool_meta @ [the_call js func_sig call_id arguments user]))"
      "r = commit_result js (srv h') captured out"
      "\<exists>rows. srv (h @ tx_opening call_id tool_meta) = Tuples rows"
proof -
  let ?h2 = "h @ tx_opening call_id tool_meta"
  let ?h3 = "?h2 @ [the_call js func_sig call_id arguments user]"
  let ?tn = "json_string_value (json_object_get tool_meta ''tool_name'')"
  have h2: "snd (db_begin_request srv call_id ?tn (h @ [(''BEGIN'', [])])) = ?h2"
    by (simp add: db_begin_request_history tx_opening_def)
  show thesis
  proof (cases "fst (db_begin_request srv call_id ?tn (h @ [(''BEGIN'', [])]))")
    case (Inl e)
    then have b: "db_begin_request srv call_id ?tn (h @ [(''BEGIN'', [])]) = (Inl e, ?h2)"
      using h2 by (metis prod.collapse)
    from d show thesis unfolding dispatch_sql_function_def sig option.case pq_exec_pair prod.case b sum.case
      by (intro refused) auto
  next
    case (Inr u)
    then have b: "db_begin_request srv call_id ?tn (h @ [(''BEGIN'', [])]) = (Inr u, ?h2)"
      using h2 by (metis prod.collapse)
    from Inr have opened: "\<exists>rows. srv ?h2 = Tuples rows"
      by (auto simp: db_begin_request_def pq_exec_params_def tx_opening_def split: pg_result.splits)
    have c: "pq_exec_params srv (call_sql (func_name_of func_sig)) (call_params js call_id arguments user) ?h2
        = (srv ?h3, ?h3)" by (simp add: pq_exec_params_def the_call_def)
    obtain captured where e: "db_end_request js srv ?h3 = (captured, ?h3 @ [(end_request_sql, [])])"
      by (metis db_end_request_history prod.collapse)
    note body = d [unfolded dispatch_sql_function_def sig option.case pq_exec_pair prod.case b sum.case c]
    show thesis
    proof (cases "srv ?h3")
      case (PgError m)
      then show thesis using body by (intro failed [of m]) auto
    next
      case (Tuples rows)
      with body e opened show thesis by (intro committed [of captured]) (auto simp: pq_exec_pair)
    next
      case CommandOk
      with body e opened show thesis by (intro committed [of captured]) (auto simp: pq_exec_pair)
    qed
  qed
qed

lemma tx_opening_not_tx: "\<exists>st. tx_opening c tm = (''BEGIN'', []) # [st] \<and> fst st \<notin> tx_sql"
  by (simp add: tx_opening_def context_sql_not_tx)

lemma the_call_not_tx: "fst (the_call js sg c a u) \<notin> tx_sql"
  by (simp add: the_call_def call_sql_not_tx)

text \<open>
  C30. A call of a tool with a function signature is bracketed as one transaction: BEGIN, statements
  that do not control transactions, and one COMMIT or ROLLBACK at the end, whatever the server
  answers. After a ROLLBACK the result is an error; for a result that is not an error COMMIT was sent
  last, the server answered it with command-ok, and it had answered neither the request context nor
  the function call with an error. Command-ok is all the code asks of the COMMIT: the server also gives it when it rolls
  back a transaction that an unchecked statement has aborted, see \<open>failed_end_request_reported_ok\<close>.
\<close>

theorem sql_function_transaction:
  assumes "json_string_value (json_object_get tool_meta ''function_signature'') = Some func_sig"
    and "dispatch_sql_function js srv call_id tool_meta arguments user out h = (r, h')"
  shows "\<exists>mid fin. h' = h @ (''BEGIN'', []) # mid @ [(fin, [])] \<and> fin \<in> {''COMMIT'', ''ROLLBACK''} \<and>
    (\<forall>st \<in> set mid. fst st \<notin> tx_sql) \<and> (fin = ''ROLLBACK'' \<longrightarrow> is_error r) \<and>
    (\<not> is_error r \<longrightarrow> fin = ''COMMIT'' \<and> srv h' = CommandOk \<and>
      (\<forall>m. srv (h @ tx_opening call_id tool_meta) \<noteq> PgError m) \<and>
      (\<forall>m. srv (h @ tx_opening call_id tool_meta @ [the_call js func_sig call_id arguments user]) \<noteq> PgError m))"
proof -
  obtain st where st: "tx_opening call_id tool_meta = (''BEGIN'', []) # [st]" "fst st \<notin> tx_sql"
    using tx_opening_not_tx by blast
  note call = the_call_not_tx [of js func_sig call_id arguments user]
  from assms show ?thesis
  proof (cases rule: dispatch_sql_cases)
    case (refused e)
    then show ?thesis using st
      by (intro exI [of _ "[st]"] exI [of _ "''ROLLBACK''"]) (simp add: set_error_complete)
  next
    case (failed m e)
    then show ?thesis using st call
      by (intro exI [of _ "[st, the_call js func_sig call_id arguments user]"] exI [of _ "''ROLLBACK''"])
        (simp add: set_error_complete)
  next
    case (committed captured)
    have "srv h' = CommandOk" if "\<not> is_error r"
      using committed(4) that by (auto simp: commit_result_def set_error_complete split: if_splits)
    moreover have "srv (h @ tx_opening call_id tool_meta) \<noteq> PgError m" for m using committed(5) by auto
    ultimately show ?thesis using committed st call context_sql_not_tx(2)
      by (intro exI [of _ "[st, the_call js func_sig call_id arguments user, (end_request_sql, [])]"]
          exI [of _ "''COMMIT''"]) simp
  qed
qed

text \<open>
  The outcome of \<open>_end_request\<close> is not checked: when it fails and the server still answers the
  COMMIT of the aborted transaction (which PostgreSQL executes as a rollback) with command-ok, the
  tool's work is lost and the caller is told \<open>ok\<close>.
\<close>

lemma failed_end_request_reported_ok:
  assumes "json_string_value (json_object_get tool_meta ''function_signature'') = Some func_sig"
    and "\<And>h c n. fst (db_begin_request srv c n h) = Inr ()"
    and "\<And>h m. srv (h @ [the_call js func_sig call_id arguments user]) \<noteq> PgError m"
    and "\<And>h. srv (h @ [(end_request_sql, [])]) = PgError lost"
    and "\<And>h. srv (h @ [(''COMMIT'', [])]) = CommandOk"
  shows "fst (dispatch_sql_function js srv call_id tool_meta arguments user mc2dbd_tool_result_init h)
         = mc2dbd_tool_result_init\<lparr>content := Some (text_content js ''ok'')\<rparr>"
proof -
  obtain r h' where d: "dispatch_sql_function js srv call_id tool_meta arguments user mc2dbd_tool_result_init h = (r, h')"
    by (rule prod.exhaust)
  have b: "db_begin_request srv c n h0 = (Inr (), h0 @ [(begin_request_sql, [Some c, n])])" for c n h0
    using assms(2) [of c n h0] db_begin_request_history [of srv c n h0] by (metis prod.collapse)
  from assms(1) d have "r = mc2dbd_tool_result_init\<lparr>content := Some (text_content js ''ok'')\<rparr>"
  proof (cases rule: dispatch_sql_cases)
    case (refused e)
    with d assms(1) b show ?thesis
      by (auto simp: dispatch_sql_function_def pq_exec_pair pq_exec_params_def db_end_request_def assms(3,4,5)
          tx_opening_def split: pg_result.splits prod.splits)
  next
    case (failed m e)
    then show ?thesis using assms(3) [of "h @ tx_opening call_id tool_meta" m] by simp
  next
    case (committed captured)
    have "fst (db_end_request js srv h0) = None" for h0
      by (simp add: db_end_request_def pq_exec_pair assms(4))
    then have "captured = None" using committed(3) by simp
    moreover have "srv h' = CommandOk" unfolding committed(1)
      using assms(5) [of "h @ tx_opening call_id tool_meta @ [the_call js func_sig call_id arguments user, (end_request_sql, [])]"]
      by simp
    ultimately show ?thesis using committed(4) by (simp add: commit_result_def compose_result_def)
  qed
  with d show ?thesis by simp
qed

definition quiet_server :: "pg_result \<Rightarrow> server" where
  "quiet_server ended h =
     (if fst (last h) = end_request_sql then ended
      else if fst (last h) \<in> tx_sql then CommandOk else Tuples [[Some []]])"

definition sample_tool :: "json_t option" where
  "sample_tool = Some (JObject [(''tool_id'', JInteger 3), (''tool_name'', JString ''t''),
     (''implementation_type'', JString ''sql_function''), (''enabled'', JTrue),
     (''function_signature'', JString ''s.f(jsonb,jsonb)'')])"

lemma sample_tool_sig: "json_string_value (json_object_get sample_tool ''function_signature'') = Some ''s.f(jsonb,jsonb)''"
  by (simp add: sample_tool_def)

lemma failed_end_request_reported_ok_example:
  "fst (dispatch_sql_function ok_jansson (quiet_server (PgError ''aborted'')) ''c'' sample_tool None None mc2dbd_tool_result_init [])
   = mc2dbd_tool_result_init\<lparr>content := Some (text_content ok_jansson ''ok'')\<rparr>"
proof (rule failed_end_request_reported_ok [OF sample_tool_sig])
  show "fst (db_begin_request (quiet_server (PgError ''aborted'')) c n h) = Inr ()" for h c n
    using context_sql_not_tx(1)
    by (simp add: db_begin_request_def pq_exec_params_def quiet_server_def begin_request_sql_def end_request_sql_def)
  show "quiet_server (PgError ''aborted'') (h @ [the_call ok_jansson ''s.f(jsonb,jsonb)'' ''c'' None None]) \<noteq> PgError m" for h m
    using the_call_not_tx [of ok_jansson "''s.f(jsonb,jsonb)''" "''c''" None None]
    by (simp add: quiet_server_def the_call_def call_sql_def snprintf_trunc_def end_request_sql_def func_name_of_def)
  show "quiet_server (PgError ''aborted'') (h @ [(end_request_sql, [])]) = PgError ''aborted''" for h
    by (simp add: quiet_server_def)
  show "quiet_server (PgError ''aborted'') (h @ [(''COMMIT'', [])]) = CommandOk" for h
    by (simp add: quiet_server_def end_request_sql_def tx_sql_def)
qed

theorem sql_function_transaction_witness:
  "\<exists>r h' mid fin. dispatch_sql_function ok_jansson (quiet_server (Tuples [])) ''c'' sample_tool None None
      mc2dbd_tool_result_init [] = (r, h') \<and> h' = (''BEGIN'', []) # mid @ [(fin, [])]"
proof -
  obtain r h' where d: "dispatch_sql_function ok_jansson (quiet_server (Tuples [])) ''c'' sample_tool None None
      mc2dbd_tool_result_init [] = (r, h')" by (rule prod.exhaust)
  from sql_function_transaction [OF sample_tool_sig d] d show ?thesis by auto
qed

section \<open>The audit row\<close>

text \<open>
  The contract of a dispatcher: it only adds statements to the connection, and what it returns for
  a fresh result is complete.
\<close>

locale tool_dispatcher =
  fixes d :: dispatcher
  assumes extends: "\<exists>new. snd (d c tm a u out h) = h @ new"
    and complete: "d c tm a u mc2dbd_tool_result_init h = (Some r, h') \<Longrightarrow> error_complete r"
begin

lemma history: "d c tm a u out h = (res, h') \<Longrightarrow> \<exists>new. h' = h @ new"
  using extends [of c tm a u out h] by simp

lemma audited:
  assumes "d c tm a u mc2dbd_tool_result_init h = (Some r, h1)"
  shows "error_complete r \<and> (\<exists>new. snd (db_audit_write srv x h1) = h @ new @ [(audit_sql, audit_params x)])"
  using history [OF assms] complete [OF assms] by (auto simp: db_audit_write_history)

end

lemma compose_result_complete: "error_complete (compose_result js captured mc2dbd_tool_result_init)"
  by (auto simp: compose_result_def payload_error_def payload_success_def set_error_def error_complete_def
      mc2dbd_tool_result_init_def text_content_def Let_def)

interpretation sql_tool: tool_dispatcher "sql_dispatcher js srv" for js srv
proof
  fix c tm a u out h
  obtain r h' where d: "dispatch_sql_function js srv c tm a u out h = (r, h')" by (rule prod.exhaust)
  have "\<exists>new. h' = h @ new"
  proof (cases "json_string_value (json_object_get tm ''function_signature'')")
    case None
    with d show ?thesis by (simp add: dispatch_sql_function_def)
  next
    case (Some sg)
    from Some d show ?thesis by (cases rule: dispatch_sql_cases) auto
  qed
  with d show "\<exists>new. snd (sql_dispatcher js srv c tm a u out h) = h @ new" by (simp add: sql_dispatcher_def)
next
  fix c tm a u h r h'
  assume "sql_dispatcher js srv c tm a u mc2dbd_tool_result_init h = (Some r, h')"
  then have d: "dispatch_sql_function js srv c tm a u mc2dbd_tool_result_init h = (r, h')"
    by (simp add: sql_dispatcher_def split: prod.splits)
  show "error_complete r"
  proof (cases "json_string_value (json_object_get tm ''function_signature'')")
    case None
    with d show ?thesis by (auto simp: dispatch_sql_function_def set_error_complete)
  next
    case (Some sg)
    from Some d show ?thesis
      by (cases rule: dispatch_sql_cases)
        (auto simp: set_error_complete commit_result_def compose_result_complete)
  qed
qed

lemma load_exec_meta_history: "snd (load_exec_meta js srv t h) = h @ [(exec_meta_sql, [Some (fmt_d t)])]"
  by (simp add: load_exec_meta_def pq_exec_params_def split: pg_result.splits list.splits)

interpretation exec_tool: tool_dispatcher "dispatch_external_exec js srv os" for js srv os
proof
  fix c tm a u out h
  show "\<exists>new. snd (dispatch_external_exec js srv os c tm a u out h) = h @ new"
  proof (cases "load_exec_meta js srv (json_integer_value (json_object_get tm ''tool_id'')) h")
    case (Pair res h1)
    with load_exec_meta_history [of js srv "json_integer_value (json_object_get tm ''tool_id'')" h]
    have "\<exists>new. h1 = h @ new" by auto
    then show ?thesis using Pair by (auto simp: dispatch_external_exec_def split: sum.splits option.splits)
  qed
next
  fix c tm a u h r h'
  assume "dispatch_external_exec js srv os c tm a u mc2dbd_tool_result_init h = (Some r, h')"
  then show "error_complete r"
    by (cases rule: dispatch_exec_cases) (auto simp: set_err_complete exec_outcome_complete)
qed

interpretation proxy_tool: tool_dispatcher "dispatch_mcp_proxy js srv lib os" for js srv lib os
proof
  show "\<exists>new. snd (dispatch_mcp_proxy js srv lib os c tm a u out h) = h @ new" for c tm a u out h
    by (rule mcp_proxy_history)
  show "error_complete r" if "dispatch_mcp_proxy js srv lib os c tm a u mc2dbd_tool_result_init h = (Some r, h')"
    for c tm a u h r h'
    using that by (cases rule: mcp_proxy_cases) (simp_all add: proxy_set_err_shape proxy_response_shape)
qed

interpretation endpoint_tool: tool_dispatcher "dispatch_http_endpoint js srv lib" for js srv lib
proof
  show "\<exists>new. snd (dispatch_http_endpoint js srv lib c tm a u out h) = h @ new" for c tm a u out h
    by (rule http_endpoint_history)
  show "error_complete r" if "dispatch_http_endpoint js srv lib c tm a u mc2dbd_tool_result_init h = (Some r, h')"
    for c tm a u h r h'
    using that
  proof (cases rule: http_endpoint_cases)
    case (called m reply)
    then show ?thesis by (metis ep_set_err_shape(1) ep_success_shape(1))
  qed (simp add: ep_set_err_shape)
qed

interpretation any_tool: tool_dispatcher "run_dispatch env srv" for env srv
proof
  show "\<exists>new. snd (run_dispatch env srv c tm a u out h) = h @ new" for c tm a u out h
    using sql_tool.extends exec_tool.extends proxy_tool.extends endpoint_tool.extends
    unfolding run_dispatch_def by (auto split: option.splits)
  show "error_complete r" if "run_dispatch env srv c tm a u mc2dbd_tool_result_init h = (Some r, h')"
    for c tm a u h r h'
    using that sql_tool.complete exec_tool.complete proxy_tool.complete endpoint_tool.complete
    unfolding run_dispatch_def by (auto simp: set_error_complete split: option.splits if_splits)
qed

lemma elapsed_ms_exact:
  assumes "0 \<le> monotonic_ms ended - monotonic_ms began" and "monotonic_ms ended - monotonic_ms began < 2 ^ 31"
  shows "elapsed_ms began ended = monotonic_ms ended - monotonic_ms began"
proof -
  have "(word_of_int (now_ms ended - now_ms began) :: 32 word) = word_of_int (monotonic_ms ended - monotonic_ms began)"
    by (simp add: now_ms_def)
  then have "elapsed_ms began ended = sint (word_of_int (monotonic_ms ended - monotonic_ms began) :: 32 word)"
    by (simp only: elapsed_ms_def)
  also have "\<dots> = monotonic_ms ended - monotonic_ms began" using assms by (intro sint_of_int_32) auto
  finally show ?thesis .
qed

text \<open>
  C31. Every dispatch that returns is complete and audited, for every implementation type: exactly
  the errors have a code and a message, and the last statement on the connection inserts an audit row
  with the call id, the tool's id, name and type, the user, success \<open>t\<close> exactly when the result is not
  an error, and the code and message of the result; earlier statements stay as they were. The
  duration it records is the time the call took, provided that is less than 24 days (2 ^ 31
  milliseconds), although the clock readings wrap.
\<close>

theorem dispatch_tool_audited:
  assumes "dispatch_tool env srv call_id tool_meta arguments user mc2dbd_tool_result_init h = (Some r, h')"
  shows "error_complete r \<and>
    (\<exists>new ms. h' = h @ new @ [(audit_sql,
       [Some call_id,
        (case json_integer_value (json_object_get tool_meta ''tool_id'') of i \<Rightarrow> if i = 0 then None else Some (fmt_d i)),
        json_string_value (json_object_get tool_meta ''tool_name''),
        (case json_string_value (json_object_get tool_meta ''implementation_type'') of
           Some impl \<Rightarrow> Some impl | None \<Rightarrow> Some ''unknown''),
        user, Some (if is_error r then ''f'' else ''t''), error_code r, error_message r, Some (fmt_d ms)])] \<and>
     (0 \<le> monotonic_ms (clock_end env) - monotonic_ms (clock_start env) \<and>
      monotonic_ms (clock_end env) - monotonic_ms (clock_start env) < 2 ^ 31 \<longrightarrow>
      ms = monotonic_ms (clock_end env) - monotonic_ms (clock_start env)))"
proof -
  from assms obtain h1 where
    run: "run_dispatch env srv call_id tool_meta arguments user mc2dbd_tool_result_init h = (Some r, h1)"
    and h': "h' = snd (db_audit_write srv (audit_of env call_id tool_meta user r) h1)"
    by (auto simp: dispatch_tool_def split: prod.splits option.splits)
  from any_tool.audited [OF run] obtain new where "error_complete r"
    "h' = h @ new @ [(audit_sql, audit_params (audit_of env call_id tool_meta user r))]" unfolding h' by blast
  then show ?thesis using elapsed_ms_exact [of "clock_end env" "clock_start env"]
    by (intro conjI exI [of _ new] exI [of _ "elapsed_ms (clock_start env) (clock_end env)"])
      (simp_all add: audit_of_def audit_params_def split: option.split)
qed

definition sample_dispatch_env :: dispatch_env where
  "sample_dispatch_env = \<lparr>env_jansson = ok_jansson, env_os = ok_exec_os, env_curl = proxy_lib, env_stdio = silent_os,
     clock_start = \<lparr>tv_sec = 4294967, tv_nsec = 295000000\<rparr>, clock_end = \<lparr>tv_sec = 4294967, tv_nsec = 300000000\<rparr>\<rparr>"

theorem dispatch_tool_audited_witness:
  "\<exists>r h' new. dispatch_tool sample_dispatch_env (quiet_server (Tuples [])) ''c'' sample_tool None None mc2dbd_tool_result_init []
      = (Some r, h') \<and>
    h' = new @ [(audit_sql, [Some ''c'', Some (fmt_d 3), Some ''t'', Some ''sql_function'', None,
      Some (if is_error r then ''f'' else ''t''), error_code r, error_message r, Some (fmt_d 5)])]"
proof -
  let ?d = "dispatch_tool sample_dispatch_env (quiet_server (Tuples [])) ''c'' sample_tool None None mc2dbd_tool_result_init []"
  have "\<exists>r h'. ?d = (Some r, h')"
    by (simp add: dispatch_tool_def run_dispatch_def sample_tool_def json_is_false_def sql_dispatcher_def case_prod_beta)
  then obtain r h' where d: "?d = (Some r, h')" by blast
  have "monotonic_ms (clock_end sample_dispatch_env) - monotonic_ms (clock_start sample_dispatch_env) = 5"
    by (simp add: monotonic_ms_def sample_dispatch_env_def)
  with dispatch_tool_audited [OF d] d show ?thesis by (auto simp: sample_tool_def)
qed

end
