(* ===== verification/Mcp.thy ===== *)
theory Mcp
  imports Dispatch
begin

text \<open>
  src/mc2dbd/src/mcp.c: the JSON-RPC layer. The handlers build the response object and end with
  \<open>encode_response\<close>; here they return the object, and \<open>mcp_handle_request\<close> prints it at the end. The
  bytes of the call id and the dispatch environment are arguments. A request whose tool never
  returns is \<open>None\<close>.
\<close>

section \<open>Responses\<close>

definition encode_response :: "jansson \<Rightarrow> json_t \<Rightarrow> string option" where
  "encode_response js resp = json_dumps js resp"

text \<open>The \<open>id ? id : json_null()\<close> of the envelope.\<close>

definition id_or_null :: "json_t option \<Rightarrow> json_t" where
  "id_or_null rid = (case rid of Some i \<Rightarrow> i | None \<Rightarrow> JNull)"

definition make_envelope :: "json_t option \<Rightarrow> (string \<times> json_t) list" where
  "make_envelope rid = [(''jsonrpc'', JString ''2.0''), (''id'', id_or_null rid)]"

definition protocol_error :: "jansson \<Rightarrow> json_t option \<Rightarrow> int \<Rightarrow> string \<Rightarrow> json_t" where
  "protocol_error js rid code msg =
     JObject (make_envelope rid @ [(''error'', JObject ((''code'', JInteger code) # str_member js ''message'' msg))])"

definition result_response :: "json_t option \<Rightarrow> json_t \<Rightarrow> json_t" where
  "result_response rid result = JObject (make_envelope rid @ [(''result'', result)])"

definition JSONRPC_PARSE_ERROR :: int where "JSONRPC_PARSE_ERROR = - 32700"
definition JSONRPC_INVALID_REQUEST :: int where "JSONRPC_INVALID_REQUEST = - 32600"
definition JSONRPC_METHOD_NOT_FOUND :: int where "JSONRPC_METHOD_NOT_FOUND = - 32601"
definition JSONRPC_INVALID_PARAMS :: int where "JSONRPC_INVALID_PARAMS = - 32602"
definition JSONRPC_INTERNAL_ERROR :: int where "JSONRPC_INTERNAL_ERROR = - 32603"
definition MC2DBD_VERSION :: string where "MC2DBD_VERSION = ''0.1.0''"
definition MC2DB_ERR_TOOL_NOT_FOUND :: string where "MC2DB_ERR_TOOL_NOT_FOUND = ''TOOL_NOT_FOUND''"

definition handle_initialize :: "json_t option \<Rightarrow> json_t" where
  "handle_initialize rid =
     result_response rid (JObject
       [(''protocolVersion'', JString MC2DBD_PROTOCOL_VER),
        (''capabilities'', JObject [(''tools'', JObject [(''listChanged'', JFalse)])]),
        (''serverInfo'', JObject [(''name'', JString ''maludb_mc2dbd''), (''version'', JString MC2DBD_VERSION)])])"

definition handle_tools_list :: "jansson \<Rightarrow> server \<Rightarrow> json_t option \<Rightarrow> stmt list \<Rightarrow> json_t \<times> stmt list" where
  "handle_tools_list js srv rid h =
     (case db_tools_list js srv h of
        (Inl e, h') \<Rightarrow> (protocol_error js rid JSONRPC_INTERNAL_ERROR (if e \<noteq> [] then e else ''tools/list failed''), h')
      | (Inr tools, h') \<Rightarrow> (result_response rid (JObject [(''tools'', tools)]), h'))"

section \<open>Tool calls\<close>

definition not_found_result :: "jansson \<Rightarrow> string \<Rightarrow> mc2dbd_tool_result" where
  "not_found_result js msg =
     mc2dbd_tool_result_init\<lparr>is_error := True, error_code := Some MC2DB_ERR_TOOL_NOT_FOUND,
       error_message := Some msg, content := Some (text_content js msg)\<rparr>"

definition not_found_audit :: "string \<Rightarrow> string \<Rightarrow> string option \<Rightarrow> string \<Rightarrow> audit_row" where
  "not_found_audit call_id name user msg =
     \<lparr>aud_call_id = call_id, aud_tool_id = 0, aud_tool_name = Some name, aud_impl = ''unknown'', aud_user = user,
      aud_success = False, aud_error_code = Some MC2DB_ERR_TOOL_NOT_FOUND, aud_error_message = Some msg,
      aud_duration_ms = 0\<rparr>"

text \<open>The lookup and the dispatch of one call, with its audit row.\<close>

definition call_tool ::
  "dispatch_env \<Rightarrow> server \<Rightarrow> string \<Rightarrow> string \<Rightarrow> json_t option \<Rightarrow> string option \<Rightarrow> stmt list \<Rightarrow>
   mc2dbd_tool_result option \<times> stmt list" where
  "call_tool env srv call_id name arguments user h =
     (case db_tool_lookup (env_jansson env) srv name h of
        (Inl e, h1) \<Rightarrow>
          (let msg = (if e \<noteq> [] then e else ''tool not found'') in
           (Some (not_found_result (env_jansson env) msg), snd (db_audit_write srv (not_found_audit call_id name user msg) h1)))
      | (Inr tool_meta, h1) \<Rightarrow>
          dispatch_tool env srv call_id (Some tool_meta) arguments user mc2dbd_tool_result_init h1)"

definition call_result :: "jansson \<Rightarrow> string \<Rightarrow> mc2dbd_tool_result \<Rightarrow> json_t" where
  "call_result js call_id tr =
     JObject
       ([(''content'', (case content tr of Some c \<Rightarrow> c | None \<Rightarrow> JArray []))]
        @ (case structured tr of Some s \<Rightarrow> [(''structuredContent'', s)] | None \<Rightarrow> [])
        @ [(''isError'', if is_error tr then JTrue else JFalse),
           (''_meta'', JObject (str_member js ''call_id'' call_id
              @ (case error_code tr of Some c \<Rightarrow> str_member js ''error_code'' c | None \<Rightarrow> [])))])"

definition handle_tools_call ::
  "dispatch_env \<Rightarrow> server \<Rightarrow> 8 word list \<Rightarrow> json_t option \<Rightarrow> json_t option \<Rightarrow> string option \<Rightarrow> stmt list \<Rightarrow>
   json_t option \<times> stmt list" where
  "handle_tools_call env srv random rid params user h =
     (if \<not> json_is_object params
      then (Some (protocol_error (env_jansson env) rid JSONRPC_INVALID_PARAMS ''tools/call params must be an object''), h)
      else (case json_string_value (json_object_get params ''name'') of
              None \<Rightarrow> (Some (protocol_error (env_jansson env) rid JSONRPC_INVALID_PARAMS ''tools/call requires params.name''), h)
            | Some name \<Rightarrow>
                (if name = []
                 then (Some (protocol_error (env_jansson env) rid JSONRPC_INVALID_PARAMS ''tools/call requires params.name''), h)
                 else if json_object_get params ''arguments'' \<noteq> None \<and> \<not> json_is_object (json_object_get params ''arguments'')
                 then (Some (protocol_error (env_jansson env) rid JSONRPC_INVALID_PARAMS
                         ''tools/call params.arguments must be an object''), h)
                 else (case call_tool env srv (db_make_uuid random) name (json_object_get params ''arguments'') user h of
                         (None, h') \<Rightarrow> (None, h')
                       | (Some tr, h') \<Rightarrow>
                           (Some (result_response rid (call_result (env_jansson env) (db_make_uuid random) tr)), h')))))"

section \<open>Requests\<close>

definition mcp_response ::
  "dispatch_env \<Rightarrow> server \<Rightarrow> 8 word list \<Rightarrow> string \<Rightarrow> string option \<Rightarrow> stmt list \<Rightarrow> json_t option \<times> stmt list" where
  "mcp_response env srv random body user h =
     (case json_loads (env_jansson env) (c_string body) of
        Inl e \<Rightarrow> (Some (protocol_error (env_jansson env) None JSONRPC_PARSE_ERROR e), h)
      | Inr root \<Rightarrow>
          (case json_string_value (json_object_get (Some root) ''method'') of
             None \<Rightarrow> (Some (protocol_error (env_jansson env) (json_object_get (Some root) ''id'') JSONRPC_INVALID_REQUEST
                             ''request must include a string method''), h)
           | Some m \<Rightarrow>
               (if m = ''initialize'' then (Some (handle_initialize (json_object_get (Some root) ''id'')), h)
                else if m = ''tools/list''
                then (case handle_tools_list (env_jansson env) srv (json_object_get (Some root) ''id'') h of
                        (resp, h') \<Rightarrow> (Some resp, h'))
                else if m = ''tools/call''
                then handle_tools_call env srv random (json_object_get (Some root) ''id'')
                       (json_object_get (Some root) ''params'') user h
                else if m = ''ping'' then (Some (result_response (json_object_get (Some root) ''id'') (JObject [])), h)
                else (Some (protocol_error (env_jansson env) (json_object_get (Some root) ''id'') JSONRPC_METHOD_NOT_FOUND
                        (snprintf_trunc 128 (''method not found: '' @ m))), h))))"

text \<open>The printed response: the outer option is a call that never returns, the inner one NULL.\<close>

definition mcp_handle_request ::
  "dispatch_env \<Rightarrow> server \<Rightarrow> 8 word list \<Rightarrow> string \<Rightarrow> string option \<Rightarrow> stmt list \<Rightarrow> string option option \<times> stmt list" where
  "mcp_handle_request env srv random body user h =
     (case mcp_response env srv random body user h of
        (resp, h') \<Rightarrow> (map_option (encode_response (env_jansson env)) resp, h'))"

section \<open>Properties\<close>

definition request_id :: "jansson \<Rightarrow> string \<Rightarrow> json_t" where
  "request_id js body =
     (case json_loads js (c_string body) of
        Inl _ \<Rightarrow> JNull
      | Inr root \<Rightarrow> id_or_null (json_object_get (Some root) ''id''))"

text \<open>A JSON-RPC 2.0 response to a request id: it echoes the id and has a result or an error, not both.\<close>

definition jsonrpc_response :: "json_t \<Rightarrow> json_t \<Rightarrow> bool" where
  "jsonrpc_response rid resp \<longleftrightarrow>
     json_object_get (Some resp) ''jsonrpc'' = Some (JString ''2.0'') \<and> json_object_get (Some resp) ''id'' = Some rid \<and>
     ((json_object_get (Some resp) ''result'' = None) \<noteq> (json_object_get (Some resp) ''error'' = None))"

lemma protocol_error_response:
  "jsonrpc_response (id_or_null rid) (protocol_error js rid code msg)"
  by (simp add: jsonrpc_response_def protocol_error_def make_envelope_def)

lemma result_response_response:
  "jsonrpc_response (id_or_null rid) (result_response rid result)"
  by (simp add: jsonrpc_response_def result_response_def make_envelope_def)

lemmas response_shapes = protocol_error_response result_response_response

lemma tools_list_response:
  "handle_tools_list js srv rid h = (resp, h') \<Longrightarrow>
   jsonrpc_response (id_or_null rid) resp"
  by (auto simp: handle_tools_list_def response_shapes split: prod.splits sum.splits)

lemma tools_call_response:
  "handle_tools_call env srv random rid params user h = (Some resp, h') \<Longrightarrow>
   jsonrpc_response (id_or_null rid) resp"
  by (auto simp: handle_tools_call_def response_shapes split: if_splits option.splits prod.splits)

text \<open>
  C32. Whatever the body, the server and the tools do, a request that is answered gets a well-formed
  JSON-RPC 2.0 response: the request's id (null if there is none or the body does not parse), and
  exactly one of a result and an error.
\<close>

theorem mcp_response_wellformed:
  assumes "mcp_response env srv random body user h = (Some resp, h')"
  shows "jsonrpc_response (request_id (env_jansson env) body) resp"
proof (cases "json_loads (env_jansson env) (c_string body)")
  case (Inl e)
  with assms protocol_error_response [of None "env_jansson env" JSONRPC_PARSE_ERROR e] show ?thesis
    by (auto simp: mcp_response_def request_id_def id_or_null_def)
next
  case (Inr root)
  let ?rid = "json_object_get (Some root) ''id''"
  have "jsonrpc_response (id_or_null ?rid) resp"
    using assms unfolding mcp_response_def Inr sum.case
    by (auto simp: handle_initialize_def response_shapes tools_list_response tools_call_response
        split: option.splits if_splits prod.splits)
  then show ?thesis by (simp add: request_id_def Inr)
qed

definition valid_call :: "json_t option \<Rightarrow> bool" where
  "valid_call params \<longleftrightarrow>
     json_is_object params \<and>
     (case json_string_value (json_object_get params ''name'') of None \<Rightarrow> False | Some n \<Rightarrow> n \<noteq> []) \<and>
     (json_object_get params ''arguments'' = None \<or> json_is_object (json_object_get params ''arguments''))"

lemma db_tool_lookup_history: "snd (db_tool_lookup js srv n h) = h @ [(tool_lookup_sql, [Some n])]"
  by (simp add: db_tool_lookup_def pq_exec_params_def split: pg_result.splits list.splits)

text \<open>A call that returns leaves, as its last statement, an audit row with its call id and outcome.\<close>

definition audited_outcome :: "string \<Rightarrow> bool \<Rightarrow> stmt list \<Rightarrow> stmt list \<Rightarrow> bool" where
  "audited_outcome call_id ok h h' \<longleftrightarrow>
     (\<exists>new row. h' = h @ new @ [(audit_sql, audit_params row)] \<and> aud_call_id row = call_id \<and> aud_success row = ok)"

lemma dispatch_tool_outcome:
  assumes "dispatch_tool env srv call_id tm arguments user mc2dbd_tool_result_init h = (Some r, h')"
  shows "audited_outcome call_id (\<not> is_error r) h h'"
proof -
  from assms obtain h1 where
    run: "run_dispatch env srv call_id tm arguments user mc2dbd_tool_result_init h = (Some r, h1)"
    and h': "h' = snd (db_audit_write srv (audit_of env call_id tm user r) h1)"
    by (auto simp: dispatch_tool_def split: prod.splits option.splits)
  from any_tool.audited [OF run, of srv "audit_of env call_id tm user r"]
  show ?thesis unfolding h' audited_outcome_def
    by (elim conjE exE) (intro exI [of _ "audit_of env call_id tm user r"] exI, simp add: audit_of_def)
qed

lemma call_tool_outcome:
  assumes "call_tool env srv call_id name arguments user h = (Some tr, h')"
  shows "audited_outcome call_id (\<not> is_error tr) h h'"
proof (cases "db_tool_lookup (env_jansson env) srv name h")
  case (Pair res h1)
  with db_tool_lookup_history [of "env_jansson env" srv name h] have h1: "h1 = h @ [(tool_lookup_sql, [Some name])]" by simp
  show ?thesis
  proof (cases res)
    case (Inl e)
    let ?m = "if e \<noteq> [] then e else ''tool not found''"
    from assms have "tr = not_found_result (env_jansson env) ?m"
      "h' = h @ [(tool_lookup_sql, [Some name])] @ [(audit_sql, audit_params (not_found_audit call_id name user ?m))]"
      using Pair Inl h1 by (auto simp: call_tool_def Let_def db_audit_write_history)
    then show ?thesis unfolding audited_outcome_def
      by (intro exI [of _ "[(tool_lookup_sql, [Some name])]"] exI [of _ "not_found_audit call_id name user ?m"])
        (simp add: not_found_audit_def not_found_result_def)
  next
    case (Inr tm)
    with assms Pair have "dispatch_tool env srv call_id (Some tm) arguments user mc2dbd_tool_result_init h1 = (Some tr, h')"
      by (simp add: call_tool_def)
    from dispatch_tool_outcome [OF this] h1 show ?thesis
      by (auto simp: audited_outcome_def)
  qed
qed

lemma call_result_isError: "json_object_get (Some (call_result js c tr)) ''isError'' = Some (if is_error tr then JTrue else JFalse)"
  by (simp add: call_result_def split: option.splits)

text \<open>
  For a valid \<open>tools/call\<close> request, from the text of the body down to the catalog, the answer and
  the audit log agree: the last statement sent to the server is the audit row with the call's id,
  recorded as a success exactly when the answer says \<open>"isError": false\<close>. This holds for unknown and
  disabled tools and for every implementation type.
\<close>

lemma mcp_call_audited:
  assumes "json_loads (env_jansson env) (c_string body) = Inr root"
    and "json_object_get (Some root) ''method'' = Some (JString ''tools/call'')"
    and "valid_call (json_object_get (Some root) ''params'')"
    and "mcp_response env srv random body user h = (Some resp, h')"
  shows "\<exists>ok. json_object_get (json_object_get (Some resp) ''result'') ''isError'' = Some (if ok then JFalse else JTrue) \<and>
              audited_outcome (db_make_uuid random) ok h h'"
proof -
  let ?params = "json_object_get (Some root) ''params''"
  from assms(3) obtain name where name: "json_string_value (json_object_get ?params ''name'') = Some name" "name \<noteq> []"
    and obj: "json_is_object ?params"
    and args: "json_object_get ?params ''arguments'' = None \<or> json_is_object (json_object_get ?params ''arguments'')"
    by (auto simp: valid_call_def split: option.splits)
  have "handle_tools_call env srv random (json_object_get (Some root) ''id'') ?params user h = (Some resp, h')"
    using assms(4) by (simp add: mcp_response_def assms(1,2))
  with name obj args obtain tr where
    call: "call_tool env srv (db_make_uuid random) name (json_object_get ?params ''arguments'') user h = (Some tr, h')"
    and resp: "resp = result_response (json_object_get (Some root) ''id'') (call_result (env_jansson env) (db_make_uuid random) tr)"
    by (auto simp: handle_tools_call_def split: if_splits prod.splits option.splits)
  have "json_object_get (Some resp) ''result'' = Some (call_result (env_jansson env) (db_make_uuid random) tr)"
    by (simp add: resp result_response_def make_envelope_def)
  with call_tool_outcome [OF call] show ?thesis
    by (intro exI [of _ "\<not> is_error tr"]) (simp add: call_result_isError)
qed

section \<open>Witnesses\<close>

definition call_root :: json_t where
  "call_root = JObject [(''id'', JInteger 1), (''method'', JString ''tools/call''),
     (''params'', JObject [(''name'', JString ''t'')])]"

definition call_env :: dispatch_env where
  "call_env = sample_dispatch_env\<lparr>env_jansson := ok_jansson\<lparr>json_loads := (\<lambda>s. Inr call_root)\<rparr>\<rparr>"

definition empty_catalog :: server where
  "empty_catalog h = Tuples []"

lemma call_env_answers:
  "\<exists>resp h'. mcp_response call_env empty_catalog (replicate 16 0) ''{}'' None [] = (Some resp, h')"
  by (simp add: mcp_response_def call_env_def call_root_def handle_tools_call_def call_tool_def db_tool_lookup_def
      pq_exec_params_def empty_catalog_def Let_def)

theorem mcp_response_wellformed_witness:
  "\<exists>resp h'. mcp_response call_env empty_catalog (replicate 16 0) ''{}'' None [] = (Some resp, h') \<and>
     jsonrpc_response (request_id (env_jansson call_env) ''{}'') resp"
  using call_env_answers mcp_response_wellformed [of call_env empty_catalog "replicate 16 0" "''{}''" None "[]"] by blast

end
