(* ===== verification/Http_Server.thy ===== *)
theory Http_Server
  imports Mcp
begin

text \<open>
  src/mc2dbd/src/http.c: the request handler that libmicrohttpd calls once when a request starts, once
  per block of its body and once more when the body is complete, and the callback at the end of the
  request. libmicrohttpd itself is not modelled, the start of the daemon is in the theory on the
  listener; memory allocation does not fail.
\<close>

section \<open>The handler\<close>

definition MC2DBD_MAX_BODY :: nat where "MC2DBD_MAX_BODY = 4194304"

record req_state =
  rs_body :: string
  rs_cap :: nat

record http_request =
  req_method :: string
  req_url :: string
  req_header :: "string \<Rightarrow> string option"

text \<open>
  One call of the handler: what it queues as the response, or the state for the next call. \<open>Hang\<close>
  stands for a tool that never returns.
\<close>

datatype http_action =
    SendText nat string
  | SendMetrics string
  | SendUnauthorized
  | SendJson nat string
  | NextCall req_state
  | Hang

record http_env =
  bearer_token :: "string option"
  pg_connected :: bool
  pg_server :: server
  pg_dispatch :: dispatch_env
  urandom :: "8 word list"

definition auth_ok :: "http_env \<Rightarrow> http_request \<Rightarrow> bool" where
  "auth_ok env req =
     (case bearer_token env of
        None \<Rightarrow> True
      | Some t \<Rightarrow>
          (if t = [] then True
           else (case req_header req ''Authorization'' of
                   None \<Rightarrow> False
                 | Some a \<Rightarrow> starts_with ''Bearer '' a \<and> drop 7 a = t)))"

definition metrics_down :: string where
  "metrics_down =
     metric_header ''maludb_mc2dbd_up'' ''1 when the listener has PG connectivity.'' ''gauge''
     @ ''maludb_mc2dbd_up 0'' @ nl"

definition db_failed_body :: string where
  "db_failed_body =
     ''{'' @ dq @ ''jsonrpc'' @ dq @ '':'' @ dq @ ''2.0'' @ dq @ '','' @ dq @ ''id'' @ dq @ '':null,'' @ dq @ ''error'' @ dq
     @ '':{'' @ dq @ ''code'' @ dq @ '':-32603,'' @ dq @ ''message'' @ dq @ '':'' @ dq @ ''db connection failed'' @ dq @ ''}}''"

definition empty_response_body :: string where
  "empty_response_body =
     ''{'' @ dq @ ''jsonrpc'' @ dq @ '':'' @ dq @ ''2.0'' @ dq @ '','' @ dq @ ''id'' @ dq @ '':null,'' @ dq @ ''error'' @ dq
     @ '':{'' @ dq @ ''code'' @ dq @ '':-32603,'' @ dq @ ''message'' @ dq @ '':'' @ dq @ ''empty response'' @ dq @ ''}}''"

definition handle_metrics :: "http_env \<Rightarrow> http_action \<times> stmt list" where
  "handle_metrics env =
     (case db_open (pg_connected env) (pg_server env) of
        None \<Rightarrow> (SendText 503 metrics_down, [])
      | Some h \<Rightarrow> (case db_metrics_text (pg_server env) h of (body, h') \<Rightarrow> (SendMetrics body, h')))"

definition handle_body :: "http_env \<Rightarrow> http_request \<Rightarrow> string \<Rightarrow> http_action \<times> stmt list" where
  "handle_body env req body =
     (case db_open (pg_connected env) (pg_server env) of
        None \<Rightarrow> (SendJson 200 db_failed_body, [])
      | Some h \<Rightarrow>
          (case mcp_handle_request (pg_dispatch env) (pg_server env) (urandom env) body
                  (Some (case req_header req ''X-MaluDB-User'' of Some u \<Rightarrow> u | None \<Rightarrow> ''anonymous'')) h of
             (None, h') \<Rightarrow> (Hang, h')
           | (Some r, h') \<Rightarrow>
               (SendJson 200 (case r of Some s \<Rightarrow> s | None \<Rightarrow> empty_response_body), h')))"

definition append_block :: "string \<Rightarrow> req_state \<Rightarrow> req_state" where
  "append_block upload st =
     (let need = length (rs_body st) + length upload + 1 in
      \<lparr>rs_body = rs_body st @ upload, rs_cap = (if rs_cap st < need then grow_cap need (rs_cap st) else rs_cap st)\<rparr>)"

text \<open>
  One block of the body. The action is what the handler asks of libmicrohttpd; whether the library
  accepts a response queued during the upload, as the one with status 413, or closes the connection
  instead is up to it.
\<close>

definition add_block :: "req_state \<Rightarrow> string \<Rightarrow> http_action" where
  "add_block st upload =
     (let need = length (rs_body st) + length upload + 1 in
      if MC2DBD_MAX_BODY < need then SendText 413 (''request body too large'' @ nl)
      else NextCall (append_block upload st))"

text \<open>
  The second component is the history of the connection the call opened, empty when it opened
  none.
\<close>

definition handle :: "http_env \<Rightarrow> http_request \<Rightarrow> req_state option \<Rightarrow> string \<Rightarrow> http_action \<times> stmt list" where
  "handle env req st upload =
     (if req_method req = ''GET'' \<and> req_url req = ''/healthz'' then (SendText 200 (''ok'' @ nl), [])
      else if req_method req = ''GET'' \<and> req_url req = ''/metrics'' then handle_metrics env
      else if req_method req \<noteq> ''POST'' then (SendText 405 (''POST required'' @ nl), [])
      else if req_url req \<noteq> ''/'' \<and> req_url req \<noteq> ''/mcp'' then (SendText 404 (''not found'' @ nl), [])
      else if \<not> auth_ok env req then (SendUnauthorized, [])
      else (case st of
              None \<Rightarrow> (NextCall \<lparr>rs_body = [], rs_cap = 4096\<rparr>, [])
            | Some s \<Rightarrow>
                (if upload \<noteq> [] then (add_block s upload, []) else handle_body env req (rs_body s))))"

text \<open>The calls libmicrohttpd makes for one request: the start, each block, the end.\<close>

fun serve :: "http_env \<Rightarrow> http_request \<Rightarrow> string list \<Rightarrow> req_state option \<Rightarrow> http_action \<times> stmt list" where
  "serve env req [] st = handle env req st []"
| "serve env req (b # bs) st =
     (case handle env req st b of
        (NextCall s, h) \<Rightarrow> serve env req bs (Some s)
      | r \<Rightarrow> r)"

definition serve_request :: "http_env \<Rightarrow> http_request \<Rightarrow> string list \<Rightarrow> http_action \<times> stmt list" where
  "serve_request env req blocks =
     (case handle env req None [] of
        (NextCall s, h) \<Rightarrow> serve env req blocks (Some s)
      | r \<Rightarrow> r)"

text \<open>
  The response each action queues. \<open>send_text\<close> and \<open>send_json\<close> take the length of the body with
  \<open>strlen\<close>, so it ends at the first NUL.
\<close>

record mhd_response =
  resp_status :: nat
  resp_headers :: "(string \<times> string) list"
  resp_body :: string

definition send_text :: "nat \<Rightarrow> string \<Rightarrow> mhd_response" where
  "send_text status body =
     \<lparr>resp_status = status, resp_headers = [(''Content-Type'', ''text/plain; charset=utf-8'')], resp_body = c_string body\<rparr>"

definition send_json :: "nat \<Rightarrow> string \<Rightarrow> mhd_response" where
  "send_json status body =
     \<lparr>resp_status = status, resp_headers = [(''Content-Type'', ''application/json'')], resp_body = c_string body\<rparr>"

definition metrics_response :: "string \<Rightarrow> mhd_response" where
  "metrics_response body =
     \<lparr>resp_status = 200, resp_headers = [(''Content-Type'', ''text/plain; version=0.0.4; charset=utf-8'')],
      resp_body = c_string body\<rparr>"

definition unauthorized_response :: mhd_response where
  "unauthorized_response =
     \<lparr>resp_status = 401, resp_headers = [(''WWW-Authenticate'', ''Bearer'')], resp_body = ''unauthorized'' @ nl\<rparr>"

fun response_of :: "http_action \<Rightarrow> mhd_response option" where
  "response_of (SendText status body) = Some (send_text status body)"
| "response_of (SendMetrics body) = Some (metrics_response body)"
| "response_of SendUnauthorized = Some unauthorized_response"
| "response_of (SendJson status body) = Some (send_json status body)"
| "response_of (NextCall s) = None"
| "response_of Hang = None"

text \<open>
  Several requests on one connection: \<open>con_cls\<close> keeps the state of a request between its calls, and
  the callback of a completed request frees it.
\<close>

definition completed :: "req_state option \<Rightarrow> req_state option" where
  "completed con_cls = None"

fun request_calls ::
  "http_env \<Rightarrow> http_request \<Rightarrow> string list \<Rightarrow> req_state option \<Rightarrow> (http_action \<times> stmt list) \<times> req_state option" where
  "request_calls env req [] con = (handle env req con [], con)"
| "request_calls env req (b # bs) con =
     (case handle env req con b of
        (NextCall s, h) \<Rightarrow> request_calls env req bs (Some s)
      | r \<Rightarrow> (r, con))"

fun serve_connection ::
  "http_env \<Rightarrow> (http_request \<times> string list) list \<Rightarrow> req_state option \<Rightarrow> (http_action \<times> stmt list) list" where
  "serve_connection env [] con = []"
| "serve_connection env ((req, blocks) # rs) con =
     (case request_calls env req ([] # blocks) con of
        (r, con') \<Rightarrow> r # serve_connection env rs (completed con'))"

section \<open>Properties\<close>

text \<open>No state of a request reaches the next one on its connection.\<close>

lemma request_calls_serve: "fst (request_calls env req bs con) = serve env req bs con"
  by (induction bs arbitrary: con) (auto split: prod.splits http_action.splits)

lemma serve_request_serve: "serve_request env req blocks = serve env req ([] # blocks) None"
  by (simp add: serve_request_def)

lemma serve_connection_independent:
  "serve_connection env rs None = map (\<lambda>(req, blocks). serve_request env req blocks) rs"
proof (induction rs)
  case (Cons r rs)
  then show ?case
    by (cases r) (simp add: completed_def serve_request_serve case_prod_unfold request_calls_serve [symmetric] del: serve.simps request_calls.simps)
qed simp

text \<open>The body buffer keeps the contract of a growing buffer: every block and the NUL after it fit.\<close>

interpretation body_buffer: growing_buffer rs_body rs_cap append_block
proof
  show "rs_body (append_block c b) = rs_body b @ c" for c b
    by (simp add: append_block_def Let_def)
  show "length (rs_body (append_block c b)) < rs_cap (append_block c b)" if "length (rs_body b) < rs_cap b" for b c
    using that grow_cap_ge [of "rs_cap b" "length (rs_body b) + length c + 1"]
    by (auto simp: append_block_def Let_def not_less)
qed

definition mcp_post :: "http_request \<Rightarrow> bool" where
  "mcp_post req \<longleftrightarrow> req_method req = ''POST'' \<and> (req_url req = ''/'' \<or> req_url req = ''/mcp'')"

lemma handle_mcp_post:
  assumes "mcp_post req" "auth_ok env req"
  shows "handle env req None u = (NextCall \<lparr>rs_body = [], rs_cap = 4096\<rparr>, [])"
    "handle env req (Some s) u = (if u \<noteq> [] then (add_block s u, []) else handle_body env req (rs_body s))"
  using assms by (auto simp: handle_def mcp_post_def)

lemma serve_blocks:
  assumes "mcp_post req" "auth_ok env req" "\<forall>b \<in> set bs. b \<noteq> []"
  shows "serve env req bs (Some s) =
    (if length (rs_body s) + length (concat bs) + 1 \<le> MC2DBD_MAX_BODY \<or> bs = []
     then handle_body env req (rs_body s @ concat bs)
     else (SendText 413 (''request body too large'' @ nl), []))"
  using assms(3)
proof (induction bs arbitrary: s)
  case Nil
  then show ?case by (simp add: handle_mcp_post [OF assms(1,2)])
next
  case (Cons b bs)
  show ?case
  proof (cases "MC2DBD_MAX_BODY < length (rs_body s) + length b + 1")
    case True
    with Cons.prems show ?thesis by (simp add: handle_mcp_post [OF assms(1,2)] add_block_def Let_def)
  next
    case False
    have "serve env req (b # bs) (Some s) = serve env req bs (Some (append_block b s))"
      using False Cons.prems by (simp add: handle_mcp_post [OF assms(1,2)] add_block_def Let_def)
    with Cons.IH [of "append_block b s"] Cons.prems False show ?thesis
      by (auto simp: add.assoc body_buffer.data_put)
  qed
qed

text \<open>
  C35. A POST to the listener's paths with a valid token is answered from exactly the bytes of its
  body, however libmicrohttpd cuts it into blocks, as long as it is shorter than the 4 MiB limit;
  a longer one is refused with status 413 and no connection is opened.
\<close>

theorem post_body_reassembled:
  assumes "mcp_post req" and "auth_ok env req" and "\<forall>b \<in> set bs. b \<noteq> []"
  shows "serve_request env req bs =
    (if length (concat bs) < MC2DBD_MAX_BODY then handle_body env req (concat bs)
     else (SendText 413 (''request body too large'' @ nl), []))"
proof -
  have "bs \<noteq> []" if "\<not> length (concat bs) < MC2DBD_MAX_BODY" using that by (auto simp: MC2DBD_MAX_BODY_def)
  then show ?thesis
    unfolding serve_request_def handle_mcp_post(1) [OF assms(1,2)] prod.case http_action.case
      serve_blocks [OF assms] by (auto simp: MC2DBD_MAX_BODY_def)
qed

lemma wrong_token:
  assumes "bearer_token env = Some t" and "t \<noteq> []" and "req_header req ''Authorization'' \<noteq> Some (''Bearer '' @ t)"
  shows "\<not> auth_ok env req"
proof
  assume "auth_ok env req"
  then obtain a where a: "req_header req ''Authorization'' = Some a" "starts_with ''Bearer '' a" "drop 7 a = t"
    using assms(1,2) by (auto simp: auth_ok_def split: option.splits)
  from a(2) obtain r where "a = ''Bearer '' @ r" unfolding starts_with_iff by blast
  with a(1,3) assms(3) show False by simp
qed

text \<open>
  C36. With a bearer token configured, no request without exactly that token opens a database
  connection or reaches a tool, except the scrape of the metrics; a POST to the listener's paths is
  answered with status 401 and the \<open>WWW-Authenticate\<close> challenge, whatever its body.
\<close>

theorem no_access_without_token:
  assumes "bearer_token env = Some t" and "t \<noteq> []"
    and "req_header req ''Authorization'' \<noteq> Some (''Bearer '' @ t)"
    and "\<not> (req_method req = ''GET'' \<and> req_url req = ''/metrics'')"
  shows "snd (serve_request env req bs) = [] \<and>
    (mcp_post req \<longrightarrow>
      (\<exists>r. response_of (fst (serve_request env req bs)) = Some r \<and> resp_status r = 401 \<and>
           resp_headers r = [(''WWW-Authenticate'', ''Bearer'')]))"
proof -
  have no: "\<not> auth_ok env req" by (rule wrong_token [OF assms(1-3)])
  then have "\<exists>x. handle env req None [] = (x, []) \<and> (\<forall>s. x \<noteq> NextCall s) \<and> (mcp_post req \<longrightarrow> x = SendUnauthorized)"
    using assms(4) by (auto simp: handle_def mcp_post_def)
  then show ?thesis by (auto simp: serve_request_def unauthorized_response_def split: http_action.splits)
qed

section \<open>Witnesses\<close>

definition sample_http_env :: http_env where
  "sample_http_env = \<lparr>bearer_token = Some ''s3cret'', pg_connected = False, pg_server = empty_catalog,
     pg_dispatch = call_env, urandom = replicate 16 0\<rparr>"

definition sample_post :: "string option \<Rightarrow> http_request" where
  "sample_post auth = \<lparr>req_method = ''POST'', req_url = ''/mcp'',
     req_header = (\<lambda>k. if k = ''Authorization'' then auth else None)\<rparr>"

theorem post_body_reassembled_witness:
  "serve_request sample_http_env (sample_post (Some ''Bearer s3cret'')) [''{'', ''}''] = (SendJson 200 db_failed_body, [])"
  using post_body_reassembled [of "sample_post (Some ''Bearer s3cret'')" sample_http_env "[''{'', ''}'']"]
  by (simp add: mcp_post_def sample_post_def auth_ok_def sample_http_env_def starts_with_def MC2DBD_MAX_BODY_def
      handle_body_def db_open_def)

theorem no_access_without_token_witness:
  "\<exists>r. snd (serve_request sample_http_env (sample_post (Some ''Bearer wrong'')) [''{}'']) = [] \<and>
     response_of (fst (serve_request sample_http_env (sample_post (Some ''Bearer wrong'')) [''{}''])) = Some r \<and> resp_status r = 401"
proof -
  have p: "mcp_post (sample_post (Some ''Bearer wrong''))" by (simp add: mcp_post_def sample_post_def)
  from no_access_without_token [of sample_http_env "''s3cret''" "sample_post (Some ''Bearer wrong'')" "[''{}'']"] p
  show ?thesis by (auto simp: sample_http_env_def sample_post_def)
qed

end
