(* ===== verification/Listener_Main.thy ===== *)
theory Listener_Main
  imports Http_Server
begin

text \<open>
  src/mc2dbd/src/main.c and the start of the daemon in http.c: the configuration from the command
  line and the environment, the checks before the listener starts, and what it is started with.
  \<open>getopt_long\<close> is the list of options it delivers; reading a file, probing the server and
  \<open>MHD_start_daemon\<close> are what the system answers. The listener then serves until a signal, which is an
  argument.
\<close>

section \<open>Configuration\<close>

record mc2dbd_config =
  bind_host :: string
  bind_port :: int
  pg_conninfo :: "string option"
  cfg_bearer_token :: "string option"
  tls_enabled :: bool
  tls_cert_path :: "string option"
  tls_key_path :: "string option"
  foreground :: bool

definition MC2DBD_DEFAULT_HOST :: string where "MC2DBD_DEFAULT_HOST = ''127.0.0.1''"
definition MC2DBD_DEFAULT_PORT :: int where "MC2DBD_DEFAULT_PORT = 5329"

definition default_config :: mc2dbd_config where
  "default_config =
     \<lparr>bind_host = MC2DBD_DEFAULT_HOST, bind_port = MC2DBD_DEFAULT_PORT, pg_conninfo = None, cfg_bearer_token = None,
      tls_enabled = False, tls_cert_path = None, tls_key_path = None, foreground = True\<rparr>"

datatype cli_option =
    OptHost string
  | OptPort string
  | OptConninfo string
  | OptTls
  | OptTlsCert string
  | OptTlsKey string
  | OptBearer string
  | OptForeground
  | OptVersion
  | OptHelp
  | OptUnknown

text \<open>\<open>Inl\<close> is the exit status of an option that ends the program.\<close>

fun apply_option :: "cli_option \<Rightarrow> mc2dbd_config \<Rightarrow> nat + mc2dbd_config" where
  "apply_option (OptHost s) cfg = Inr (cfg\<lparr>bind_host := s\<rparr>)"
| "apply_option (OptPort s) cfg = Inr (cfg\<lparr>bind_port := atoi s\<rparr>)"
| "apply_option (OptConninfo s) cfg = Inr (cfg\<lparr>pg_conninfo := Some s\<rparr>)"
| "apply_option OptTls cfg = Inr (cfg\<lparr>tls_enabled := True\<rparr>)"
| "apply_option (OptTlsCert s) cfg = Inr (cfg\<lparr>tls_cert_path := Some s\<rparr>)"
| "apply_option (OptTlsKey s) cfg = Inr (cfg\<lparr>tls_key_path := Some s\<rparr>)"
| "apply_option (OptBearer s) cfg = Inr (cfg\<lparr>cfg_bearer_token := Some s\<rparr>)"
| "apply_option OptForeground cfg = Inr (cfg\<lparr>foreground := True\<rparr>)"
| "apply_option OptVersion cfg = Inl 0"
| "apply_option OptHelp cfg = Inl 0"
| "apply_option OptUnknown cfg = Inl 2"

fun parse_options :: "cli_option list \<Rightarrow> mc2dbd_config \<Rightarrow> nat + mc2dbd_config" where
  "parse_options [] cfg = Inr cfg"
| "parse_options (x # xs) cfg =
     (case apply_option x cfg of Inl code \<Rightarrow> Inl code | Inr cfg' \<Rightarrow> parse_options xs cfg')"

definition env_truthy :: "string option \<Rightarrow> bool" where
  "env_truthy s =
     (case s of
        None \<Rightarrow> False
      | Some v \<Rightarrow> v = ''1'' \<or> map ascii_lower v \<in> {''true'', ''yes'', ''on''})"

definition nonempty_env :: "string option \<Rightarrow> string option" where
  "nonempty_env e = (case e of Some v \<Rightarrow> (if v = [] then None else Some v) | None \<Rightarrow> None)"

definition env_bearer :: "(string \<Rightarrow> string option) \<Rightarrow> string option" where
  "env_bearer env =
     (case nonempty_env (env ''BEARER_TOKEN'') of
        Some t \<Rightarrow> Some t
      | None \<Rightarrow> nonempty_env (env ''MALUDB_MC2DBD_TOKEN''))"

definition apply_env :: "(string \<Rightarrow> string option) \<Rightarrow> mc2dbd_config \<Rightarrow> mc2dbd_config" where
  "apply_env env cfg =
     (let c1 = (if cfg_bearer_token cfg = None then cfg\<lparr>cfg_bearer_token := env_bearer env\<rparr> else cfg);
          c2 = (if \<not> tls_enabled c1 \<and> env_truthy (env ''TLS'') then c1\<lparr>tls_enabled := True\<rparr> else c1);
          c3 = (if tls_cert_path c2 = None then c2\<lparr>tls_cert_path := nonempty_env (env ''TLS_CERT'')\<rparr> else c2)
      in if tls_key_path c3 = None then c3\<lparr>tls_key_path := nonempty_env (env ''TLS_KEY'')\<rparr> else c3)"

section \<open>Start\<close>

text \<open>A file that opens: what \<open>ftell\<close> answers at its end, and the bytes there are to read.\<close>

record file_view =
  fv_ftell :: int
  fv_bytes :: string

record listener_os =
  os_env :: "string \<Rightarrow> string option"
  pg_connect :: "string \<Rightarrow> bool"
  pg_backend :: "string \<Rightarrow> server"
  os_file :: "string \<Rightarrow> file_view option"
  mhd_start_ok :: "nat \<Rightarrow> bool"

text \<open>
  What the daemon is started with: the port as \<open>uint16_t\<close>, key and certificate when TLS is on, and
  the configuration that \<open>g_cfg\<close> points to, which the handler reads.
\<close>

record mhd_daemon =
  mhd_port :: nat
  mhd_tls :: "(string \<times> string) option"
  g_cfg :: mc2dbd_config

text \<open>
  \<open>ftell\<close> gives the size of the buffer and of the read. Where it fails with \<open>-1\<close>, as on a pipe, the
  buffer has no byte and \<open>fread\<close> is asked for \<open>SIZE_MAX\<close>: every byte of the file is then written
  behind the buffer.
\<close>

datatype file_text =
    NoText
  | FileText string
  | Overrun

definition read_file :: "listener_os \<Rightarrow> string \<Rightarrow> file_text" where
  "read_file os path =
     (case os_file os path of
        None \<Rightarrow> NoText
      | Some f \<Rightarrow>
          (if fv_ftell f < 0 then (if fv_bytes f = [] then NoText else Overrun)
           else if length (fv_bytes f) < nat (fv_ftell f) then NoText
           else FileText (take (nat (fv_ftell f)) (fv_bytes f))))"

datatype start_result =
    StartFailed
  | Started mhd_daemon
  | StartOverrun

definition http_start :: "listener_os \<Rightarrow> mc2dbd_config \<Rightarrow> start_result" where
  "http_start os cfg =
     (let port = nat (bind_port cfg mod 65536) in
      if tls_enabled cfg
      then (case (tls_cert_path cfg, tls_key_path cfg) of
              (Some cp, Some kp) \<Rightarrow>
                (case (read_file os cp, read_file os kp) of
                   (Overrun, _) \<Rightarrow> StartOverrun
                 | (_, Overrun) \<Rightarrow> StartOverrun
                 | (FileText cert, FileText key) \<Rightarrow>
                     (if mhd_start_ok os port then Started \<lparr>mhd_port = port, mhd_tls = Some (key, cert), g_cfg = cfg\<rparr> else StartFailed)
                 | _ \<Rightarrow> StartFailed)
            | _ \<Rightarrow> StartFailed)
      else (if mhd_start_ok os port then Started \<lparr>mhd_port = port, mhd_tls = None, g_cfg = cfg\<rparr> else StartFailed))"

text \<open>
  The environment in which the daemon calls \<open>handle\<close>: the token and the connection string are those
  of \<open>g_cfg\<close>.
\<close>

definition handler_env :: "listener_os \<Rightarrow> mhd_daemon \<Rightarrow> dispatch_env \<Rightarrow> 8 word list \<Rightarrow> http_env" where
  "handler_env os d disp rnd =
     (let conninfo = (case pg_conninfo (g_cfg d) of Some s \<Rightarrow> s | None \<Rightarrow> []) in
      \<lparr>bearer_token = cfg_bearer_token (g_cfg d), pg_connected = pg_connect os conninfo,
       pg_server = pg_backend os conninfo, pg_dispatch = disp, urandom = rnd\<rparr>)"

text \<open>The probe before the start: \<open>db_open\<close> with the configured connection string.\<close>

definition pg_probe :: "listener_os \<Rightarrow> mc2dbd_config \<Rightarrow> bool" where
  "pg_probe os cfg =
     (let conninfo = (case pg_conninfo cfg of Some s \<Rightarrow> s | None \<Rightarrow> []) in
      db_open (pg_connect os conninfo) (pg_backend os conninfo) \<noteq> None)"

text \<open>
  The life of the process: libcurl is initialised once, guarded by \<open>g_curl_inited\<close>, before the daemon
  starts, and cleaned up after it has stopped or failed to start.
\<close>

datatype life_event =
    CurlGlobalInit
  | DaemonStarted mhd_daemon
  | DaemonStopped mhd_daemon
  | CurlGlobalCleanup

definition proxy_global_init :: "bool \<Rightarrow> bool \<times> life_event list" where
  "proxy_global_init g_curl_inited = (if g_curl_inited then (True, []) else (True, [CurlGlobalInit]))"

definition proxy_global_cleanup :: "bool \<Rightarrow> bool \<times> life_event list" where
  "proxy_global_cleanup g_curl_inited = (if \<not> g_curl_inited then (False, []) else (False, [CurlGlobalCleanup]))"

definition http_stop :: "mhd_daemon option \<Rightarrow> life_event list" where
  "http_stop d = (case d of Some x \<Rightarrow> [DaemonStopped x] | None \<Rightarrow> [])"

datatype listener_run =
    ExitStatus nat
  | Serving mc2dbd_config mhd_daemon bool
  | Undefined

text \<open>\<open>main\<close> up to the loop that waits for a signal; \<open>Serving\<close> keeps \<open>g_curl_inited\<close>.\<close>

definition listener_main :: "listener_os \<Rightarrow> cli_option list \<Rightarrow> listener_run \<times> life_event list" where
  "listener_main os opts =
     (case parse_options opts default_config of
        Inl code \<Rightarrow> (ExitStatus code, [])
      | Inr c0 \<Rightarrow>
          (let cfg = apply_env (os_env os) c0 in
           if bind_port cfg \<le> 0 \<or> 65535 < bind_port cfg then (ExitStatus 2, [])
           else if \<not> pg_probe os cfg then (ExitStatus 3, [])
           else (case proxy_global_init False of (inited, ev) \<Rightarrow>
                   (case http_start os cfg of
                      StartFailed \<Rightarrow> (ExitStatus 4, ev @ snd (proxy_global_cleanup inited))
                    | Started d \<Rightarrow> (Serving cfg d inited, ev @ [DaemonStarted d])
                    | StartOverrun \<Rightarrow> (Undefined, ev)))))"

text \<open>The rest of \<open>main\<close>, once a signal has cleared \<open>g_running\<close>.\<close>

definition listener_shutdown :: "mhd_daemon \<Rightarrow> bool \<Rightarrow> life_event list" where
  "listener_shutdown d inited = http_stop (Some d) @ snd (proxy_global_cleanup inited)"

definition listener_process :: "listener_os \<Rightarrow> cli_option list \<Rightarrow> bool \<Rightarrow> listener_run \<times> life_event list" where
  "listener_process os opts signalled =
     (case listener_main os opts of
        (Serving cfg d inited, ev) \<Rightarrow>
          (if signalled then (ExitStatus 0, ev @ listener_shutdown d inited) else (Serving cfg d inited, ev))
      | r \<Rightarrow> r)"

section \<open>Properties\<close>

text \<open>TLS was asked for on the command line or in the environment.\<close>

definition tls_requested :: "listener_os \<Rightarrow> cli_option list \<Rightarrow> bool" where
  "tls_requested os opts \<longleftrightarrow> OptTls \<in> set opts \<or> env_truthy (os_env os ''TLS'')"

fun last_bearer :: "cli_option list \<Rightarrow> string option \<Rightarrow> string option" where
  "last_bearer [] b = b"
| "last_bearer (OptBearer t # xs) b = last_bearer xs (Some t)"
| "last_bearer (_ # xs) b = last_bearer xs b"

text \<open>The last argument given to an option, or \<open>b\<close>.\<close>

fun last_given :: "(cli_option \<Rightarrow> string option) \<Rightarrow> cli_option list \<Rightarrow> string option \<Rightarrow> string option" where
  "last_given arg [] b = b"
| "last_given arg (x # xs) b = last_given arg xs (case arg x of Some s \<Rightarrow> Some s | None \<Rightarrow> b)"

fun port_arg :: "cli_option \<Rightarrow> string option" where
  "port_arg (OptPort s) = Some s"
| "port_arg _ = None"

fun cert_arg :: "cli_option \<Rightarrow> string option" where
  "cert_arg (OptTlsCert s) = Some s"
| "cert_arg _ = None"

fun key_arg :: "cli_option \<Rightarrow> string option" where
  "key_arg (OptTlsKey s) = Some s"
| "key_arg _ = None"

lemma parse_options_last:
  assumes "parse_options opts cfg = Inr cfg'" and "field cfg = val b"
    and "\<And>x c c' b. apply_option x c = Inr c' \<Longrightarrow> field c = val b \<Longrightarrow> field c' = val (case arg x of Some s \<Rightarrow> Some s | None \<Rightarrow> b)"
  shows "field cfg' = val (last_given arg opts b)"
  using assms(1,2)
proof (induction opts arbitrary: cfg b)
  case (Cons x xs)
  from Cons.prems(1) obtain c where c: "apply_option x cfg = Inr c" "parse_options xs c = Inr cfg'"
    by (auto split: sum.splits)
  from Cons.IH [OF c(2) assms(3) [OF c(1) Cons.prems(2)]] show ?case by simp
qed simp

lemma parse_options_fields:
  assumes "parse_options opts default_config = Inr cfg"
  shows "bind_port cfg = (case last_given port_arg opts None of Some s \<Rightarrow> atoi s | None \<Rightarrow> MC2DBD_DEFAULT_PORT)"
    and "tls_cert_path cfg = last_given cert_arg opts None" and "tls_key_path cfg = last_given key_arg opts None"
proof -
  show "bind_port cfg = (case last_given port_arg opts None of Some s \<Rightarrow> atoi s | None \<Rightarrow> MC2DBD_DEFAULT_PORT)"
    by (rule parse_options_last [where val = "\<lambda>b. case b of Some s \<Rightarrow> atoi s | None \<Rightarrow> MC2DBD_DEFAULT_PORT", OF assms])
      (simp add: default_config_def, rename_tac x c c' b, case_tac x, auto)
  show "tls_cert_path cfg = last_given cert_arg opts None"
    by (rule parse_options_last [where val = "\<lambda>b. b", OF assms])
      (simp add: default_config_def, rename_tac x c c' b, case_tac x, auto)
  show "tls_key_path cfg = last_given key_arg opts None"
    by (rule parse_options_last [where val = "\<lambda>b. b", OF assms])
      (simp add: default_config_def, rename_tac x c c' b, case_tac x, auto)
qed

lemma apply_env_fields:
  "bind_port (apply_env env cfg) = bind_port cfg"
  "tls_cert_path (apply_env env cfg) = (case tls_cert_path cfg of None \<Rightarrow> nonempty_env (env ''TLS_CERT'') | Some p \<Rightarrow> Some p)"
  "tls_key_path (apply_env env cfg) = (case tls_key_path cfg of None \<Rightarrow> nonempty_env (env ''TLS_KEY'') | Some p \<Rightarrow> Some p)"
  by (auto simp: apply_env_def Let_def split: option.splits)

lemma parse_options_tls:
  "parse_options opts cfg = Inr cfg' \<Longrightarrow> tls_enabled cfg' \<longleftrightarrow> tls_enabled cfg \<or> OptTls \<in> set opts"
proof (induction opts arbitrary: cfg)
  case (Cons x xs)
  then show ?case by (cases x) (fastforce split: sum.splits)+
qed simp

lemma parse_options_bearer:
  "parse_options opts cfg = Inr cfg' \<Longrightarrow> cfg_bearer_token cfg' = last_bearer opts (cfg_bearer_token cfg)"
proof (induction opts arbitrary: cfg)
  case (Cons x xs)
  then show ?case by (cases x) (fastforce split: sum.splits)+
qed simp

lemma apply_env_tls: "tls_enabled (apply_env env cfg) \<longleftrightarrow> tls_enabled cfg \<or> env_truthy (env ''TLS'')"
  by (simp add: apply_env_def Let_def)

lemma apply_env_bearer:
  "cfg_bearer_token (apply_env env cfg) = (case cfg_bearer_token cfg of None \<Rightarrow> env_bearer env | Some t \<Rightarrow> Some t)"
  by (simp add: apply_env_def Let_def split: option.splits)

lemma http_start_tls:
  "http_start os cfg = Started d \<Longrightarrow>
     mhd_port d = nat (bind_port cfg mod 65536) \<and> (mhd_tls d \<noteq> None) = tls_enabled cfg \<and> g_cfg d = cfg"
  by (auto simp: http_start_def Let_def split: if_splits option.splits file_text.splits)

lemma http_start_material:
  "http_start os cfg = Started d \<Longrightarrow> mhd_tls d = Some (key, cert) \<Longrightarrow>
     \<exists>cp kp. tls_cert_path cfg = Some cp \<and> tls_key_path cfg = Some kp
       \<and> read_file os cp = FileText cert \<and> read_file os kp = FileText key"
  by (auto simp: http_start_def Let_def split: if_splits option.splits file_text.splits)

text \<open>A regular file is read whole; a pipe with data is not read but overruns the buffer.\<close>

lemma read_file_whole: "os_file os p = Some f \<Longrightarrow> fv_ftell f = int (length (fv_bytes f)) \<Longrightarrow> read_file os p = FileText (fv_bytes f)"
  by (simp add: read_file_def)

lemma read_file_pipe: "os_file os p = Some f \<Longrightarrow> fv_ftell f = - 1 \<Longrightarrow> fv_bytes f \<noteq> [] \<Longrightarrow> read_file os p = Overrun"
  by (simp add: read_file_def)

text \<open>
  C37. The listener serves only what its operator asked for: on the port of the last \<open>--port\<close>, or the
  default, between 1 and 65535 and not changed by the 16-bit conversion, after the database answered a
  probe, with TLS
  exactly when the command line or the environment asks for it (never falling back to clear text
  when the certificate or the key is missing or unreadable) and with the contents of the files last
  given on the command line, or else in the environment, as certificate and key; its handler
  requires the last \<open>--bearer-token\<close> given, or else the token of the environment. A signal ends it with status 0, the daemon stopped before libcurl
  is cleaned up, each once.
\<close>

theorem listener_serves_as_configured:
  assumes "listener_main os opts = (Serving cfg d inited, ev)"
  shows "0 < bind_port cfg \<and> bind_port cfg \<le> 65535 \<and> int (mhd_port d) = bind_port cfg \<and>
    bind_port cfg = (case last_given port_arg opts None of Some s \<Rightarrow> atoi s | None \<Rightarrow> MC2DBD_DEFAULT_PORT) \<and>
    pg_probe os cfg \<and>
    (mhd_tls d \<noteq> None) = tls_requested os opts \<and>
    (\<forall>key cert. mhd_tls d = Some (key, cert) \<longrightarrow>
       (\<exists>cp kp. tls_cert_path cfg = Some cp \<and> tls_key_path cfg = Some kp \<and>
          read_file os cp = FileText cert \<and> read_file os kp = FileText key)) \<and>
    tls_cert_path cfg = (case last_given cert_arg opts None of Some p \<Rightarrow> Some p | None \<Rightarrow> nonempty_env (os_env os ''TLS_CERT'')) \<and>
    tls_key_path cfg = (case last_given key_arg opts None of Some p \<Rightarrow> Some p | None \<Rightarrow> nonempty_env (os_env os ''TLS_KEY'')) \<and>
    cfg_bearer_token cfg = (case last_bearer opts None of Some t \<Rightarrow> Some t | None \<Rightarrow> env_bearer (os_env os)) \<and>
    (\<forall>disp rnd. bearer_token (handler_env os d disp rnd) = cfg_bearer_token cfg) \<and>
    listener_process os opts True =
      (ExitStatus 0, [CurlGlobalInit, DaemonStarted d, DaemonStopped d, CurlGlobalCleanup])"
proof -
  from assms obtain c where p: "parse_options opts default_config = Inr c"
    and cfg: "cfg = apply_env (os_env os) c" and port: "0 < bind_port cfg" "bind_port cfg \<le> 65535"
    and probe: "pg_probe os cfg" and d: "http_start os cfg = Started d"
    and life: "inited" "ev = [CurlGlobalInit, DaemonStarted d]"
    by (auto simp: listener_main_def proxy_global_init_def Let_def not_le split: sum.splits if_splits start_result.splits)
  have "tls_enabled cfg \<longleftrightarrow> tls_requested os opts"
    using parse_options_tls [OF p] by (simp add: cfg apply_env_tls tls_requested_def default_config_def)
  moreover have "cfg_bearer_token cfg = (case last_bearer opts None of Some t \<Rightarrow> Some t | None \<Rightarrow> env_bearer (os_env os))"
    using parse_options_bearer [OF p] by (simp add: cfg apply_env_bearer default_config_def split: option.splits)
  moreover have "int (mhd_port d) = bind_port cfg" using http_start_tls [OF d] port by simp
  moreover have "bind_port cfg = (case last_given port_arg opts None of Some s \<Rightarrow> atoi s | None \<Rightarrow> MC2DBD_DEFAULT_PORT)"
    "tls_cert_path cfg = (case last_given cert_arg opts None of Some p \<Rightarrow> Some p | None \<Rightarrow> nonempty_env (os_env os ''TLS_CERT''))"
    "tls_key_path cfg = (case last_given key_arg opts None of Some p \<Rightarrow> Some p | None \<Rightarrow> nonempty_env (os_env os ''TLS_KEY''))"
    unfolding cfg apply_env_fields parse_options_fields [OF p] by (simp_all split: option.split)
  moreover have "bearer_token (handler_env os d disp rnd) = cfg_bearer_token cfg" for disp rnd
    using http_start_tls [OF d] by (simp add: handler_env_def Let_def)
  moreover have "listener_process os opts True =
      (ExitStatus 0, [CurlGlobalInit, DaemonStarted d, DaemonStopped d, CurlGlobalCleanup])"
    using assms life by (simp add: listener_process_def listener_shutdown_def http_stop_def proxy_global_cleanup_def)
  ultimately show ?thesis using http_start_tls [OF d] http_start_material [OF d] port probe by simp
qed

text \<open>A process that ends has cleaned up exactly what it initialised.\<close>

lemma listener_process_balanced:
  "listener_process os opts signalled = (ExitStatus code, ev) \<Longrightarrow>
   ev = [] \<or> hd ev = CurlGlobalInit \<and> last ev = CurlGlobalCleanup \<and>
     (\<forall>d. DaemonStarted d \<in> set ev \<longleftrightarrow> DaemonStopped d \<in> set ev)"
  by (auto simp: listener_process_def listener_main_def listener_shutdown_def http_stop_def proxy_global_init_def
      proxy_global_cleanup_def Let_def split: sum.splits if_splits start_result.splits)

text \<open>The bind host does not reach the socket: the port and the TLS material do not depend on it.\<close>

lemma bind_host_ignored:
  "http_start os (cfg\<lparr>bind_host := host\<rparr>) =
     (case http_start os cfg of Started d \<Rightarrow> Started (d\<lparr>g_cfg := cfg\<lparr>bind_host := host\<rparr>\<rparr>) | r \<Rightarrow> r)"
  by (auto simp: http_start_def Let_def split: option.split file_text.split)

section \<open>Witness\<close>

definition sample_listener :: listener_os where
  "sample_listener = \<lparr>os_env = (\<lambda>n. if n = ''BEARER_TOKEN'' then Some ''s3cret'' else if n = ''TLS'' then Some ''Yes'' else None),
     pg_connect = (\<lambda>c. True), pg_backend = (\<lambda>c h. CommandOk), os_file = (\<lambda>p. Some \<lparr>fv_ftell = 6, fv_bytes = p\<rparr>), mhd_start_ok = (\<lambda>p. True)\<rparr>"

definition sample_options :: "cli_option list" where
  "sample_options = [OptPort ''8443'', OptTlsCert ''/c.pem'', OptTlsKey ''/k.pem'']"

lemma sample_listener_serves:
  "\<exists>cfg d ev. listener_main sample_listener sample_options = (Serving cfg d True, ev)"
  by (simp add: listener_main_def sample_listener_def sample_options_def default_config_def apply_env_def Let_def
      strtoll10_defs http_start_def read_file_def proxy_global_init_def pg_probe_def db_open_def pq_exec_def pq_exec_params_def nonempty_env_def env_truthy_def ascii_lower_def)

theorem listener_serves_as_configured_witness:
  "\<exists>cfg d inited ev. listener_main sample_listener sample_options = (Serving cfg d inited, ev) \<and>
     mhd_tls d \<noteq> None \<and> cfg_bearer_token cfg = Some ''s3cret''"
proof -
  obtain cfg d inited ev where s: "listener_main sample_listener sample_options = (Serving cfg d inited, ev)"
    using sample_listener_serves by blast
  have "tls_requested sample_listener sample_options" "last_bearer sample_options None = None"
    "env_bearer (os_env sample_listener) = Some ''s3cret''"
    by code_simp+
  with listener_serves_as_configured [OF s] s show ?thesis by auto
qed

end
