(* ===== verification/Http_Interleave.thy ===== *)
theory Http_Interleave
  imports Http_Server
begin

text \<open>
  The listener serves many connections from one polling thread: libmicrohttpd interleaves the calls
  of the handler (src/mc2dbd/src/http.c) for different connections in any order and keeps one
  \<open>con_cls\<close> slot for each. Here the calls are the steps of a transition relation over all
  connections. The environment of a call (the answers of the database, the random bytes) may differ
  from call to call; the configured token does not.
\<close>

section \<open>Connections and steps\<close>

text \<open>
  \<open>Idle\<close> is a connection between requests with what its slot holds, \<open>Receiving\<close> a request whose body
  is being delivered (the blocks so far), \<open>Answered\<close> a request with its queued response, before the
  callback of its completion.
\<close>

datatype con_state =
    Idle "req_state option"
  | Receiving http_request "string list" req_state
  | Answered http_request "string list" http_env "http_action \<times> stmt list" "req_state option"

record served =
  sv_con :: nat
  sv_req :: http_request
  sv_blocks :: "string list"
  sv_env :: http_env
  sv_response :: "http_action \<times> stmt list"

record listener_state =
  ls_con :: "nat \<Rightarrow> con_state"
  ls_log :: "served list"

definition listener_init :: listener_state where
  "listener_init = \<lparr>ls_con = (\<lambda>c. Idle None), ls_log = []\<rparr>"

definition is_answer :: "http_action \<times> stmt list \<Rightarrow> bool" where
  "is_answer r \<longleftrightarrow> (case fst r of NextCall s \<Rightarrow> False | _ \<Rightarrow> True)"

definition set_con :: "nat \<Rightarrow> con_state \<Rightarrow> listener_state \<Rightarrow> listener_state" where
  "set_con c x s = s\<lparr>ls_con := (ls_con s)(c := x)\<rparr>"

inductive listener_step :: "string option \<Rightarrow> listener_state \<Rightarrow> listener_state \<Rightarrow> bool" for token where
  start: "ls_con s c = Idle con \<Longrightarrow> bearer_token env = token \<Longrightarrow> handle env req con [] = (NextCall st, h) \<Longrightarrow>
    listener_step token s (set_con c (Receiving req [] st) s)"
| refuse: "ls_con s c = Idle con \<Longrightarrow> bearer_token env = token \<Longrightarrow> handle env req con [] = r \<Longrightarrow> is_answer r \<Longrightarrow>
    listener_step token s (set_con c (Answered req [] env r con) s)"
| block: "ls_con s c = Receiving req bs st \<Longrightarrow> bearer_token env = token \<Longrightarrow> b \<noteq> [] \<Longrightarrow>
    handle env req (Some st) b = (NextCall st', h) \<Longrightarrow>
    listener_step token s (set_con c (Receiving req (bs @ [b]) st') s)"
| overflow: "ls_con s c = Receiving req bs st \<Longrightarrow> bearer_token env = token \<Longrightarrow> b \<noteq> [] \<Longrightarrow>
    handle env req (Some st) b = r \<Longrightarrow> is_answer r \<Longrightarrow>
    listener_step token s (set_con c (Answered req (bs @ [b]) env r (Some st)) s)"
| finish: "ls_con s c = Receiving req bs st \<Longrightarrow> bearer_token env = token \<Longrightarrow> handle env req (Some st) [] = r \<Longrightarrow>
    listener_step token s (set_con c (Answered req bs env r (Some st)) s)"
| complete: "ls_con s c = Answered req bs env r con \<Longrightarrow>
    listener_step token s ((set_con c (Idle (completed con)) s)\<lparr>ls_log := ls_log s @
      [\<lparr>sv_con = c, sv_req = req, sv_blocks = bs, sv_env = env, sv_response = r\<rparr>]\<rparr>)"

inductive listener_run :: "string option \<Rightarrow> listener_state \<Rightarrow> listener_state \<Rightarrow> bool" for token where
  run_refl: "listener_run token s s"
| run_step: "listener_run token s s' \<Longrightarrow> listener_step token s' s'' \<Longrightarrow> listener_run token s s''"

section \<open>Isolation\<close>

text \<open>Whether the handler asks for more depends on the configuration only.\<close>

lemma handle_body_answers: "is_answer (handle_body env req body)"
  by (simp add: handle_body_def is_answer_def split: option.splits prod.splits)

lemma handle_metrics_answers: "is_answer (handle_metrics env)"
  by (simp add: handle_metrics_def is_answer_def split: option.splits prod.splits)

lemma is_answer_simps [simp]:
  "is_answer (SendText n t, h)" "is_answer (SendUnauthorized, h)" "\<not> is_answer (NextCall st, h)"
  by (simp_all add: is_answer_def)

lemma answers_not_next [simp]:
  "handle_body env req body \<noteq> (NextCall st, h)" "handle_metrics env \<noteq> (NextCall st, h)"
  using handle_body_answers [of env req body] handle_metrics_answers [of env] by auto

lemma auth_ok_token: "bearer_token env' = bearer_token env \<Longrightarrow> auth_ok env' req = auth_ok env req"
  by (simp add: auth_ok_def)

lemma handle_next_token:
  assumes "handle env req con u = (NextCall st, h)" and "bearer_token env' = bearer_token env"
  shows "handle env' req con u = (NextCall st, h)"
  using assms(1) auth_ok_token [OF assms(2), of req]
  by (auto simp: handle_def split: if_splits option.splits)

lemma serve_answer:
  "is_answer (handle env req con b) \<Longrightarrow> serve env req (b # bs) con = handle env req con b"
  by (auto simp: is_answer_def split: prod.splits http_action.splits)

lemma serve_append_next:
  "handle env req (Some st) b = (NextCall st', h) \<Longrightarrow> serve env req (b # rest) (Some st) = serve env req rest (Some st')"
  by simp

text \<open>
  What each connection has received is explained by its own request alone: whatever comes next on it
  is answered as if the request had been served without interruption.
\<close>

primrec con_ok :: "string option \<Rightarrow> con_state \<Rightarrow> bool" where
  "con_ok token (Idle con) \<longleftrightarrow> con = None"
| "con_ok token (Receiving req bs st) \<longleftrightarrow>
     (\<forall>env rest. bearer_token env = token \<longrightarrow> serve_request env req (bs @ rest) = serve env req rest (Some st)) \<and>
     [] \<notin> set bs"
| "con_ok token (Answered req bs env r con) \<longleftrightarrow> r = serve_request env req bs \<and> [] \<notin> set bs"

definition served_alone :: "served \<Rightarrow> bool" where
  "served_alone sv \<longleftrightarrow>
     sv_response sv = serve_request (sv_env sv) (sv_req sv) (sv_blocks sv) \<and> [] \<notin> set (sv_blocks sv)"

definition listener_ok :: "string option \<Rightarrow> listener_state \<Rightarrow> bool" where
  "listener_ok token s \<longleftrightarrow> (\<forall>c. con_ok token (ls_con s c)) \<and> (\<forall>sv \<in> set (ls_log s). served_alone sv)"

lemma listener_ok_set_con: "listener_ok token s \<Longrightarrow> con_ok token x \<Longrightarrow> listener_ok token (set_con c x s)"
  by (simp add: listener_ok_def set_con_def)

lemma receiving_start:
  assumes "handle env req None [] = (NextCall st, h)" and "bearer_token env = token"
  shows "con_ok token (Receiving req [] st)"
  using handle_next_token [OF assms(1)] assms(2) by (simp add: serve_request_def)

lemma receiving_block:
  assumes "con_ok token (Receiving req bs st)" and "handle env req (Some st) b = (NextCall st', h)"
    and "bearer_token env = token" and "b \<noteq> []"
  shows "con_ok token (Receiving req (bs @ [b]) st')"
proof -
  have "serve_request e req ((bs @ [b]) @ rest) = serve e req rest (Some st')" if "bearer_token e = token" for e rest
    using assms(1) that handle_next_token [OF assms(2), of e] assms(3) by simp
  then show ?thesis using assms(1,4) by simp
qed

lemma answered_block:
  assumes "con_ok token (Receiving req bs st)" and "is_answer (handle env req (Some st) b)" and "bearer_token env = token"
    and "b \<noteq> []"
  shows "con_ok token (Answered req (bs @ [b]) env (handle env req (Some st) b) con)"
  using assms serve_answer [OF assms(2), of "[]"] by simp

lemma answered_finish:
  assumes "con_ok token (Receiving req bs st)" and "bearer_token env = token"
  shows "con_ok token (Answered req bs env (handle env req (Some st) []) con)"
proof -
  from assms have "serve_request env req (bs @ []) = serve env req [] (Some st)" unfolding con_ok.simps by blast
  then show ?thesis using assms(1) by simp
qed

lemma answered_refuse:
  "is_answer (handle env req None []) \<Longrightarrow> con_ok token (Answered req [] env (handle env req None []) con)"
  by (auto simp: serve_request_def is_answer_def split: prod.splits http_action.splits)

lemma con_okD: "listener_ok token s \<Longrightarrow> ls_con s c = x \<Longrightarrow> con_ok token x"
  by (auto simp: listener_ok_def)

lemma listener_step_ok:
  assumes "listener_step token s s'" and ok: "listener_ok token s"
  shows "listener_ok token s'"
  using assms(1)
proof cases
  case (start c con env req st h)
  with con_okD [OF ok start(2)] have "con_ok token (Receiving req [] st)" by (intro receiving_start) auto
  then show ?thesis unfolding start(1) by (rule listener_ok_set_con [OF ok])
next
  case (refuse c con env req r)
  with con_okD [OF ok refuse(2)] have "con_ok token (Answered req [] env r con)" using answered_refuse by auto
  then show ?thesis unfolding refuse(1) by (rule listener_ok_set_con [OF ok])
next
  case (block c req bs st env b st' h)
  then have "con_ok token (Receiving req (bs @ [b]) st')" by (intro receiving_block [OF con_okD [OF ok block(2)]]) auto
  then show ?thesis unfolding block(1) by (rule listener_ok_set_con [OF ok])
next
  case (overflow c req bs st env b r)
  then have "con_ok token (Answered req (bs @ [b]) env r (Some st))"
    using answered_block [OF con_okD [OF ok overflow(2)]] by blast
  then show ?thesis unfolding overflow(1) by (rule listener_ok_set_con [OF ok])
next
  case (finish c req bs st env r)
  then have "con_ok token (Answered req bs env r (Some st))"
    using answered_finish [OF con_okD [OF ok finish(2)]] by blast
  then show ?thesis unfolding finish(1) by (rule listener_ok_set_con [OF ok])
next
  case (complete c req bs env r con)
  with con_okD [OF ok complete(2)] ok show ?thesis
    by (auto simp: listener_ok_def set_con_def completed_def served_alone_def)
qed

lemma listener_run_ok: "listener_run token s s' \<Longrightarrow> listener_ok token s \<Longrightarrow> listener_ok token s'"
  by (induction rule: listener_run.induct) (auto intro: listener_step_ok)

lemma listener_init_ok: "listener_ok token listener_init"
  by (simp add: listener_ok_def listener_init_def)

lemma listener_run_served: "listener_run token listener_init s \<Longrightarrow> sv \<in> set (ls_log s) \<Longrightarrow> served_alone sv"
  using listener_run_ok [OF _ listener_init_ok] by (simp add: listener_ok_def)

text \<open>
  C34. Requests on different connections, and successive requests on one connection, do not see each
  other: in every run of the listener, however the calls are interleaved, each completed request got
  exactly the response it would have got alone, from the blocks of its own body.
\<close>

theorem interleaved_requests_isolated:
  assumes "listener_run token listener_init s" and "sv \<in> set (ls_log s)"
  shows "sv_response sv = serve_request (sv_env sv) (sv_req sv) (sv_blocks sv)"
  using listener_run_served [OF assms] by (simp add: served_alone_def)

text \<open>Every authorised POST with a one-block body can be served.\<close>

lemma single_request_run:
  assumes "mcp_post req" and "auth_ok env req" and "b \<noteq> []" and "length b < MC2DBD_MAX_BODY"
  shows "\<exists>s. listener_run (bearer_token env) listener_init s \<and>
    ls_log s = [\<lparr>sv_con = 0, sv_req = req, sv_blocks = [b], sv_env = env, sv_response = handle_body env req b\<rparr>]"
proof -
  let ?t = "bearer_token env" and ?f = "\<lparr>rs_body = [], rs_cap = 4096\<rparr> :: req_state"
  let ?a = "append_block b ?f"
  let ?s1 = "set_con 0 (Receiving req [] ?f) listener_init"
  let ?s2 = "set_con 0 (Receiving req ([] @ [b]) ?a) ?s1"
  let ?r = "handle env req (Some ?a) []"
  let ?s3 = "set_con 0 (Answered req ([] @ [b]) env ?r (Some ?a)) ?s2"
  have b: "handle env req (Some ?f) b = (NextCall ?a, [])"
    using assms by (simp add: handle_mcp_post [OF assms(1,2)] add_block_def)
  have "listener_step ?t listener_init ?s1"
    by (rule start [OF _ refl handle_mcp_post(1) [OF assms(1,2)]]) (simp add: listener_init_def)
  then have "listener_run ?t listener_init ?s1" by (rule run_step [OF run_refl])
  moreover have "listener_step ?t ?s1 ?s2" by (rule block [OF _ refl assms(3) b]) (simp add: set_con_def)
  ultimately have "listener_run ?t listener_init ?s2" by (rule run_step)
  moreover have "listener_step ?t ?s2 ?s3" by (rule finish [OF _ refl refl]) (simp add: set_con_def)
  ultimately have 3: "listener_run ?t listener_init ?s3" by (rule run_step)
  have r: "?r = handle_body env req b"
    by (simp add: handle_mcp_post [OF assms(1,2)] body_buffer.data_put)
  have "ls_con ?s3 0 = Answered req [b] env (handle_body env req b) (Some ?a)" by (simp add: set_con_def r)
  from run_step [OF 3 complete [OF this]] show ?thesis
    by (intro exI conjI, assumption) (simp add: set_con_def listener_init_def)
qed

section \<open>Witness\<close>

text \<open>Two connections whose first blocks arrive interleaved; the first one is completed.\<close>

definition first_state :: req_state where
  "first_state = \<lparr>rs_body = [], rs_cap = 4096\<rparr>"

definition good_post :: http_request where
  "good_post = sample_post (Some ''Bearer s3cret'')"

lemma good_post_calls:
  "handle sample_http_env good_post None [] = (NextCall first_state, [])"
  "handle sample_http_env good_post (Some first_state) ''{'' = (NextCall (append_block ''{'' first_state), [])"
  "handle sample_http_env good_post (Some first_state) ''['' = (NextCall (append_block ''['' first_state), [])"
proof -
  have p: "mcp_post good_post" "auth_ok sample_http_env good_post"
    by (simp_all add: good_post_def mcp_post_def sample_post_def auth_ok_def sample_http_env_def starts_with_def)
  show "handle sample_http_env good_post None [] = (NextCall first_state, [])"
    "handle sample_http_env good_post (Some first_state) ''{'' = (NextCall (append_block ''{'' first_state), [])"
    "handle sample_http_env good_post (Some first_state) ''['' = (NextCall (append_block ''['' first_state), [])"
    by (simp_all add: handle_mcp_post [OF p] first_state_def add_block_def MC2DBD_MAX_BODY_def)
qed

lemma sample_interleaving:
  "\<exists>s r. listener_run (Some ''s3cret'') listener_init s \<and>
     ls_log s = [\<lparr>sv_con = 0, sv_req = good_post, sv_blocks = [''{''], sv_env = sample_http_env, sv_response = r\<rparr>] \<and>
     ls_con s 1 = Receiving good_post [''[''] (append_block ''['' first_state)"
proof -
  let ?t = "Some ''s3cret''" and ?p = good_post and ?e = sample_http_env and ?f = first_state
  let ?s1 = "set_con 0 (Receiving ?p [] ?f) listener_init"
  let ?s2 = "set_con 1 (Receiving ?p [] ?f) ?s1"
  let ?s3 = "set_con 0 (Receiving ?p [''{''] (append_block ''{'' ?f)) ?s2"
  let ?s4 = "set_con 1 (Receiving ?p [''[''] (append_block ''['' ?f)) ?s3"
  let ?r = "handle ?e ?p (Some (append_block ''{'' ?f)) []"
  let ?s5 = "set_con 0 (Answered ?p [''{''] ?e ?r (Some (append_block ''{'' ?f))) ?s4"
  have t: "bearer_token ?e = ?t" by (simp add: sample_http_env_def)
  have "listener_step ?t listener_init ?s1"
    by (rule start [OF _ t good_post_calls(1)]) (simp add: listener_init_def)
  then have 1: "listener_run ?t listener_init ?s1" by (rule run_step [OF run_refl])
  have "listener_step ?t ?s1 ?s2"
    by (rule start [OF _ t good_post_calls(1)]) (simp add: listener_init_def set_con_def)
  with 1 have 2: "listener_run ?t listener_init ?s2" by (rule run_step)
  have "listener_step ?t ?s2 (set_con 0 (Receiving ?p ([] @ [''{'']) (append_block ''{'' ?f)) ?s2)"
    by (rule block [OF _ t _ good_post_calls(2)]) (simp_all add: set_con_def)
  with 2 have 3: "listener_run ?t listener_init ?s3" by (auto intro: run_step)
  have "listener_step ?t ?s3 (set_con 1 (Receiving ?p ([] @ [''['']) (append_block ''['' ?f)) ?s3)"
    by (rule block [OF _ t _ good_post_calls(3)]) (simp_all add: set_con_def)
  with 3 have 4: "listener_run ?t listener_init ?s4" by (auto intro: run_step)
  have "listener_step ?t ?s4 ?s5" by (rule finish [OF _ t refl]) (simp add: set_con_def)
  with 4 have 5: "listener_run ?t listener_init ?s5" by (rule run_step)
  have "ls_con ?s5 0 = Answered ?p [''{''] ?e ?r (Some (append_block ''{'' ?f))" by (simp add: set_con_def)
  from run_step [OF 5 complete [OF this]] show ?thesis
    by (intro exI conjI, assumption) (simp_all add: set_con_def listener_init_def)
qed

theorem interleaved_requests_isolated_witness:
  "\<exists>s sv. listener_run (Some ''s3cret'') listener_init s \<and> sv \<in> set (ls_log s) \<and>
     sv_response sv = serve_request sample_http_env good_post [''{'']"
proof -
  obtain s r where s: "listener_run (Some ''s3cret'') listener_init s"
    "ls_log s = [\<lparr>sv_con = 0, sv_req = good_post, sv_blocks = [''{''], sv_env = sample_http_env, sv_response = r\<rparr>]"
    using sample_interleaving by blast
  let ?sv = "\<lparr>sv_con = 0, sv_req = good_post, sv_blocks = [''{''], sv_env = sample_http_env, sv_response = r\<rparr>"
  have sv: "?sv \<in> set (ls_log s)" using s(2) by simp
  from interleaved_requests_isolated [OF s(1) sv] have "sv_response ?sv = serve_request sample_http_env good_post [''{'']" by simp
  with s(1) sv show ?thesis by (intro exI [of _ s] exI [of _ ?sv]) blast
qed

end
