(* ===== verification/Driver_Core.thy ===== *)
theory Driver_Core
  imports Pg_Client Vector_Type
begin

text \<open>
  The C client library, src/drivers/c: the handle with its connection and last error, the execution
  of parameterised statements, the scalar results, the array literals with the buffers they are
  built in, and the connection. The server is a parameter that answers each statement from the
  history of the connection; memory allocation does not fail. The wrappers are in the theory on the
  operations.
\<close>

section \<open>The handle\<close>

datatype maludb_errcode_t =
    MALUDB_OK
  | MALUDB_ERR_GENERIC
  | MALUDB_ERR_CONNECT
  | MALUDB_ERR_NOT_FOUND
  | MALUDB_ERR_INVALID_PARAMETER
  | MALUDB_ERR_OBJECT_NOT_IN_STATE
  | MALUDB_ERR_CHECK_VIOLATION
  | MALUDB_ERR_PERMISSION_DENIED

text \<open>The rows of a query, a completed command, or an error with its SQLSTATE and message.\<close>

datatype drv_result =
    DrvTuples "string option list list"
  | DrvCommand
  | DrvError "string option" string

type_synonym drv_server = "stmt list \<Rightarrow> drv_result"

text \<open>\<open>conn_history\<close> are the statements sent on the connection, \<open>conn_ok\<close> its status.\<close>

record maludb_t =
  conn_ok :: bool
  conn_history :: "stmt list"
  last_code :: maludb_errcode_t
  last_message :: "string option"

definition sqlstate_to_errcode :: "string option \<Rightarrow> maludb_errcode_t" where
  "sqlstate_to_errcode sqlstate =
     (case sqlstate of
        None \<Rightarrow> MALUDB_ERR_GENERIC
      | Some s \<Rightarrow>
          (if s = ''P0002'' \<or> s = ''02000'' then MALUDB_ERR_NOT_FOUND
           else if s = ''22023'' \<or> s = ''22P02'' then MALUDB_ERR_INVALID_PARAMETER
           else if s = ''55000'' then MALUDB_ERR_OBJECT_NOT_IN_STATE
           else if s = ''23514'' then MALUDB_ERR_CHECK_VIOLATION
           else if s = ''42501'' then MALUDB_ERR_PERMISSION_DENIED
           else MALUDB_ERR_GENERIC))"

definition drv_set_error :: "maludb_errcode_t \<Rightarrow> string \<Rightarrow> maludb_t \<Rightarrow> maludb_t" where
  "drv_set_error code msg m = m\<lparr>last_code := code, last_message := Some (snprintf_trunc 1024 msg)\<rparr>"

definition set_error_from_result :: "string option \<Rightarrow> string \<Rightarrow> maludb_t \<Rightarrow> maludb_t" where
  "set_error_from_result sqlstate msg m =
     drv_set_error (sqlstate_to_errcode sqlstate)
       ((case sqlstate of Some s \<Rightarrow> s | None \<Rightarrow> ''00000'') @ '': '' @ msg) m"

text \<open>\<open>None\<close> is the NULL of a failed statement.\<close>

definition drv_exec_params :: "drv_server \<Rightarrow> string \<Rightarrow> string option list \<Rightarrow> maludb_t \<Rightarrow> drv_result option \<times> maludb_t" where
  "drv_exec_params srv sql values m =
     (let h = conn_history m @ [(sql, values)]; m1 = m\<lparr>conn_history := h\<rparr> in
      case srv h of
        DrvError sqlstate msg \<Rightarrow> (None, set_error_from_result sqlstate msg m1)
      | r \<Rightarrow> (Some r, m1))"

text \<open>The first column of the first row, if there is one and it is not null.\<close>

definition first_cell :: "drv_result \<Rightarrow> string option" where
  "first_cell r = (case r of DrvTuples ((Some v # _) # _) \<Rightarrow> Some v | _ \<Rightarrow> None)"

definition scalar_int64 :: "drv_result \<Rightarrow> maludb_t \<Rightarrow> int option \<times> maludb_t" where
  "scalar_int64 r m =
     (case first_cell r of
        None \<Rightarrow> (None, drv_set_error MALUDB_ERR_GENERIC ''scalar_int64: empty result'' m)
      | Some v \<Rightarrow> (Some (strtoll10 v), m))"

definition scalar_string :: "drv_result \<Rightarrow> string option" where
  "scalar_string r = first_cell r"

section \<open>Array literals\<close>

text \<open>
  A literal is written byte by byte into a buffer of \<open>cap\<close> bytes. \<open>None\<close> is a write behind its end,
  which in C is undefined.
\<close>

definition put_bytes :: "nat \<Rightarrow> string \<Rightarrow> string option \<Rightarrow> string option" where
  "put_bytes cap s buf =
     (case buf of None \<Rightarrow> None | Some b \<Rightarrow> if length b + length s \<le> cap then Some (b @ s) else None)"

fun put_items :: "nat \<Rightarrow> bool \<Rightarrow> string list \<Rightarrow> string option \<Rightarrow> string option" where
  "put_items cap first [] buf = buf"
| "put_items cap first (x # xs) buf =
     put_items cap False xs (put_bytes cap x (if first then buf else put_bytes cap '','' buf))"

text \<open>The closing brace and the NUL; the literal is the C string before the NUL.\<close>

definition close_literal :: "nat \<Rightarrow> string option \<Rightarrow> string option" where
  "close_literal cap buf = map_option butlast (put_bytes cap [CHR 0x00] (put_bytes cap ''}'' buf))"

definition text_array_literal :: "string list option \<Rightarrow> string option" where
  "text_array_literal items =
     (case items of
        None \<Rightarrow> Some ''{claim,fact,memory,episode_object}''
      | Some xs \<Rightarrow>
          (if xs = [] then Some ''{}''
           else (let cap = 2 + sum_list (map (\<lambda>x. length x + 1) xs) + length xs in
                 close_literal cap (put_items cap True xs (put_bytes cap ''{'' (Some []))))))"

definition int64_array_cap :: "nat \<Rightarrow> nat" where
  "int64_array_cap n = 2 + n * 22"

definition int64_array_literal :: "int list \<Rightarrow> string option" where
  "int64_array_literal ids =
     (let cap = int64_array_cap (length ids) in
      close_literal cap (put_items cap True (map fmt_d ids) (put_bytes cap ''{'' (Some []))))"

section \<open>Connection\<close>

text \<open>\<open>PQescapeIdentifier\<close> is a parameter; it fails on text that is not valid in the client encoding.\<close>

definition search_path_stmt :: "(string \<Rightarrow> string option) \<Rightarrow> string option \<Rightarrow> string option" where
  "search_path_stmt escape schema =
     (case schema of
        None \<Rightarrow> Some ''SET search_path = maludb_core, public''
      | Some s \<Rightarrow>
          (if s = [] then Some ''SET search_path = maludb_core, public''
           else map_option (\<lambda>q. ''SET search_path = '' @ q @ '', maludb_core, public'') (escape s)))"

definition set_search_path ::
  "drv_server \<Rightarrow> (string \<Rightarrow> string option) \<Rightarrow> string option \<Rightarrow> maludb_t \<Rightarrow> int \<times> maludb_t" where
  "set_search_path srv escape schema m =
     (case search_path_stmt escape schema of
        None \<Rightarrow> (- 1, drv_set_error MALUDB_ERR_GENERIC ''quote schema identifier failed'' m)
      | Some sql \<Rightarrow>
          (let h = conn_history m @ [(sql, [])]; m1 = m\<lparr>conn_history := h\<rparr> in
           case srv h of
             DrvCommand \<Rightarrow> (0, m1\<lparr>last_code := MALUDB_OK\<rparr>)
           | DrvError sqlstate msg \<Rightarrow> (- 1, set_error_from_result sqlstate msg m1)
           | DrvTuples _ \<Rightarrow> (- 1, set_error_from_result None [] m1)))"

text \<open>\<open>connect\<close> is the error message of a failed \<open>PQconnectdb\<close>.\<close>

definition maludb_connect_schema ::
  "drv_server \<Rightarrow> (string \<Rightarrow> string option) \<Rightarrow> string option \<Rightarrow> string option \<Rightarrow> maludb_t" where
  "maludb_connect_schema srv escape connect schema =
     (case connect of
        Some e \<Rightarrow>
          drv_set_error MALUDB_ERR_CONNECT e
            \<lparr>conn_ok = False, conn_history = [], last_code = MALUDB_OK, last_message = None\<rparr>
      | None \<Rightarrow>
          snd (set_search_path srv escape schema
            \<lparr>conn_ok = True, conn_history = [], last_code = MALUDB_OK, last_message = None\<rparr>))"

definition maludb_connect :: "drv_server \<Rightarrow> (string \<Rightarrow> string option) \<Rightarrow> string option \<Rightarrow> maludb_t" where
  "maludb_connect srv escape connect = maludb_connect_schema srv escape connect None"

definition maludb_last_error_code :: "maludb_t option \<Rightarrow> maludb_errcode_t" where
  "maludb_last_error_code m = (case m of Some h \<Rightarrow> last_code h | None \<Rightarrow> MALUDB_ERR_GENERIC)"

definition maludb_last_error_message :: "maludb_t option \<Rightarrow> string" where
  "maludb_last_error_message m =
     (case m of Some h \<Rightarrow> (case last_message h of Some s \<Rightarrow> s | None \<Rightarrow> []) | None \<Rightarrow> [])"

section \<open>Results of an operation\<close>

text \<open>The three ways the wrappers finish: an id, a string, or a status.\<close>

definition exec_scalar_int64 :: "drv_server \<Rightarrow> string \<Rightarrow> string option list \<Rightarrow> maludb_t \<Rightarrow> int \<times> maludb_t" where
  "exec_scalar_int64 srv sql values m =
     (case drv_exec_params srv sql values m of
        (None, m1) \<Rightarrow> (- 1, m1)
      | (Some r, m1) \<Rightarrow>
          (case scalar_int64 r m1 of
             (None, m2) \<Rightarrow> (- 1, m2)
           | (Some out, m2) \<Rightarrow> (out, m2\<lparr>last_code := MALUDB_OK\<rparr>)))"

definition exec_scalar_string :: "drv_server \<Rightarrow> string \<Rightarrow> string \<Rightarrow> string option list \<Rightarrow> maludb_t \<Rightarrow> string option \<times> maludb_t" where
  "exec_scalar_string srv empty_msg sql values m =
     (case drv_exec_params srv sql values m of
        (None, m1) \<Rightarrow> (None, m1)
      | (Some r, m1) \<Rightarrow>
          (case scalar_string r of
             None \<Rightarrow> (None, drv_set_error MALUDB_ERR_GENERIC empty_msg m1)
           | Some s \<Rightarrow> (Some s, m1\<lparr>last_code := MALUDB_OK\<rparr>)))"

definition exec_status :: "drv_server \<Rightarrow> string \<Rightarrow> string option list \<Rightarrow> maludb_t \<Rightarrow> int \<times> maludb_t" where
  "exec_status srv sql values m =
     (case drv_exec_params srv sql values m of
        (None, m1) \<Rightarrow> (- 1, m1)
      | (Some r, m1) \<Rightarrow> (0, m1\<lparr>last_code := MALUDB_OK\<rparr>))"

definition invalid_id :: "string \<Rightarrow> maludb_t \<Rightarrow> int \<times> maludb_t" where
  "invalid_id msg m = (- 1, drv_set_error MALUDB_ERR_INVALID_PARAMETER msg m)"

definition invalid_string :: "string \<Rightarrow> maludb_t \<Rightarrow> string option \<times> maludb_t" where
  "invalid_string msg m = (None, drv_set_error MALUDB_ERR_INVALID_PARAMETER msg m)"

section \<open>Numbers as parameters\<close>

definition int64_or_null :: "int \<Rightarrow> string option" where
  "int64_or_null v = (if v = 0 then None else Some (fmt_d v))"

definition int_str_or_null :: "int \<Rightarrow> string option" where
  "int_str_or_null v = (if v \<le> 0 then None else Some (fmt_d v))"

definition int64_str_or_null :: "int \<Rightarrow> string option" where
  "int64_str_or_null v = (if v \<le> 0 then None else Some (fmt_d v))"

text \<open>\<open>%.kf\<close>: \<open>k\<close> digits after the point, rounded to nearest, ties to even.\<close>

definition scaled :: "nat \<Rightarrow> int \<Rightarrow> int \<Rightarrow> int" where
  "scaled k m e =
     (if 0 \<le> e then m * 2 ^ nat e * 10 ^ k
      else (let d = 2 ^ nat (- e); p = m * 10 ^ k; q = p div d; r = p mod d in
            if d < 2 * r \<or> (d = 2 * r \<and> odd q) then q + 1 else q))"

definition pad_left :: "nat \<Rightarrow> char \<Rightarrow> string \<Rightarrow> string" where
  "pad_left k c s = replicate (k - length s) c @ s"

definition fmt_fixed :: "nat \<Rightarrow> f64 \<Rightarrow> string" where
  "fmt_fixed k x =
     (case f64_unpack x of
        FNaN \<Rightarrow> (if f64_sign x then ''-nan'' else ''nan'')
      | FInf s \<Rightarrow> (if s then ''-inf'' else ''inf'')
      | FNum s m e \<Rightarrow>
          (let n = scaled k m e in
           (if s then ''-'' else []) @ fmt_d (n div 10 ^ k) @ ''.'' @ pad_left k CHR ''0'' (fmt_d (n mod 10 ^ k))))"

definition double_str_or_null :: "f64 \<Rightarrow> string option" where
  "double_str_or_null v = (if f64_lt v f64_zero then None else Some (snprintf_trunc 64 (fmt_fixed 6 v)))"

section \<open>Properties\<close>

subsection \<open>Array literals\<close>

fun joined :: "string list \<Rightarrow> string" where
  "joined [] = []"
| "joined [x] = x"
| "joined (x # y # ys) = x @ '','' @ joined (y # ys)"

definition braced :: "string list \<Rightarrow> string" where
  "braced xs = ''{'' @ joined xs @ ''}''"

lemma put_items_none [simp]: "put_items cap f xs None = None"
  by (induction xs arbitrary: f) (simp_all add: put_bytes_def)

lemma put_items_rest:
  "put_items cap False xs (Some b) =
     (if length b + length (concat (map (Cons CHR '','') xs)) \<le> cap then Some (b @ concat (map (Cons CHR '','') xs))
      else if xs = [] then Some b else None)"
proof (induction xs arbitrary: b)
  case (Cons x xs)
  show ?case
  proof (cases "length b + (1 + length x) \<le> cap")
    case True
    then have "put_items cap False (x # xs) (Some b) = put_items cap False xs (Some (b @ '','' @ x))"
      by (simp add: put_bytes_def)
    then show ?thesis using Cons.IH [of "b @ '','' @ x"] True by auto
  next
    case False
    then show ?thesis by (simp add: put_bytes_def)
  qed
qed simp

lemma joined_Cons: "joined (x # xs) = x @ concat (map (Cons CHR '','') xs)"
proof (induction xs arbitrary: x)
  case (Cons y ys)
  then show ?case by simp
qed simp

text \<open>A non-empty literal is produced exactly when the braces, the items and the NUL fit.\<close>

lemma literal_fits:
  assumes "xs \<noteq> []"
  shows "close_literal cap (put_items cap True xs (put_bytes cap ''{'' (Some []))) =
    (if length (joined xs) + 3 \<le> cap then Some (braced xs) else None)"
proof -
  obtain x ys where xs: "xs = x # ys" using assms by (cases xs) auto
  show ?thesis
  proof (cases "length x + 1 \<le> cap")
    case True
    then have "put_items cap True xs (put_bytes cap ''{'' (Some [])) = put_items cap False ys (Some (''{'' @ x))"
      by (simp add: xs put_bytes_def)
    then show ?thesis
      by (auto simp: put_items_rest close_literal_def put_bytes_def braced_def xs joined_Cons butlast_append)
  next
    case False
    then show ?thesis by (simp add: xs put_bytes_def close_literal_def joined_Cons)
  qed
qed

lemma length_joined: "xs \<noteq> [] \<Longrightarrow> length (joined xs) + 1 = sum_list (map (\<lambda>x. length x + 1) xs)"
  by (induction xs rule: joined.induct) simp_all

lemma text_array_literal_value:
  "text_array_literal (Some xs) = Some (braced xs)"
proof (cases "xs = []")
  case False
  then have "length (joined xs) + 3 \<le> 2 + sum_list (map (\<lambda>x. length x + 1) xs) + length xs"
    using length_joined [OF False] by (cases xs) auto
  with False show ?thesis by (simp add: text_array_literal_def Let_def literal_fits)
qed (simp add: text_array_literal_def braced_def)

text \<open>Items are not quoted, so one item with a comma and two items give the same array.\<close>

lemma text_array_unquoted: "text_array_literal (Some [x @ '','' @ y]) = text_array_literal (Some [x, y])"
  by (simp add: text_array_literal_value braced_def)

lemma sum_list_le_mult: "\<forall>x \<in> set xs. f x \<le> (c :: nat) \<Longrightarrow> sum_list (map f xs) \<le> length xs * c"
  by (induction xs) auto

lemma int64_array_literal_nil: "int64_array_literal [] = None"
  by (simp add: int64_array_literal_def close_literal_def put_bytes_def int64_array_cap_def)

lemma int64_array_literal_value:
  assumes "\<forall>i \<in> set ids. - (2 ^ 63) \<le> i \<and> i < 2 ^ 63" and "ids \<noteq> []"
  shows "int64_array_literal ids = Some (braced (map fmt_d ids))"
proof -
  have "\<forall>s \<in> set (map fmt_d ids). length s + 1 \<le> 21" using assms(1) length_fmt_d_int64 by auto
  then have "length (joined (map fmt_d ids)) + 1 \<le> length (map fmt_d ids) * 21"
    using sum_list_le_mult [of "map fmt_d ids" "\<lambda>x. length x + 1" 21] length_joined [of "map fmt_d ids"] assms(2) by simp
  moreover have "1 \<le> length ids" using assms(2) by (cases ids) auto
  ultimately have "length (joined (map fmt_d ids)) + 3 \<le> int64_array_cap (length ids)"
    by (simp add: int64_array_cap_def)
  with assms(2) show ?thesis by (simp add: int64_array_literal_def Let_def literal_fits)
qed

text \<open>
  C38. Between one and any number of 64-bit ids are printed into the buffer that \<open>int64_array_literal\<close>
  allocates, including the widest negative ones, and the result is the array literal of those ids
  in order; for no ids at all the NUL is written one byte behind the two-byte buffer.
\<close>

theorem int64_array_literal_fits:
  assumes "\<forall>i \<in> set ids. - (2 ^ 63) \<le> i \<and> i < 2 ^ 63"
  shows "int64_array_literal ids = (if ids = [] then None else Some (braced (map fmt_d ids)))"
  using int64_array_literal_value [OF assms] int64_array_literal_nil by simp

theorem int64_array_literal_fits_witness:
  "int64_array_literal [- 12, 7] = Some ''{-12,7}''"
proof -
  have "braced (map fmt_d [- 12, 7]) = ''{-12,7}''" by code_simp
  with int64_array_literal_fits [of "[- 12, 7]"] show ?thesis by simp
qed

subsection \<open>The error model\<close>

lemma sqlstate_never_ok: "sqlstate_to_errcode s \<noteq> MALUDB_OK"
  by (simp add: sqlstate_to_errcode_def split: option.splits)

lemma drv_set_error_simps [simp]:
  "last_code (drv_set_error code msg m) = code" "conn_history (drv_set_error code msg m) = conn_history m"
  "conn_ok (drv_set_error code msg m) = conn_ok m"
  by (simp_all add: drv_set_error_def)

text \<open>
  What a wrapper owes its caller: with no error code the result is what the server answered to the
  one statement sent; with an error code it is the failure value, and at most one statement was
  sent.
\<close>

definition reports :: "drv_server \<Rightarrow> (drv_result \<Rightarrow> 'a \<Rightarrow> bool) \<Rightarrow> 'a \<Rightarrow> (maludb_t \<Rightarrow> 'a \<times> maludb_t) \<Rightarrow> bool" where
  "reports srv good bad f \<longleftrightarrow>
     (\<forall>m. case f m of (r, m') \<Rightarrow>
        (if last_code m' = MALUDB_OK
         then \<exists>st. conn_history m' = conn_history m @ [st] \<and> good (srv (conn_history m')) r
         else r = bad \<and> (\<exists>sent. conn_history m' = conn_history m @ sent \<and> length sent \<le> 1)))"

definition id_answer :: "drv_result \<Rightarrow> int \<Rightarrow> bool" where
  "id_answer res r \<longleftrightarrow> (\<exists>v. first_cell res = Some v \<and> r = strtoll10 v)"

definition string_answer :: "drv_result \<Rightarrow> string option \<Rightarrow> bool" where
  "string_answer res r \<longleftrightarrow> r \<noteq> None \<and> first_cell res = r"

definition status_answer :: "drv_result \<Rightarrow> int \<Rightarrow> bool" where
  "status_answer res r \<longleftrightarrow> r = 0 \<and> (\<forall>s e. res \<noteq> DrvError s e)"

named_theorems wrapper_reports

lemma drv_exec_params_cases:
  obtains (failed) s e where "drv_exec_params srv sql vs m = (None, set_error_from_result s e (m\<lparr>conn_history := conn_history m @ [(sql, vs)]\<rparr>))"
  | (ok) r where "drv_exec_params srv sql vs m = (Some r, m\<lparr>conn_history := conn_history m @ [(sql, vs)]\<rparr>)"
      "srv (conn_history m @ [(sql, vs)]) = r" "\<forall>s e. r \<noteq> DrvError s e"
  by (cases "srv (conn_history m @ [(sql, vs)])") (simp_all add: drv_exec_params_def Let_def)

lemma set_error_from_result_simps [simp]:
  "last_code (set_error_from_result s e m) \<noteq> MALUDB_OK" "conn_history (set_error_from_result s e m) = conn_history m"
  by (simp_all add: set_error_from_result_def sqlstate_never_ok)

lemma reports_I:
  assumes "\<And>m r m'. f m = (r, m') \<Longrightarrow> last_code m' = MALUDB_OK \<Longrightarrow>
      \<exists>st. conn_history m' = conn_history m @ [st] \<and> good (srv (conn_history m')) r"
    and "\<And>m r m'. f m = (r, m') \<Longrightarrow> last_code m' \<noteq> MALUDB_OK \<Longrightarrow>
      r = bad \<and> (\<exists>sent. conn_history m' = conn_history m @ sent \<and> length sent \<le> 1)"
  shows "reports srv good bad f"
  using assms by (simp add: reports_def split: prod.split)

text \<open>The outcomes of the three finishing calls.\<close>

lemma exec_scalar_int64_outcome:
  assumes "exec_scalar_int64 srv sql vs m = (r, m')"
  shows "conn_history m' = conn_history m @ [(sql, vs)] \<and>
    (if last_code m' = MALUDB_OK then id_answer (srv (conn_history m')) r else r = - 1)"
  using assms
  by (cases rule: drv_exec_params_cases [of srv sql vs m])
    (auto simp: exec_scalar_int64_def scalar_int64_def id_answer_def split: option.splits)

lemma exec_scalar_string_outcome:
  assumes "exec_scalar_string srv em sql vs m = (r, m')"
  shows "conn_history m' = conn_history m @ [(sql, vs)] \<and>
    (if last_code m' = MALUDB_OK then string_answer (srv (conn_history m')) r else r = None)"
  using assms
  by (cases rule: drv_exec_params_cases [of srv sql vs m])
    (auto simp: exec_scalar_string_def scalar_string_def string_answer_def split: option.splits dest: sym)

lemma exec_status_outcome:
  assumes "exec_status srv sql vs m = (r, m')"
  shows "conn_history m' = conn_history m @ [(sql, vs)] \<and>
    (if last_code m' = MALUDB_OK then status_answer (srv (conn_history m')) r else r = - 1)"
  using assms
  by (cases rule: drv_exec_params_cases [of srv sql vs m]) (auto simp: exec_status_def status_answer_def)

lemma exec_scalar_int64_reports [wrapper_reports]: "reports srv id_answer (- 1) (exec_scalar_int64 srv sql vs)"
  by (rule reports_I) (auto dest!: exec_scalar_int64_outcome)

lemma exec_scalar_string_reports [wrapper_reports]:
  "reports srv string_answer None (exec_scalar_string srv em sql vs)"
  by (rule reports_I) (auto dest!: exec_scalar_string_outcome)

lemma exec_status_reports [wrapper_reports]: "reports srv status_answer (- 1) (exec_status srv sql vs)"
  by (rule reports_I) (auto dest!: exec_status_outcome)

lemma invalid_reports [wrapper_reports]:
  "reports srv good (- 1) (invalid_id msg)" "reports srv good' None (invalid_string msg)"
  by (simp_all add: reports_def invalid_id_def invalid_string_def)

lemma reports_if [wrapper_reports]:
  "reports srv good bad f \<Longrightarrow> reports srv good bad g \<Longrightarrow> reports srv good bad (if b then f else g)"
  by simp

text \<open>
  The contract of an operation that returns an id. Without a required argument nothing is sent and
  the call is refused. Otherwise one statement with the given parameters is sent; if the error code is
  clear afterwards the id is the one the server answered, else the result is -1.
\<close>

definition id_call :: "drv_server \<Rightarrow> bool \<Rightarrow> string option list \<Rightarrow> (maludb_t \<Rightarrow> int \<times> maludb_t) \<Rightarrow> bool" where
  "id_call srv required params f \<longleftrightarrow>
     (\<forall>m. case f m of (r, m') \<Rightarrow>
        (if required
         then (\<exists>sql. conn_history m' = conn_history m @ [(sql, params)]) \<and>
              (if last_code m' = MALUDB_OK then id_answer (srv (conn_history m')) r else r = - 1)
         else r = - 1 \<and> conn_history m' = conn_history m \<and> last_code m' = MALUDB_ERR_INVALID_PARAMETER))"

lemma id_call_exec: "id_call srv True vs (exec_scalar_int64 srv sql vs)"
  unfolding id_call_def by (auto dest!: exec_scalar_int64_outcome split: prod.split)

lemma id_call_guarded:
  assumes "refused \<longleftrightarrow> \<not> required"
  shows "id_call srv required vs (if refused then invalid_id msg else exec_scalar_int64 srv sql vs)"
proof (cases required)
  case True
  then show ?thesis using assms id_call_exec [of srv vs sql] by simp
next
  case False
  then show ?thesis using assms by (simp add: id_call_def invalid_id_def drv_set_error_def)
qed

end
