(* ===== verification/Driver_Api.thy ===== *)
theory Driver_Api
  imports Driver_Core
begin

text \<open>
  The operations of the C client library (src/drivers/c/src/maludb.c), each a wrapper around one SQL
  function: its parameter checks, its defaults for NULL arguments, its statement and the way it
  reports the answer. NULL strings are \<open>None\<close>. \<open>maludb_register_fact\<close> yields \<open>None\<close> when the array
  literal it builds leaves its buffer.
\<close>

definition or_default :: "string \<Rightarrow> string option \<Rightarrow> string option" where
  "or_default d s = Some (case s of Some t \<Rightarrow> t | None \<Rightarrow> d)"

section \<open>Version and search path\<close>

definition maludb_version :: "drv_server \<Rightarrow> maludb_t \<Rightarrow> string option \<times> maludb_t" where
  "maludb_version srv m =
     (if \<not> conn_ok m then (None, m)
      else exec_scalar_string srv ''version: empty result'' ''SELECT maludb_core_version()'' [] m)"

definition maludb_search_path :: "drv_server \<Rightarrow> maludb_t \<Rightarrow> string option \<times> maludb_t" where
  "maludb_search_path srv m =
     (if \<not> conn_ok m then (None, m)
      else exec_scalar_string srv ''search_path: empty result'' ''SHOW search_path'' [] m)"

section \<open>Ingest\<close>

definition maludb_register_source_package ::
  "drv_server \<Rightarrow> string option \<Rightarrow> string option \<Rightarrow> string option \<Rightarrow> string option \<Rightarrow> maludb_t \<Rightarrow> int \<times> maludb_t" where
  "maludb_register_source_package srv source_type content_text origin_jsonb sensitivity =
     exec_scalar_int64 srv
       (''SELECT register_source_package(  p_source_type   => $1,  p_content_text  => $2,  p_origin_jsonb  => NULLIF($3,''
        @ squoted [] @ '')::jsonb,  p_sensitivity   => $4)'')
       [source_type, content_text, or_default [] origin_jsonb, or_default ''internal'' sensitivity]"

definition maludb_register_claim ::
  "drv_server \<Rightarrow> string option \<Rightarrow> string option \<Rightarrow> string option \<Rightarrow> string option \<Rightarrow> int \<Rightarrow> string option \<Rightarrow>
   maludb_t \<Rightarrow> int \<times> maludb_t" where
  "maludb_register_claim srv subject verb object_value statement_text source_package_id sensitivity =
     exec_scalar_int64 srv
       ''SELECT register_claim(  p_subject => $1, p_verb => $2,  p_object_value => $3, p_statement_text => $4,  p_source_package_id => $5::bigint,  p_sensitivity => $6)''
       [subject, verb, object_value, statement_text,
        if 0 < source_package_id then Some (fmt_d source_package_id) else None, or_default ''internal'' sensitivity]"

definition maludb_register_fact ::
  "drv_server \<Rightarrow> int list \<Rightarrow> string option \<Rightarrow> string option \<Rightarrow> string option \<Rightarrow> string option \<Rightarrow> string option \<Rightarrow>
   string option \<Rightarrow> maludb_t \<Rightarrow> (int \<times> maludb_t) option" where
  "maludb_register_fact srv claim_ids subject verb object_value statement_text verification_method sensitivity m =
     (case int64_array_literal claim_ids of
        None \<Rightarrow> None
      | Some arr \<Rightarrow>
          Some (exec_scalar_int64 srv
            ''SELECT register_fact(  p_claim_ids => $1::bigint[],  p_subject => $2, p_verb => $3,  p_object_value => $4, p_statement_text => $5,  p_verification_method => $6,  p_sensitivity => $7)''
            [Some arr, subject, verb, object_value, statement_text, verification_method,
             or_default ''internal'' sensitivity] m))"

definition maludb_register_memory ::
  "drv_server \<Rightarrow> string option \<Rightarrow> string option \<Rightarrow> string option \<Rightarrow> string option \<Rightarrow> string option \<Rightarrow>
   maludb_t \<Rightarrow> int \<times> maludb_t" where
  "maludb_register_memory srv memory_kind title summary payload_jsonb sensitivity =
     exec_scalar_int64 srv
       ''SELECT register_memory(  p_memory_kind => $1, p_title => $2, p_summary => $3,  p_payload_jsonb => $4::jsonb,  p_sensitivity => $5)''
       [memory_kind, title, summary, or_default ''{}'' payload_jsonb, or_default ''internal'' sensitivity]"

definition maludb_register_episode ::
  "drv_server \<Rightarrow> string option \<Rightarrow> string option \<Rightarrow> string option \<Rightarrow> string option \<Rightarrow> string option \<Rightarrow>
   maludb_t \<Rightarrow> int \<times> maludb_t" where
  "maludb_register_episode srv episode_kind title summary payload_jsonb sensitivity =
     exec_scalar_int64 srv
       ''SELECT register_episode(  p_episode_kind => $1, p_title => $2, p_summary => $3,  p_payload_jsonb => $4::jsonb,  p_sensitivity => $5)''
       [episode_kind, title, summary, or_default ''{}'' payload_jsonb, or_default ''internal'' sensitivity]"

section \<open>Retrieval\<close>

record maludb_source_hit_t =
  sh_object_type :: string
  sh_object_id :: int
  sh_title_or_subject :: "string option"
  sh_snippet :: "string option"
  sh_rank :: f64

record maludb_retrieval_hit_t =
  rh_object_type :: string
  rh_object_id :: int
  rh_title :: "string option"
  rh_snippet :: "string option"
  rh_rank :: f64
  rh_strategy :: string
  rh_metadata_jsonb :: "string option"

definition result_rows :: "drv_result \<Rightarrow> string option list list" where
  "result_rows r = (case r of DrvTuples rows \<Rightarrow> rows | _ \<Rightarrow> [])"

definition source_hit :: "string option list \<Rightarrow> maludb_source_hit_t" where
  "source_hit row =
     \<lparr>sh_object_type = pq_getvalue row 0, sh_object_id = strtoll10 (pq_getvalue row 1), sh_title_or_subject = pg_strdup_or_null row 2,
      sh_snippet = pg_strdup_or_null row 3, sh_rank = fst (strtod (pq_getvalue row 4))\<rparr>"

definition retrieval_hit :: "string option list \<Rightarrow> maludb_retrieval_hit_t" where
  "retrieval_hit row =
     \<lparr>rh_object_type = pq_getvalue row 0, rh_object_id = strtoll10 (pq_getvalue row 1), rh_title = pg_strdup_or_null row 2,
      rh_snippet = pg_strdup_or_null row 3, rh_rank = fst (strtod (pq_getvalue row 4)), rh_strategy = pq_getvalue row 5,
      rh_metadata_jsonb = pg_strdup_or_null row 6\<rparr>"

text \<open>The hits of a search that succeeded; \<open>None\<close> is the status -1. The literal always fits its buffer.\<close>

definition maludb_text_search ::
  "drv_server \<Rightarrow> string option \<Rightarrow> string list option \<Rightarrow> int \<Rightarrow> maludb_t \<Rightarrow> maludb_source_hit_t list option \<times> maludb_t" where
  "maludb_text_search srv query object_types limit m =
     (case drv_exec_params srv
             ''SELECT object_type, object_id, title_or_subject, snippet,       rank::float8::text AS rank FROM text_search($1, $2::text[], $3::int)''
             [query, text_array_literal object_types, Some (fmt_d limit)] m of
        (None, m1) \<Rightarrow> (None, m1)
      | (Some r, m1) \<Rightarrow> (Some (map source_hit (result_rows r)), m1\<lparr>last_code := MALUDB_OK\<rparr>))"

definition maludb_retrieve ::
  "drv_server \<Rightarrow> string option \<Rightarrow> string list option \<Rightarrow> int \<Rightarrow> maludb_t \<Rightarrow> maludb_retrieval_hit_t list option \<times> maludb_t" where
  "maludb_retrieve srv cue_text object_types limit m =
     (case drv_exec_params srv
             ''SELECT object_type, object_id, title, snippet,       rank::float8::text AS rank, strategy, metadata::text FROM execute_retrieval(  ROW($1, $2::text[], NULL::timestamptz, NULL::timestamptz,       NULL::numeric, NULL)::maludb_core.malu$retrieval_envelope_t,  NULL, $3::int)''
             [cue_text, text_array_literal object_types, Some (fmt_d limit)] m of
        (None, m1) \<Rightarrow> (None, m1)
      | (Some r, m1) \<Rightarrow> (Some (map retrieval_hit (result_rows r)), m1\<lparr>last_code := MALUDB_OK\<rparr>))"

definition maludb_replay_episode :: "drv_server \<Rightarrow> int \<Rightarrow> string option \<Rightarrow> maludb_t \<Rightarrow> string option \<times> maludb_t" where
  "maludb_replay_episode srv episode_id mode =
     exec_scalar_string srv ''replay_episode: empty result'' ''SELECT replay_episode($1::bigint, $2)::text''
       [Some (fmt_d episode_id), or_default ''current_valid'' mode]"

section \<open>Active memory pools\<close>

definition maludb_pool_create ::
  "drv_server \<Rightarrow> string option \<Rightarrow> string option \<Rightarrow> string option \<Rightarrow> string list option \<Rightarrow> int \<Rightarrow> maludb_t \<Rightarrow> int \<times> maludb_t" where
  "maludb_pool_create srv pool_name creation_kind task_objective authorized_partitions max_member_count =
     (if pool_name = None then invalid_id ''pool_create: pool_name required''
      else exec_scalar_int64 srv
        (''SELECT create_active_memory_pool(  $1,   COALESCE($2, '' @ squoted ''sql''
         @ ''),   $3,   CASE WHEN $4::text IS NULL THEN NULL ELSE $4::text[] END,   NULL::numeric, NULL::timestamptz, NULL::timestamptz,   CASE WHEN $5::text IS NULL THEN NULL ELSE $5::integer END)'')
        [pool_name, creation_kind, task_objective,
         (if authorized_partitions = None then None else text_array_literal authorized_partitions),
         int_str_or_null max_member_count])"

definition maludb_pool_add_observation ::
  "drv_server \<Rightarrow> int \<Rightarrow> string option \<Rightarrow> f64 \<Rightarrow> string option \<Rightarrow> string option \<Rightarrow> int \<Rightarrow> maludb_t \<Rightarrow> int \<times> maludb_t" where
  "maludb_pool_add_observation srv pool_id payload_jsonb confidence provenance_jsonb access_label account_id =
     (if payload_jsonb = None then invalid_id ''pool_add_observation: payload_jsonb required''
      else exec_scalar_int64 srv
        ''SELECT pool_add_observation(  $1::bigint, $2::jsonb,   CASE WHEN $3::text IS NULL THEN NULL ELSE $3::numeric END,   CASE WHEN $4::text IS NULL THEN NULL ELSE $4::jsonb END,   $5,   CASE WHEN $6::text IS NULL THEN NULL ELSE $6::bigint END)''
        [Some (fmt_d pool_id), payload_jsonb, double_str_or_null confidence, provenance_jsonb, access_label,
         int64_or_null account_id])"

definition maludb_pool_promote_to_claim ::
  "drv_server \<Rightarrow> int \<Rightarrow> string option \<Rightarrow> string option \<Rightarrow> string option \<Rightarrow> string option \<Rightarrow> string option \<Rightarrow>
   maludb_t \<Rightarrow> int \<times> maludb_t" where
  "maludb_pool_promote_to_claim srv member_id subject verb object_value statement_text sensitivity =
     exec_scalar_int64 srv ''SELECT pool_promote_to_claim($1::bigint, $2, $3, $4, $5, $6)''
       [Some (fmt_d member_id), subject, verb, object_value, statement_text, or_default ''internal'' sensitivity]"

section \<open>Skill runtime\<close>

definition maludb_skill_register ::
  "drv_server \<Rightarrow> string option \<Rightarrow> string option \<Rightarrow> string option \<Rightarrow> string option \<Rightarrow> string option \<Rightarrow> string option \<Rightarrow>
   maludb_t \<Rightarrow> int \<times> maludb_t" where
  "maludb_skill_register srv skill_name version description packaging_kind applicability_jsonb precondition_jsonb =
     (if skill_name = None then invalid_id ''skill_register: skill_name required''
      else exec_scalar_int64 srv ''SELECT register_skill($1, $2, $3, $4, $5::jsonb, $6::jsonb)''
        [skill_name, or_default ''1.0.0'' version, description, or_default ''markdown'' packaging_kind,
         or_default ''{}'' applicability_jsonb, or_default ''[]'' precondition_jsonb])"

definition maludb_skill_add_state ::
  "drv_server \<Rightarrow> int \<Rightarrow> string option \<Rightarrow> string option \<Rightarrow> string option \<Rightarrow> string option \<Rightarrow> maludb_t \<Rightarrow> int \<times> maludb_t" where
  "maludb_skill_add_state srv skill_id state_name state_kind step_jsonb validation_jsonb =
     (if state_name = None \<or> state_kind = None then invalid_id ''skill_add_state: name + kind required''
      else exec_scalar_int64 srv
        ''SELECT add_skill_state(  $1::bigint, $2, $3,   CASE WHEN $4::text IS NULL THEN NULL ELSE $4::jsonb END,   CASE WHEN $5::text IS NULL THEN NULL ELSE $5::jsonb END)''
        [Some (fmt_d skill_id), state_name, state_kind, step_jsonb, validation_jsonb])"

definition maludb_skill_add_transition ::
  "drv_server \<Rightarrow> int \<Rightarrow> string option \<Rightarrow> string option \<Rightarrow> string option \<Rightarrow> string option \<Rightarrow> int \<Rightarrow> maludb_t \<Rightarrow> int \<times> maludb_t" where
  "maludb_skill_add_transition srv skill_id from_state to_state on_outcome guard_jsonb ordinal =
     (if from_state = None \<or> to_state = None \<or> on_outcome = None
      then invalid_id ''skill_add_transition: from/to/on_outcome required''
      else exec_scalar_int64 srv
        ''SELECT add_skill_transition(  $1::bigint, $2, $3, $4,   CASE WHEN $5::text IS NULL THEN NULL ELSE $5::jsonb END,   $6::integer)''
        [Some (fmt_d skill_id), from_state, to_state, on_outcome, guard_jsonb, Some (fmt_d ordinal)])"

definition maludb_skill_begin_execution ::
  "drv_server \<Rightarrow> int \<Rightarrow> string option \<Rightarrow> string list option \<Rightarrow> string option \<Rightarrow> int \<Rightarrow> int \<Rightarrow> maludb_t \<Rightarrow> int \<times> maludb_t" where
  "maludb_skill_begin_execution srv skill_id environment technology_stack task_objective account_id active_pool_id =
     exec_scalar_int64 srv
       ''SELECT begin_skill_execution(  $1::bigint, $2,   CASE WHEN $3::text IS NULL THEN NULL ELSE $3::text[] END,   $4, NULL::text[],   CASE WHEN $5::text IS NULL THEN NULL ELSE $5::bigint END,   CASE WHEN $6::text IS NULL THEN NULL ELSE $6::bigint END,   NULL::bigint)''
       [Some (fmt_d skill_id), environment,
        (if technology_stack = None then None else text_array_literal technology_stack), task_objective,
        int64_or_null account_id, int64_or_null active_pool_id]"

definition maludb_skill_step_execution ::
  "drv_server \<Rightarrow> int \<Rightarrow> string option \<Rightarrow> string option \<Rightarrow> maludb_t \<Rightarrow> string option \<times> maludb_t" where
  "maludb_skill_step_execution srv execution_id outcome observation_jsonb =
     (if outcome = None then invalid_string ''skill_step_execution: outcome required''
      else exec_scalar_string srv ''step_skill_execution: empty result''
        ''SELECT step_skill_execution(  $1::bigint, $2,   CASE WHEN $3::text IS NULL THEN NULL ELSE $3::jsonb END)''
        [Some (fmt_d execution_id), outcome, observation_jsonb])"

definition maludb_skill_abort_execution :: "drv_server \<Rightarrow> int \<Rightarrow> string option \<Rightarrow> maludb_t \<Rightarrow> int \<times> maludb_t" where
  "maludb_skill_abort_execution srv execution_id reason =
     exec_status srv ''SELECT abort_skill_execution($1::bigint, $2)'' [Some (fmt_d execution_id), reason]"

section \<open>Local memory nodes\<close>

definition maludb_node_register ::
  "drv_server \<Rightarrow> string option \<Rightarrow> string option \<Rightarrow> string option \<Rightarrow> string option \<Rightarrow> maludb_t \<Rightarrow> int \<times> maludb_t" where
  "maludb_node_register srv node_name fingerprint uri description =
     (if node_name = None \<or> fingerprint = None then invalid_id ''node_register: node_name + fingerprint required''
      else exec_scalar_int64 srv ''SELECT register_local_node($1, $2, $3, $4)'' [node_name, fingerprint, uri, description])"

definition maludb_node_submit ::
  "drv_server \<Rightarrow> int \<Rightarrow> string option \<Rightarrow> string option \<Rightarrow> int \<Rightarrow> string option \<Rightarrow> maludb_t \<Rightarrow> int \<times> maludb_t" where
  "maludb_node_submit srv node_id submission_kind payload_jsonb local_id local_hash =
     (if submission_kind = None \<or> payload_jsonb = None then invalid_id ''node_submit: kind + payload required''
      else exec_scalar_int64 srv
        ''SELECT node_submit(  $1::bigint, $2, $3::jsonb,   CASE WHEN $4::text IS NULL THEN NULL ELSE $4::bigint END,   $5)''
        [Some (fmt_d node_id), submission_kind, payload_jsonb, int64_or_null local_id, local_hash])"

definition maludb_node_accept :: "drv_server \<Rightarrow> int \<Rightarrow> string option \<Rightarrow> maludb_t \<Rightarrow> string option \<times> maludb_t" where
  "maludb_node_accept srv submission_id reason =
     exec_scalar_string srv ''node_accept: empty result'' ''SELECT node_accept($1::bigint, $2)::text''
       [Some (fmt_d submission_id), reason]"

definition maludb_node_reject :: "drv_server \<Rightarrow> int \<Rightarrow> string option \<Rightarrow> maludb_t \<Rightarrow> int \<times> maludb_t" where
  "maludb_node_reject srv submission_id reason =
     (if reason = None then invalid_id ''node_reject: reason required''
      else exec_status srv ''SELECT node_reject($1::bigint, $2)'' [Some (fmt_d submission_id), reason])"

section \<open>Page and chat indexes\<close>

definition maludb_pageindex_build ::
  "drv_server \<Rightarrow> int \<Rightarrow> string option \<Rightarrow> int \<Rightarrow> int \<Rightarrow> string option \<Rightarrow> maludb_t \<Rightarrow> int \<times> maludb_t" where
  "maludb_pageindex_build srv source_package_id parser_kind model_alias_id prompt_template_id builder_options_jsonb =
     (if source_package_id \<le> 0 \<or> parser_kind = None
      then invalid_id ''pageindex_build: source_package_id and parser_kind required''
      else exec_scalar_int64 srv
        ''SELECT source_package_promote_to_page_index(  $1::bigint, $2,   CASE WHEN $3::text IS NULL THEN NULL ELSE $3::bigint END,   CASE WHEN $4::text IS NULL THEN NULL ELSE $4::bigint END,   $5::jsonb)''
        [Some (fmt_d source_package_id), parser_kind, int64_str_or_null model_alias_id,
         int64_str_or_null prompt_template_id, or_default ''{}'' builder_options_jsonb])"

definition maludb_pageindex_supersede :: "drv_server \<Rightarrow> int \<Rightarrow> int \<Rightarrow> maludb_t \<Rightarrow> int \<times> maludb_t" where
  "maludb_pageindex_supersede srv prior_tree_id new_tree_id =
     (if prior_tree_id \<le> 0 \<or> new_tree_id \<le> 0 then invalid_id ''pageindex_supersede: both tree ids required''
      else exec_scalar_int64 srv ''SELECT page_index_tree_supersede($1::bigint, $2::bigint)''
        [Some (fmt_d prior_tree_id), Some (fmt_d new_tree_id)])"

definition ask_limit :: "int \<Rightarrow> string option" where
  "ask_limit limit = Some (fmt_d (if 0 < limit then limit else 1))"

definition maludb_pageindex_ask ::
  "drv_server \<Rightarrow> string option \<Rightarrow> int \<Rightarrow> string option \<Rightarrow> int \<Rightarrow> maludb_t \<Rightarrow> string option \<times> maludb_t" where
  "maludb_pageindex_ask srv cue_text tree_id descent_options_jsonb limit =
     (if cue_text = None \<or> tree_id \<le> 0 then invalid_string ''pageindex_ask: cue_text and tree_id required''
      else exec_scalar_string srv ''pageindex_ask: empty result''
        ''SELECT row_to_json(t)::text FROM   retrieve_with_envelope_tree($1, $2::bigint, $3::jsonb, $4::integer) t''
        [cue_text, Some (fmt_d tree_id), or_default ''{}'' descent_options_jsonb, ask_limit limit])"

definition maludb_chatindex_build ::
  "drv_server \<Rightarrow> int \<Rightarrow> int \<Rightarrow> int \<Rightarrow> int \<Rightarrow> string option \<Rightarrow> maludb_t \<Rightarrow> int \<times> maludb_t" where
  "maludb_chatindex_build srv source_package_id model_alias_id prompt_template_id max_children builder_options_jsonb =
     (if source_package_id \<le> 0 then invalid_id ''chatindex_build: source_package_id required''
      else exec_scalar_int64 srv
        ''SELECT source_package_promote_to_chat_index(  $1::bigint,   CASE WHEN $2::text IS NULL THEN NULL ELSE $2::bigint END,   CASE WHEN $3::text IS NULL THEN NULL ELSE $3::bigint END,   $4::integer, $5::jsonb)''
        [Some (fmt_d source_package_id), int64_str_or_null model_alias_id, int64_str_or_null prompt_template_id,
         Some (fmt_d (if 0 < max_children then max_children else 10)), or_default ''{}'' builder_options_jsonb])"

definition maludb_chatindex_append :: "drv_server \<Rightarrow> int \<Rightarrow> string option \<Rightarrow> maludb_t \<Rightarrow> int \<times> maludb_t" where
  "maludb_chatindex_append srv tree_id messages_jsonb =
     (if tree_id \<le> 0 \<or> messages_jsonb = None
      then invalid_id ''chatindex_append: tree_id and messages_jsonb required''
      else exec_status srv ''SELECT count(*) FROM chat_index_append_messages($1::bigint, $2::jsonb)''
        [Some (fmt_d tree_id), messages_jsonb])"

definition maludb_chatindex_ask ::
  "drv_server \<Rightarrow> string option \<Rightarrow> int \<Rightarrow> string option \<Rightarrow> int \<Rightarrow> maludb_t \<Rightarrow> string option \<times> maludb_t" where
  "maludb_chatindex_ask srv cue_text chat_tree_id descent_options_jsonb limit =
     (if cue_text = None \<or> chat_tree_id \<le> 0 then invalid_string ''chatindex_ask: cue_text and chat_tree_id required''
      else exec_scalar_string srv ''chatindex_ask: empty result''
        ''SELECT row_to_json(t)::text FROM   retrieve_with_envelope_chat_tree($1, $2::bigint, $3::jsonb, $4::integer) t''
        [cue_text, Some (fmt_d chat_tree_id), or_default ''{}'' descent_options_jsonb, ask_limit limit])"

section \<open>The error model\<close>

lemmas guarded_wrappers =
  maludb_pool_create_def maludb_pool_add_observation_def maludb_skill_register_def maludb_skill_add_state_def
  maludb_skill_add_transition_def maludb_node_register_def maludb_node_submit_def maludb_pageindex_build_def
  maludb_pageindex_supersede_def maludb_chatindex_build_def

lemmas plain_wrappers =
  maludb_register_source_package_def maludb_register_claim_def maludb_register_memory_def maludb_register_episode_def
  maludb_pool_promote_to_claim_def maludb_skill_begin_execution_def

lemmas string_wrappers =
  maludb_replay_episode_def maludb_skill_step_execution_def maludb_node_accept_def maludb_pageindex_ask_def
  maludb_chatindex_ask_def

lemmas status_wrappers =
  maludb_skill_abort_execution_def maludb_node_reject_def maludb_chatindex_append_def

lemma register_fact_call:
  assumes "\<forall>i \<in> set ids. - (2 ^ 63) \<le> i \<and> i < 2 ^ 63" and "ids \<noteq> []"
  shows "\<exists>f. (\<forall>m. maludb_register_fact srv ids a b c d e g m = Some (f m)) \<and>
    id_call srv True [Some (braced (map fmt_d ids)), a, b, c, d, e, or_default ''internal'' g] f"
  unfolding maludb_register_fact_def int64_array_literal_value [OF assms] option.case
  by (rule exI, rule conjI, rule allI, rule refl, rule id_call_exec)

text \<open>
  C39. The operations of the client library that return an id send what they are given and report
  honestly. Each sends one statement whose parameters are its arguments in order, with the documented
  defaults and NULLs; when a required argument is missing it sends nothing, returns -1 and sets
  the code of an invalid parameter. If the error code is clear afterwards, the id is the one the server
  returned for that statement; if it is set, the result is -1. This holds for a fact of one or more
  64-bit claim ids, whose first parameter is the array of these ids.
\<close>

theorem driver_ids_reported:
  "id_call srv True [a1, a2, or_default [] a3, or_default ''internal'' a4] (maludb_register_source_package srv a1 a2 a3 a4) \<and>
   id_call srv True [b1, b2, b3, b4, if 0 < b5 then Some (fmt_d b5) else None, or_default ''internal'' b6]
     (maludb_register_claim srv b1 b2 b3 b4 b5 b6) \<and>
   (ids \<noteq> [] \<and> (\<forall>i \<in> set ids. - (2 ^ 63) \<le> i \<and> i < 2 ^ 63) \<longrightarrow>
     (\<exists>f. (\<forall>m. maludb_register_fact srv ids q1 q2 q3 q4 q5 q6 m = Some (f m)) \<and>
        id_call srv True [Some (braced (map fmt_d ids)), q1, q2, q3, q4, q5, or_default ''internal'' q6] f)) \<and>
   id_call srv True [c1, c2, c3, or_default ''{}'' c4, or_default ''internal'' c5] (maludb_register_memory srv c1 c2 c3 c4 c5) \<and>
   id_call srv True [d1, d2, d3, or_default ''{}'' d4, or_default ''internal'' d5] (maludb_register_episode srv d1 d2 d3 d4 d5) \<and>
   id_call srv (e1 \<noteq> None)
     [e1, e2, e3, (if e4 = None then None else text_array_literal e4), int_str_or_null e5] (maludb_pool_create srv e1 e2 e3 e4 e5) \<and>
   id_call srv (f2 \<noteq> None) [Some (fmt_d f1), f2, double_str_or_null f3, f4, f5, int64_or_null f6]
     (maludb_pool_add_observation srv f1 f2 f3 f4 f5 f6) \<and>
   id_call srv True [Some (fmt_d g1), g2, g3, g4, g5, or_default ''internal'' g6]
     (maludb_pool_promote_to_claim srv g1 g2 g3 g4 g5 g6) \<and>
   id_call srv (h1 \<noteq> None) [h1, or_default ''1.0.0'' h2, h3, or_default ''markdown'' h4, or_default ''{}'' h5, or_default ''[]'' h6]
     (maludb_skill_register srv h1 h2 h3 h4 h5 h6) \<and>
   id_call srv (i2 \<noteq> None \<and> i3 \<noteq> None) [Some (fmt_d i1), i2, i3, i4, i5] (maludb_skill_add_state srv i1 i2 i3 i4 i5) \<and>
   id_call srv (j2 \<noteq> None \<and> j3 \<noteq> None \<and> j4 \<noteq> None) [Some (fmt_d j1), j2, j3, j4, j5, Some (fmt_d j6)]
     (maludb_skill_add_transition srv j1 j2 j3 j4 j5 j6) \<and>
   id_call srv True [Some (fmt_d k1), k2, (if k3 = None then None else text_array_literal k3), k4, int64_or_null k5, int64_or_null k6]
     (maludb_skill_begin_execution srv k1 k2 k3 k4 k5 k6) \<and>
   id_call srv (l1 \<noteq> None \<and> l2 \<noteq> None) [l1, l2, l3, l4] (maludb_node_register srv l1 l2 l3 l4) \<and>
   id_call srv (m2 \<noteq> None \<and> m3 \<noteq> None) [Some (fmt_d m1), m2, m3, int64_or_null m4, m5] (maludb_node_submit srv m1 m2 m3 m4 m5) \<and>
   id_call srv (0 < n1 \<and> n2 \<noteq> None) [Some (fmt_d n1), n2, int64_str_or_null n3, int64_str_or_null n4, or_default ''{}'' n5]
     (maludb_pageindex_build srv n1 n2 n3 n4 n5) \<and>
   id_call srv (0 < o1 \<and> 0 < o2) [Some (fmt_d o1), Some (fmt_d o2)] (maludb_pageindex_supersede srv o1 o2) \<and>
   id_call srv (0 < p1) [Some (fmt_d p1), int64_str_or_null p2, int64_str_or_null p3, Some (fmt_d (if 0 < p4 then p4 else 10)),
      or_default ''{}'' p5] (maludb_chatindex_build srv p1 p2 p3 p4 p5)"
  unfolding guarded_wrappers plain_wrappers
  by (intro conjI impI register_fact_call id_call_exec id_call_guarded) auto

text \<open>A server that answers every statement with the id 7; a fact on the claims -12 and 7.\<close>

definition sample_drv_server :: drv_server where
  "sample_drv_server h = DrvTuples [[Some ''7'']]"

theorem driver_ids_reported_witness:
  "(\<exists>f. (\<forall>m. maludb_register_fact sample_drv_server [- 12, 7] None None None None None None m = Some (f m)) \<and>
     id_call sample_drv_server True
       [Some (braced (map fmt_d [- 12, 7])), None, None, None, None, None, or_default ''internal'' None] f)"
proof -
  have "[- 12, 7] \<noteq> ([] :: int list) \<and> (\<forall>i \<in> set [- 12, 7]. - (2 ^ 63) \<le> i \<and> i < (2 :: int) ^ 63)" by simp
  then show ?thesis
    by (rule driver_ids_reported [of sample_drv_server, THEN conjunct2, THEN conjunct2, THEN conjunct1, THEN mp])
qed

text \<open>The same for the operations that return a string or a status.\<close>

lemma driver_strings_reported:
  "reports srv string_answer None (maludb_replay_episode srv a1 a2)"
  "reports srv string_answer None (maludb_skill_step_execution srv b1 b2 b3)"
  "reports srv string_answer None (maludb_node_accept srv c1 c2)"
  "reports srv string_answer None (maludb_pageindex_ask srv d1 d2 d3 d4)"
  "reports srv string_answer None (maludb_chatindex_ask srv e1 e2 e3 e4)"
  unfolding string_wrappers by (intro wrapper_reports)+

lemma driver_status_reported:
  "reports srv status_answer (- 1) (maludb_skill_abort_execution srv a1 a2)"
  "reports srv status_answer (- 1) (maludb_node_reject srv b1 b2)"
  "reports srv status_answer (- 1) (maludb_chatindex_append srv c1 c2)"
  unfolding status_wrappers by (intro wrapper_reports)+

text \<open>
  On a connection that is not open the version and search path return NULL and leave the error code
  of the previous operation as it was, even when that is success.
\<close>

lemma version_silent_failure: "\<not> conn_ok m \<Longrightarrow> maludb_version srv m = (None, m)"
  by (simp add: maludb_version_def)

text \<open>A fact without claims makes the literal leave its buffer.\<close>

lemma register_fact_no_claims: "maludb_register_fact srv [] s v obj t method sens m = None"
  by (simp add: maludb_register_fact_def int64_array_literal_nil)

end
