(* ===== verification/Driver_Example.thy ===== *)
theory Driver_Example
  imports Driver_Api Db_Access
begin

text \<open>
  The client program src/drivers/c/examples/01-ingest-to-replay.c: it connects, registers a source
  package, two claims on it, a fact that rests on the claims and an episode, searches, retrieves and
  replays the episode. Each step feeds the ids the server answered into the later ones. The
  environment variable, the connection and \<open>rand\<close> are arguments; the output is the list of what the
  calls of \<open>printf\<close> write.
\<close>

section \<open>The program\<close>

definition hex_08x :: "32 word \<Rightarrow> string" where
  "hex_08x r = map (\<lambda>i. hex_digit (unat r div 16 ^ i)) [7, 6, 5, 4, 3, 2, 1, 0]"

definition pad_right :: "nat \<Rightarrow> string \<Rightarrow> string" where
  "pad_right k s = s @ replicate (k - length s) CHR '' ''"

text \<open>The texts of a run; \<open>run\<close> is the run id.\<close>

definition example_subject :: "string \<Rightarrow> string" where
  "example_subject run = snprintf_trunc 64 (''api_gateway_'' @ run)"

definition example_text :: "string \<Rightarrow> string \<Rightarrow> string" where
  "example_text run what = snprintf_trunc 160 (''c-example-01 ['' @ run @ '']: '' @ what)"

definition example_origin :: "string \<Rightarrow> string" where
  "example_origin run =
     snprintf_trunc 160 (''{'' @ dq @ ''uri'' @ dq @ '':'' @ dq @ ''log://oncall/c-example-01/'' @ run @ dq @ ''}'')"

definition example_title :: "string \<Rightarrow> string" where
  "example_title run = snprintf_trunc 64 (''c-example-01-outage-'' @ run)"

definition example_payload :: "string \<Rightarrow> string" where
  "example_payload subject =
     snprintf_trunc 160 (''{'' @ dq @ ''subject_class'' @ dq @ '':'' @ dq @ subject @ dq @ '','' @ dq @ ''environment'' @ dq
       @ '':'' @ dq @ ''prod'' @ dq @ ''}'')"

text \<open>The lines the program prints.\<close>

definition connected_lines :: "string \<Rightarrow> string option \<Rightarrow> string \<Rightarrow> string \<Rightarrow> string list" where
  "connected_lines dsn v run subject =
     [''connected to '' @ dsn @ '' '' @ [CHR 0xE2, CHR 0x80, CHR 0x94] @ '' maludb_core ''
        @ (case v of Some t \<Rightarrow> t | None \<Rightarrow> ''?'') @ nl,
      ''run-id = '' @ run @ '', subject = '' @ subject @ nl]"

definition id_line :: "string \<Rightarrow> int \<Rightarrow> string" where
  "id_line name i = ''  '' @ name @ '' = '' @ fmt_d i @ nl"

definition hit_line :: "maludb_source_hit_t \<Rightarrow> string" where
  "hit_line hit = ''  '' @ pad_right 14 (sh_object_type hit) @ '' id='' @ pad_left 5 CHR '' '' (fmt_d (sh_object_id hit))
     @ ''  rank='' @ fmt_fixed 4 (sh_rank hit) @ nl"

definition retrieval_line :: "maludb_retrieval_hit_t \<Rightarrow> string" where
  "retrieval_line hit = ''  '' @ pad_right 14 (rh_object_type hit) @ '' id='' @ pad_left 5 CHR '' '' (fmt_d (rh_object_id hit))
     @ ''  strategy='' @ rh_strategy hit @ nl"

definition lines_of :: "('a \<Rightarrow> string) \<Rightarrow> 'a list option \<Rightarrow> string list" where
  "lines_of f hits = (case hits of Some hs \<Rightarrow> map f hs | None \<Rightarrow> [])"

definition replay_line :: "string option \<Rightarrow> maludb_t \<Rightarrow> string" where
  "replay_line envelope m =
     (case envelope of
        Some e \<Rightarrow> ''  envelope length = '' @ fmt_nat (length e) @ '' bytes (JSON)'' @ nl
      | None \<Rightarrow> ''  replay returned NULL (err: '' @ maludb_last_error_message (Some m) @ '')'' @ nl)"

definition title_line :: "string \<Rightarrow> string \<Rightarrow> string" where
  "title_line f subject = nl @ ''=== '' @ f @ ''('' @ squoted subject @ '') ==='' @ nl"

record example_run =
  ex_status :: nat
  ex_stdout :: "string list"
  ex_stderr :: "string list"
  ex_handle :: maludb_t

text \<open>\<open>None\<close> would be a write behind the buffer of the array literal.\<close>

definition example_session ::
  "drv_server \<Rightarrow> string \<Rightarrow> string \<Rightarrow> maludb_t \<Rightarrow> example_run option" where
  "example_session srv dsn run m0 =
     (let subject = example_subject run in
      case maludb_version srv m0 of (v, m1) \<Rightarrow>
      case maludb_register_source_package srv (Some ''log'')
             (Some (example_text run ''14:22Z api-gateway 5xx burst'')) (Some (example_origin run)) None m1 of (sp, m2) \<Rightarrow>
      case maludb_register_claim srv (Some subject) (Some ''observed'') (Some ''5xx_burst'')
             (Some (example_text run ''initial 5xx surge at 14:22Z'')) sp None m2 of (c1, m3) \<Rightarrow>
      case maludb_register_claim srv (Some subject) (Some ''timed_out'') (Some ''health_probe'')
             (Some (example_text run ''health probe exceeded 2s'')) sp None m3 of (c2, m4) \<Rightarrow>
      case maludb_register_fact srv [c1, c2] (Some subject) (Some ''incident'') (Some ''latency_breach'')
             (Some (example_text run ''latency SLO breach'')) (Some ''oncall_review'') None m4 of
        None \<Rightarrow> None
      | Some (f1, m5) \<Rightarrow>
      case maludb_register_episode srv (Some ''incident'') (Some (example_title run)) (Some ''Driver example outage'')
             (Some (example_payload subject)) None m5 of (ep, m6) \<Rightarrow>
      case maludb_text_search srv (Some subject) None 5 m6 of (hits, m7) \<Rightarrow>
      case maludb_retrieve srv (Some subject) None 5 m7 of (rhits, m8) \<Rightarrow>
      case maludb_replay_episode srv ep (Some ''current_valid'') m8 of (envelope, m9) \<Rightarrow>
        Some \<lparr>ex_status = 0,
          ex_stdout = connected_lines dsn v run subject
            @ [id_line ''source_package_id'' sp, ''  claim_ids = '' @ fmt_d c1 @ '', '' @ fmt_d c2 @ nl,
               id_line ''fact_id'' f1, id_line ''episode_id'' ep]
            @ [title_line ''text_search'' subject] @ lines_of hit_line hits
            @ [title_line ''retrieve'' subject] @ lines_of retrieval_line rhits
            @ [nl @ ''=== replay_episode ==='' @ nl, replay_line envelope m9],
          ex_stderr = [], ex_handle = m9\<rparr>)"

definition example_main ::
  "drv_server \<Rightarrow> (string \<Rightarrow> string option) \<Rightarrow> (string \<Rightarrow> string option) \<Rightarrow> string option \<Rightarrow> 32 word \<Rightarrow> example_run option" where
  "example_main srv escape connect dsn_env random =
     (let dsn = (case dsn_env of Some d \<Rightarrow> d | None \<Rightarrow> ''postgresql:///mydb'');
          m = maludb_connect srv escape (connect dsn)
      in if maludb_last_error_code (Some m) \<noteq> MALUDB_OK
         then Some \<lparr>ex_status = 1, ex_stdout = [],
                ex_stderr = [''connect failed: '' @ maludb_last_error_message (Some m) @ nl], ex_handle = m\<rparr>
         else example_session srv dsn (hex_08x random) m)"

section \<open>The ids are threaded through the session\<close>

text \<open>The id a wrapper returns for the last statement of a history.\<close>

definition answered_id :: "drv_server \<Rightarrow> stmt list \<Rightarrow> int" where
  "answered_id srv h = (case first_cell (srv h) of Some v \<Rightarrow> strtoll10 v | None \<Rightarrow> - 1)"

lemma strtoll10_range: "- (2 ^ 63) \<le> strtoll10 s \<and> strtoll10 s < 2 ^ 63"
  by (simp add: strtoll10_def Let_def)

lemma answered_id_range: "- (2 ^ 63) \<le> answered_id srv h \<and> answered_id srv h < 2 ^ 63"
  using strtoll10_range by (auto simp: answered_id_def split: option.splits)

lemma exec_scalar_int64_sends:
  "fst (exec_scalar_int64 srv sql vs m) = answered_id srv (conn_history m @ [(sql, vs)])"
  "conn_history (snd (exec_scalar_int64 srv sql vs m)) = conn_history m @ [(sql, vs)]"
proof -
  let ?h = "conn_history m @ [(sql, vs)]"
  show "conn_history (snd (exec_scalar_int64 srv sql vs m)) = ?h"
    by (cases "exec_scalar_int64 srv sql vs m") (use exec_scalar_int64_outcome in auto)
  show "fst (exec_scalar_int64 srv sql vs m) = answered_id srv ?h"
    by (cases "srv ?h")
      (simp_all add: exec_scalar_int64_def drv_exec_params_def scalar_int64_def answered_id_def first_cell_def
        split: option.split)
qed

lemma exec_scalar_string_sends:
  "conn_history (snd (exec_scalar_string srv em sql vs m)) = conn_history m @ [(sql, vs)]"
  by (cases "exec_scalar_string srv em sql vs m") (use exec_scalar_string_outcome in auto)

text \<open>The statement each step sends, whatever its text.\<close>

lemma ingest_sends:
  "\<exists>sql. \<forall>a b c d. maludb_register_source_package srv a b c d =
     exec_scalar_int64 srv sql [a, b, or_default [] c, or_default ''internal'' d]"
  "\<exists>sql. \<forall>a b c d i e. maludb_register_claim srv a b c d i e =
     exec_scalar_int64 srv sql [a, b, c, d, if 0 < i then Some (fmt_d i) else None, or_default ''internal'' e]"
  "\<exists>sql. \<forall>a b c d e. maludb_register_episode srv a b c d e =
     exec_scalar_int64 srv sql [a, b, c, or_default ''{}'' d, or_default ''internal'' e]"
  unfolding maludb_register_source_package_def maludb_register_claim_def maludb_register_episode_def
  by (blast intro: exI)+

lemma register_fact_sends:
  "\<exists>sql. \<forall>ids a b c d e f m. (\<forall>i \<in> set ids. - (2 ^ 63) \<le> i \<and> i < 2 ^ 63) \<longrightarrow> ids \<noteq> [] \<longrightarrow>
     maludb_register_fact srv ids a b c d e f m =
       Some (exec_scalar_int64 srv sql [Some (braced (map fmt_d ids)), a, b, c, d, e, or_default ''internal'' f] m)"
  unfolding maludb_register_fact_def 
  by (intro exI allI impI, subst int64_array_literal_value, assumption, assumption) (simp only: option.case)

lemma search_history:
  "conn_history (snd (case drv_exec_params srv sql vs m of
      (None, m1) \<Rightarrow> (None, m1) | (Some r, m1) \<Rightarrow> (Some (f r), m1\<lparr>last_code := MALUDB_OK\<rparr>))) = conn_history m @ [(sql, vs)]"
  by (cases rule: drv_exec_params_cases [of srv sql vs m]) simp_all

lemma search_sends:
  "\<exists>sql. \<forall>q t l m. conn_history (snd (maludb_text_search srv q t l m)) =
     conn_history m @ [(sql, [q, text_array_literal t, Some (fmt_d l)])]"
  "\<exists>sql. \<forall>q t l m. conn_history (snd (maludb_retrieve srv q t l m)) =
     conn_history m @ [(sql, [q, text_array_literal t, Some (fmt_d l)])]"
  unfolding maludb_text_search_def maludb_retrieve_def by (intro exI allI, rule search_history)+

lemma replay_sends:
  "\<exists>sql. \<forall>e mode m. conn_history (snd (maludb_replay_episode srv e mode m)) =
     conn_history m @ [(sql, [Some (fmt_d e), or_default ''current_valid'' mode])]"
  "\<exists>sql. \<forall>m. conn_ok m \<longrightarrow> conn_history (snd (maludb_version srv m)) = conn_history m @ [(sql, [])]"
  unfolding maludb_replay_episode_def maludb_version_def
  by (intro exI allI impI, simp only: exec_scalar_string_sends not_True_eq_False if_False)+

lemma connect_outcome:
  fixes srv escape e
  defines "m \<equiv> maludb_connect srv escape e"
  shows "length (conn_history m) \<le> 1"
    and "last_code m = MALUDB_OK \<Longrightarrow> conn_ok m \<and> (\<exists>sql. conn_history m = [(sql, [])])"
  unfolding m_def maludb_connect_def maludb_connect_schema_def set_search_path_def search_path_stmt_def Let_def
  by (auto simp: set_error_from_result_def drv_set_error_def sqlstate_never_ok split: option.splits drv_result.splits)

definition example_params :: "string \<Rightarrow> (nat \<Rightarrow> int) \<Rightarrow> string option list list" where
  "example_params run ids =
     (let subject = example_subject run;
          claim = (\<lambda>verb obj what. [Some subject, Some verb, Some obj, Some (example_text run what),
            if 0 < ids 3 then Some (fmt_d (ids 3)) else None, Some ''internal'']);
          found = [Some subject, Some ''{claim,fact,memory,episode_object}'', Some ''5'']
      in [[], [],
          [Some ''log'', Some (example_text run ''14:22Z api-gateway 5xx burst''), Some (example_origin run), Some ''internal''],
          claim ''observed'' ''5xx_burst'' ''initial 5xx surge at 14:22Z'',
          claim ''timed_out'' ''health_probe'' ''health probe exceeded 2s'',
          [Some (''{'' @ fmt_d (ids 4) @ '','' @ fmt_d (ids 5) @ ''}''), Some subject, Some ''incident'', Some ''latency_breach'',
           Some (example_text run ''latency SLO breach''), Some ''oncall_review'', Some ''internal''],
          [Some ''incident'', Some (example_title run), Some ''Driver example outage'', Some (example_payload subject),
           Some ''internal''],
          found, found, [Some (fmt_d (ids 7)), Some ''current_valid'']])"

lemma fmt_d_5: "fmt_d 5 = ''5''"
  by code_simp

lemma example_session_params:
  assumes "conn_history m = [(sql0, [])]" and "conn_ok m"
  shows "\<exists>ex. example_session srv dsn run m = Some ex \<and> ex_status ex = 0 \<and>
    map snd (conn_history (ex_handle ex)) =
      example_params run (\<lambda>n. answered_id srv (take n (conn_history (ex_handle ex))))"
proof -
  obtain q1 where v: "\<And>m. conn_ok m \<Longrightarrow> conn_history (snd (maludb_version srv m)) = conn_history m @ [(q1, [])]"
    using replay_sends(2) by blast
  obtain q2 where sp: "\<And>a b c d. maludb_register_source_package srv a b c d =
      exec_scalar_int64 srv q2 [a, b, or_default [] c, or_default ''internal'' d]" using ingest_sends(1) by blast
  obtain q3 where cl: "\<And>a b c d i e. maludb_register_claim srv a b c d i e =
      exec_scalar_int64 srv q3 [a, b, c, d, if 0 < i then Some (fmt_d i) else None, or_default ''internal'' e]"
    using ingest_sends(2) by blast
  obtain q4 where fa: "\<And>ids a b c d e f m. \<lbrakk>\<forall>i \<in> set ids. - (2 ^ 63) \<le> i \<and> i < 2 ^ 63; ids \<noteq> []\<rbrakk> \<Longrightarrow>
      maludb_register_fact srv ids a b c d e f m =
        Some (exec_scalar_int64 srv q4 [Some (braced (map fmt_d ids)), a, b, c, d, e, or_default ''internal'' f] m)"
    using register_fact_sends by blast
  obtain q5 where epi: "\<And>a b c d e. maludb_register_episode srv a b c d e =
      exec_scalar_int64 srv q5 [a, b, c, or_default ''{}'' d, or_default ''internal'' e]" using ingest_sends(3) by blast
  obtain q6 where se: "\<And>q t l m. conn_history (snd (maludb_text_search srv q t l m)) =
      conn_history m @ [(q6, [q, text_array_literal t, Some (fmt_d l)])]" using search_sends(1) by blast
  obtain q7 where re: "\<And>q t l m. conn_history (snd (maludb_retrieve srv q t l m)) =
      conn_history m @ [(q7, [q, text_array_literal t, Some (fmt_d l)])]" using search_sends(2) by blast
  obtain q8 where rp: "\<And>e mode m. conn_history (snd (maludb_replay_episode srv e mode m)) =
      conn_history m @ [(q8, [Some (fmt_d e), or_default ''current_valid'' mode])]" using replay_sends(1) by blast
  have fact: "maludb_register_fact srv [answered_id srv h, answered_id srv h'] a b c d e f m =
      Some (exec_scalar_int64 srv q4 [Some (braced (map fmt_d [answered_id srv h, answered_id srv h'])),
        a, b, c, d, e, or_default ''internal'' f] m)" for h h' a b c d e f m
    by (rule fa) (use answered_id_range in auto)
  show ?thesis
    unfolding example_session_def Let_def case_prod_beta sp cl epi exec_scalar_int64_sends fact option.case
    by (simp add: v se re rp exec_scalar_int64_sends assms example_params_def or_default_def text_array_literal_def
        braced_def Let_def fmt_d_5 cong: if_cong split del: if_split)
qed

text \<open>
  C40. The example threads its ids: when the connection and its search path are set up it sends ten
  statements, in the order of the program, and the parameters of each are those the program writes,
  with the ids the server answered to the earlier ones (both claims name the source package, the fact names both claims,
  the replay names the episode). Otherwise it sends at most one statement and exits with status 1.
\<close>

theorem example_threads_ids:
  "\<exists>ex. example_main srv escape connect dsn_env random = Some ex \<and>
     (if ex_status ex = 0
      then map snd (conn_history (ex_handle ex)) =
             example_params (hex_08x random) (\<lambda>n. answered_id srv (take n (conn_history (ex_handle ex))))
      else ex_status ex = 1 \<and> length (conn_history (ex_handle ex)) \<le> 1 \<and>
             maludb_last_error_code (Some (ex_handle ex)) \<noteq> MALUDB_OK)"
proof -
  define dsn where "dsn = (case dsn_env of Some d \<Rightarrow> d | None \<Rightarrow> ''postgresql:///mydb'')"
  define m where "m = maludb_connect srv escape (connect dsn)"
  have eq: "example_main srv escape connect dsn_env random =
      (if last_code m \<noteq> MALUDB_OK
       then Some \<lparr>ex_status = 1, ex_stdout = [],
              ex_stderr = [''connect failed: '' @ maludb_last_error_message (Some m) @ nl], ex_handle = m\<rparr>
       else example_session srv dsn (hex_08x random) m)"
    by (simp add: example_main_def maludb_last_error_code_def Let_def m_def dsn_def)
  show ?thesis
  proof (cases "last_code m = MALUDB_OK")
    case True
    then obtain sql where m: "conn_ok m" "conn_history m = [(sql, [])]" using connect_outcome(2) unfolding m_def by blast
    from example_session_params [OF m(2,1)] True show ?thesis unfolding eq by fastforce
  next
    case False
    then show ?thesis unfolding eq using connect_outcome(1) [of srv escape "connect dsn"]
      by (simp add: maludb_last_error_code_def flip: m_def)
  qed
qed

end
