(* ===== verification/Spec2Isabelle.thy ===== *)
theory Spec2Isabelle
  imports Search_Agreement Ann_Build Jwt_Auth Secret_Resolver Ingest_Sql Listener_Main Http_Interleave Driver_Example
begin

text \<open>
  \<^bold>\<open>A verification library of the C code of MaluDB Core.\<close>

  The program has three parts in C. The \<^emph>\<open>server extension\<close> (src/src) is loaded into PostgreSQL: a vector
  type and vector primitives, an exact nearest-neighbour search, the same search as a parallel
  aggregate, an approximate search over a navigable small-world graph, a JWT verifier, a resolver of
  external secrets and two functions that write claims and facts together with their ledger. The
  \<^emph>\<open>listener\<close> mc2dbd (src/mc2dbd/src) serves tools to MCP clients over HTTP: it looks a tool up in the
  database, runs it as a SQL function, an external program, a call to a remote MCP server or an HTTP
  request, and writes an audit row. The \<^emph>\<open>client library\<close> (src/drivers/c) wraps the SQL functions for C
  programs. The three parts meet only in the database, which the model has as a parameter, but for the SQL
  functions that the ingest path of the extension calls, which are modelled.

  \<^bold>\<open>Correspondence.\<close> One group of definitions per source file, in the order and with the names of the
  source; a C struct is a record, an enum a datatype, a fixed-width integer a word or an \<open>int\<close> with its
  wrap-around or saturation written out, an error path a value of a sum or option type, and a loop a
  recursive function with its termination proof.

  \<^item> \<open>Prelude\<close>: error values of \<open>ereport\<close>, sequencing of calls that may fail, C strings, decimal printing,
    multisets of lists, buffer growth. \<open>Ieee754\<close>: \<open>float\<close> and \<open>double\<close> bit by bit, with rounding.
    \<open>C_Qsort\<close>: what \<open>qsort\<close> promises. \<open>Pq_Format\<close>: the message routines of the server (locale
    \<open>wire_format\<close>). \<open>Array_Heap\<close>: the binary heaps, shared by four copies of the same loops (locale
    \<open>keyed_order\<close>).
  \<^item> \<open>Vector_Type\<close> (maludb_type.c, maludb_varlena.h): storage format, text and binary input and output.
    \<open>Vector_Ops\<close> (maludb_vector.c): decode, conversions, norm, dot product, distance, normalise.
  \<^item> \<open>Exact_Search\<close> (maludb_search.c): scan, bounded heap, sort, emission. \<open>Topk_Aggregate\<close> (maludb_topk.c):
    transition, combine, serialise, deserialise, final. \<open>Search_Agreement\<close> relates the two.
  \<^item> \<open>Visited_Bitset\<close>, \<open>Ann_Graph\<close>, \<open>Ann_Search\<close>, \<open>Ann_Build\<close> (maludb_ann.c): the visited set (locale
    \<open>visited_set\<close>), the beam search, its properties, and the build with the blob it writes and reads.
  \<^item> \<open>Base64url\<close>, \<open>Json_Scan\<close>, \<open>Jwt_Auth\<close> (maludb_auth.c), \<open>Secret_Resolver\<close> (maludb_secret.c),
    \<open>Atomic_Ingest\<close> (maludb_atomic.c), and \<open>Ingest_Sql\<close>, the five SQL functions it reaches and the tables they
    write (src/sql/extension/maludb_core--0.106.0.sql).
  \<^item> \<open>Json_Value\<close>, \<open>Pg_Client\<close>, \<open>Curl_Buffer\<close>: jansson, libpq and libcurl as far as the listener uses them
    (locales \<open>growing_buffer\<close> and \<open>lazy_buffer\<close>). \<open>Db_Access\<close> (db.c). \<open>Exec_Child\<close> and \<open>External_Exec\<close>
    (exec.c). \<open>Proxy_Stdio\<close> and \<open>Mcp_Proxy\<close> (proxy.c). \<open>Http_Endpoint\<close> (http_endpoint.c). \<open>Dispatch\<close>
    (dispatch.c; locale \<open>tool_dispatcher\<close>, the contract of an implementation type). \<open>Mcp\<close> (mcp.c).
    \<open>Http_Server\<close> (http.c) and \<open>Http_Interleave\<close> (its calls on many connections, as a transition
    relation). \<open>Listener_Main\<close> (main.c, the start and stop of the daemon, the
    life cycle of libcurl).
  \<^item> \<open>Driver_Core\<close> and \<open>Driver_Api\<close> (src/drivers/c/src/maludb.c): the handle and its helpers, and every
    exported operation. \<open>Driver_Example\<close> (01-ingest-to-replay.c): a client that calls them.

  \<^bold>\<open>What is shown.\<close>

  \<^item> Search: where no distance is NaN, the exact search emits exactly the k nearest rows in order, the
    aggregate keeps the same rows, however the input is divided among workers and shipped between
    them, and both agree row by row; the exact search is defined exactly when its inputs are valid.
    The graph search stays within its arrays and terminates on every well-formed graph, and with a
    beam as wide as the graph is exact on what is reachable; the build, where its allocations are
    granted and its sizes do not overflow, yields a well-formed graph; the blob and the vector text
    read back.
  \<^item> Security: a JWT is accepted exactly when signature, key and claims allow it, the key being read as
    the freed memory reads; which secret files are opened, and with which permissions, as the code
    has it, laxer than its comments; a request without the token reaches nothing but the health and
    metrics pages; the listener never serves clear text when TLS was asked for; a child's environment
    is scrubbed.
  \<^item> Ingest: a claim is written together with its source package, its ledger entry and the events of
    both, and nothing else; a fact is linked only to claims that exist and are visible.
  \<^item> Tools: every dispatched call of less than 24 days is audited with the success, code and message of
    the result it returns, every SQL tool runs in one transaction closed once, every MCP answer is a
    well-formed JSON-RPC response, child processes keep within their buffers and are signalled at
    their deadline. Interleaved requests do not see each other, and from the body of a request to the
    last row of its connection the answer and the audit log agree.
  \<^item> Client library: an operation that returns an id either returns what the server answered and
    clears the error code, or reports failure and sets it (\<open>maludb_version\<close> on a closed handle
    fails silently: \<open>version_silent_failure\<close>); array literals fit their buffers; the example threads
    the ids the server answers through its ten statements.
  \<^item> Defects the proofs uncovered are stated as theorems too: a substitution and a download that never
    end, output lost on hang-up, a rolled-back call reported as done, a secret cut to 64 KiB, the
    one-byte overrun of an empty array literal, a text form that is rounded twice.

  \<^bold>\<open>Bounds and fuel.\<close> There is no fuel. Loops with a bound are total functions. Two loops that may run
  forever (\<open>replace_all\<close> in \<open>External_Exec\<close>, \<open>sink_grow\<close> in \<open>Secret_Resolver\<close>) are partial functions whose
  \<open>None\<close> is non-termination; theorems say when they return and when they do not. The \<open>select\<close> and \<open>poll\<close>
  loops consume a list of what the operating system answers in each iteration; a list that ends before
  the loop does is \<open>None\<close>, and the theorem on the deadline says how long a list is enough. An access
  outside an array is \<open>None\<close> as well, or the error value \<open>OutOfBounds\<close> where the function reports errors, so
  the safety theorems exclude it.

  \<^bold>\<open>Parameters.\<close> PostgreSQL (SPI, executor, pqformat, the answers of the server), OpenSSL's HMAC, libcurl,
  jansson's parser and printer, libmicrohttpd, \<open>qsort\<close>, \<open>getopt_long\<close>, \<open>PQescapeIdentifier\<close>, what freed memory
  reads as, which allocations of the graph build are granted, what besides keys and NOT NULL refuses a
  row of the ingest tables, and the operating system are arguments of the definitions that use them; each hypothesis on them states
  documented behaviour and has a witness.

  \<^bold>\<open>Not modelled.\<close> Outside the graph build allocation does not fail, and apart from the key of the JWT
  verifier freed memory is not tracked (memory contexts, \<open>free\<close>, reference counts); log lines, the usage
  text and the interrupt checks have no effect on results; other sessions of the database do not
  appear in the ingest tables; maludb_core.c holds only the module magic; the smoke tests of the
  driver; the rest of the SQL scripts, the services, the command line client and the drivers in other
  languages.
\<close>

section \<open>Properties that span components\<close>

text \<open>
  C2. The two ways to run a nearest-neighbour query return the same answer: the exact search over a
  compartment and the top-k aggregate over the same rows, with the same query, limit and metric
  and no NaN distance, yield the same chunk ids with the same distances in the same order,
  whichever sorting routine each uses.
\<close>

theorem exact_search_agrees_with_aggregate:
  assumes "maludb_exact_vector_search_c ctx qsort cid qb k (Some m) = Inr out" and "qsort_ok qsort"
    and "spi_scan ctx cid = (ret, rows)" and "\<forall>row \<in> set rows. row_id row \<noteq> None"
    and "topk_run None (map (args_of_row enc qb k m) rows) = Inr (Some st)" and "qsort_ok qsort'"
    and "\<forall>e \<in> set (ts_heap st). \<not> f64_nan (tk_distance e)"
  shows "map (\<lambda>r. (f64_key (out_distance r), out_chunk_id r)) out =
    map (\<lambda>e. (f64_key (tk_distance e), tk_chunk_id e)) (qsort' topk_cmp_distance_asc (ts_heap st))"
proof -
  from assms(1,3) obtain metric h where metric: "search_metric (Some m) = Inr metric" and k: "0 < nat (sint k)"
    and h: "search_rows metric (vec_floats qb) (nat (sint k)) (nat (search_cap k (length rows))) [] rows = Inr h"
    and out: "out = emit_rows 0 (qsort cmp_distance_asc h)"
    by (auto simp: search_success)
  from topk_run_state(3) [OF assms(5)] obtain a as where f: "filter args_complete (map (args_of_row enc qb k m) rows) = a # as"
    and ak: "arg_k a = Some (ts_capacity st)" and am: "parse_metric (the (arg_metric a)) = Inr (sint (ts_metric st))"
    and aq: "arg_query a = Some (vec_bytes (ts_qvec st))" by blast
  from f have "a \<in> set (map (args_of_row enc qb k m) rows)" by (metis filter_is_subset list.set_intros(1) subsetD)
  then obtain row where a: "a = args_of_row enc qb k m row" by auto
  have cap: "ts_cap st = nat (sint k)" using ak by (simp add: a args_of_row_def ts_cap_def)
  have met: "sint (ts_metric st) = metric"
    using am metric by (simp add: a args_of_row_def parse_metric_def search_metric_def split: if_splits)
  have q: "vec_floats qb = ts_qvec st" using aq by (simp add: a args_of_row_def)
  have pairs: "map topk_pair (ts_heap st) = map entry_pair h"
    unfolding topk_run_state(1) [OF assms(5)] cap met search_rows_candidates [OF k h] q
    by (rule heaps_agree, rule candidates_agree) (rule assms(4))
  note pairs_sorted_alike [OF assms(2,6) pairs assms(7)]
  moreover have "map (\<lambda>r. (f64_key (out_distance r), out_chunk_id r)) out = map (\<lambda>e. (f64_key (distance e), chunk_id e)) (map entry_of_result out)"
    by (simp add: entry_of_result_def)
  ultimately show ?thesis by (simp add: out)
qed

lemma sample_args_of_row:
  "args_of_row enc (vec_bytes [0x3F800000]) 1 ''l2'' (sample_row i [x]) = sample_args i x"
  by (simp add: args_of_row_def sample_row_def sample_args_def del: vec_bytes.simps)

theorem exact_search_agrees_with_aggregate_witness:
  "\<exists>out st. maludb_exact_vector_search_c sample_ctx insertion_qsort 1 (vec_bytes [0x3F800000]) 1 (Some ''l2'') = Inr out \<and>
     topk_run None [sample_args 7 0x40000000, sample_args 8 0x3F800000] = Inr (Some st) \<and>
     map (\<lambda>r. (f64_key (out_distance r), out_chunk_id r)) out =
     map (\<lambda>e. (f64_key (tk_distance e), tk_chunk_id e)) (insertion_qsort topk_cmp_distance_asc (ts_heap st))"
proof -
  let ?rows = "[sample_row 7 [0x40000000], sample_row 8 [0x3F800000]]"
  let ?args = "[sample_args 7 0x40000000, sample_args 8 0x3F800000]"
  obtain out where out: "maludb_exact_vector_search_c sample_ctx insertion_qsort 1 (vec_bytes [0x3F800000]) 1
      (Some ''l2'') = Inr out"
    using sample_search_defined by blast
  obtain st where st: "topk_run None ?args = Inr (Some st)" "ts_capacity st = 1" "ts_metric st = 2" "ts_qvec st = [0x3F800000]"
    using sample_run [of 7 "0x40000000" "[sample_args 8 0x3F800000]"] by auto
  have keys: "\<not> f64_nan 0x3FF0000000000000" "\<not> f64_nan 0" by code_simp+
  have m: "sint (2 :: i32) = 2" by simp
  have ok: "\<forall>e \<in> set (topk_candidates 2 [0x3F800000] ?args). topk_entry_ok e"
    unfolding topk_entry_ok_def by (rule list_all_mapD [OF sample_topk_candidates]) (simp add: keys)
  have "mset (ts_heap st) \<subseteq># mset (topk_candidates 2 [0x3F800000] ?args)"
    using topk_run_topk [OF st(1), unfolded st(2-4) m, OF ok] unfolding topk_def by blast
  from mset_subset_set [OF this ok] have nan: "\<forall>e \<in> set (ts_heap st). \<not> f64_nan (tk_distance e)"
    unfolding topk_entry_ok_def .
  have scan: "spi_scan sample_ctx 1 = (5, ?rows)" by (simp add: sample_ctx_def)
  have ids: "\<forall>row \<in> set ?rows. row_id row \<noteq> None" by (simp add: sample_row_def)
  have run: "topk_run None (map (args_of_row (\<lambda>s. []) (vec_bytes [0x3F800000]) 1 ''l2'') ?rows) = Inr (Some st)"
    unfolding list.map sample_args_of_row by (rule st(1))
  from exact_search_agrees_with_aggregate [OF out insertion_qsort_ok scan ids run insertion_qsort_ok nan] out st(1)
  show ?thesis by blast
qed

section \<open>A tool call through the listener\<close>

lemma served_post:
  assumes "listener_run token listener_init s" and "sv \<in> set (ls_log s)" and "mcp_post (sv_req sv)"
    and "auth_ok (sv_env sv) (sv_req sv)" and "length (concat (sv_blocks sv)) < MC2DBD_MAX_BODY"
  shows "sv_response sv = handle_body (sv_env sv) (sv_req sv) (concat (sv_blocks sv))"
proof -
  from listener_run_served [OF assms(1,2)] have r: "sv_response sv = serve_request (sv_env sv) (sv_req sv) (sv_blocks sv)"
    and b: "\<forall>b \<in> set (sv_blocks sv). b \<noteq> []" by (auto simp: served_alone_def)
  show ?thesis
    unfolding r serve_request_def handle_mcp_post(1) [OF assms(3,4)] prod.case http_action.case
      serve_blocks [OF assms(3,4) b] using assms(5) by simp
qed

lemma handle_body_returns:
  assumes "db_open (pg_connected env) (pg_server env) = Some h" and "fst (handle_body env req body) \<noteq> Hang"
  obtains resp h' user where
    "mcp_response (pg_dispatch env) (pg_server env) (urandom env) body user h = (Some resp, h')"
    "handle_body env req body =
      (SendJson 200 (case encode_response (env_jansson (pg_dispatch env)) resp of Some t \<Rightarrow> t | None \<Rightarrow> empty_response_body), h')"
  using assms by (auto simp: handle_body_def mcp_handle_request_def split: prod.splits option.splits)

text \<open>
  C33. From the wire to the audit log: in every interleaved run of the listener, an authorised POST
  whose body is a valid \<open>tools/call\<close> and whose tool returns is answered with status 200 and the
  printed form of a response whose \<open>isError\<close> agrees with the audit row, which carries the id of the call
  and is the last statement on the connection that the request opened. It holds for unknown tools
  and for all implementation types.
\<close>

theorem served_call_audited:
  assumes "listener_run token listener_init s" and "sv \<in> set (ls_log s)"
    and "mcp_post (sv_req sv)" and "auth_ok (sv_env sv) (sv_req sv)" and "length (concat (sv_blocks sv)) < MC2DBD_MAX_BODY"
    and "json_loads (env_jansson (pg_dispatch (sv_env sv))) (c_string (concat (sv_blocks sv))) = Inr root"
    and "json_object_get (Some root) ''method'' = Some (JString ''tools/call'')"
    and "valid_call (json_object_get (Some root) ''params'')"
    and "db_open (pg_connected (sv_env sv)) (pg_server (sv_env sv)) = Some h" and "fst (sv_response sv) \<noteq> Hang"
  shows "\<exists>resp ok h'.
    sv_response sv = (SendJson 200
      (case encode_response (env_jansson (pg_dispatch (sv_env sv))) resp of Some t \<Rightarrow> t | None \<Rightarrow> empty_response_body), h') \<and>
    json_object_get (json_object_get (Some resp) ''result'') ''isError'' = Some (if ok then JFalse else JTrue) \<and>
    audited_outcome (db_make_uuid (urandom (sv_env sv))) ok h h'"
proof -
  let ?env = "sv_env sv" and ?body = "concat (sv_blocks sv)"
  have r: "sv_response sv = handle_body ?env (sv_req sv) ?body" by (rule served_post [OF assms(1-5)])
  from assms(10) have "fst (handle_body ?env (sv_req sv) ?body) \<noteq> Hang" unfolding r .
  from handle_body_returns [OF assms(9) this] obtain resp h' user where
    m: "mcp_response (pg_dispatch ?env) (pg_server ?env) (urandom ?env) ?body user h = (Some resp, h')"
    and a: "handle_body ?env (sv_req sv) ?body = (SendJson 200
      (case encode_response (env_jansson (pg_dispatch ?env)) resp of Some t \<Rightarrow> t | None \<Rightarrow> empty_response_body), h')" .
  from mcp_call_audited [OF assms(6-8) m] show ?thesis unfolding r a by blast
qed

text \<open>A server with an empty catalog, asked for a tool: the answer is an error, and it is audited.\<close>

definition catalog_server :: server where
  "catalog_server h = (if length h = 1 then CommandOk else Tuples [])"

definition catalog_env :: http_env where
  "catalog_env = sample_http_env\<lparr>pg_connected := True, pg_server := catalog_server\<rparr>"

lemma catalog_env_ready:
  "db_open (pg_connected catalog_env) (pg_server catalog_env) = Some [(search_path_sql, [])]"
  "mcp_post good_post" "auth_ok catalog_env good_post"
  "json_loads (env_jansson (pg_dispatch catalog_env)) t = Inr call_root"
  "json_object_get (Some call_root) ''method'' = Some (JString ''tools/call'')"
  "valid_call (json_object_get (Some call_root) ''params'')"
  by (simp_all add: catalog_env_def catalog_server_def sample_http_env_def db_open_def pq_exec_def pq_exec_params_def
      good_post_def mcp_post_def sample_post_def auth_ok_def starts_with_def call_env_def call_root_def valid_call_def)

lemma catalog_env_answers: "fst (handle_body catalog_env good_post ''{'') \<noteq> Hang"
  by (simp add: handle_body_def catalog_env_def sample_http_env_def db_open_def pq_exec_def pq_exec_params_def
      catalog_server_def mcp_handle_request_def mcp_response_def call_env_def call_root_def handle_tools_call_def
      call_tool_def db_tool_lookup_def Let_def)

theorem served_call_audited_witness:
  "\<exists>s sv ok h'. listener_run (Some ''s3cret'') listener_init s \<and> sv \<in> set (ls_log s) \<and>
     audited_outcome (db_make_uuid (urandom catalog_env)) ok [(search_path_sql, [])] h'"
proof -
  have t: "bearer_token catalog_env = Some ''s3cret''" by (simp add: catalog_env_def sample_http_env_def)
  from single_request_run [OF catalog_env_ready(2,3), of "''{''"] obtain s where
    s: "listener_run (Some ''s3cret'') listener_init s"
    "ls_log s = [\<lparr>sv_con = 0, sv_req = good_post, sv_blocks = [''{''], sv_env = catalog_env,
       sv_response = handle_body catalog_env good_post ''{''\<rparr>]"
    unfolding t by (auto simp: MC2DBD_MAX_BODY_def)
  let ?sv = "\<lparr>sv_con = 0, sv_req = good_post, sv_blocks = [''{''], sv_env = catalog_env,
       sv_response = handle_body catalog_env good_post ''{''\<rparr>"
  have sv: "?sv \<in> set (ls_log s)" using s(2) by simp
  have "\<exists>resp ok h'. sv_response ?sv = (SendJson 200
      (case encode_response (env_jansson (pg_dispatch (sv_env ?sv))) resp of Some t \<Rightarrow> t | None \<Rightarrow> empty_response_body), h') \<and>
    json_object_get (json_object_get (Some resp) ''result'') ''isError'' = Some (if ok then JFalse else JTrue) \<and>
    audited_outcome (db_make_uuid (urandom (sv_env ?sv))) ok [(search_path_sql, [])] h'"
    by (rule served_call_audited [OF s(1) sv, where root = call_root])
      (simp_all add: catalog_env_ready catalog_env_answers MC2DBD_MAX_BODY_def)
  with s(1) sv show ?thesis by auto
qed

end
